theory Spec2Isabelle
  imports Complex_Main "HOL-Library.AList"
begin

section \<open>JavaScript values\<close>

text \<open>
  The proxy is TypeScript running on Node. Configuration files, request bodies and header
  sets are JavaScript objects used as dictionaries, so the embedding needs the values that
  \<open>JSON.parse\<close> produces, \<open>undefined\<close> (the \<open>None\<close> of an option), and the members every
  plain object inherits from \<open>Object.prototype\<close>: a read \<open>obj[key]\<close> of a missing own
  property falls through to them.

  A string is the list of the bytes of its UTF-8 encoding, and so is a \<open>Buffer\<close>. Every
  character the code inspects (braces, quotes, the slash, control characters) is ASCII,
  and no byte of a multi-byte UTF-8 sequence is ASCII. Where JavaScript counts or splits
  a string it does so by UTF-16 code units (\<open>Object.entries\<close>) or by code points
  (\<open>for ... of\<close>); \<open>codeUnits\<close> and \<open>codePoints\<close> below split the bytes accordingly. An
  object is the list of its own properties in insertion order, keys distinct;
  \<open>ownEntries\<close> lists them in the order in which the engine enumerates them.
\<close>

datatype jsval =
    JNull
  | JBool bool
  | JNum rat
  | JStr string
  | JArr "jsval list"
  | JObj "(string \<times> jsval) list"
  | JNative string  \<comment> \<open>a built-in member of \<open>Object.prototype\<close>, named by its property key\<close>

datatype error =
    TypeError
  | Error string  \<comment> \<open>\<open>new Error(message)\<close>\<close>

type_synonym object = "(string \<times> jsval) list"

text \<open>The property keys of \<open>Object.prototype\<close>.\<close>

definition objectPrototypeKeys :: "string list" where
  "objectPrototypeKeys =
     [''constructor'', ''__defineGetter__'', ''__defineSetter__'', ''hasOwnProperty'',
      ''__lookupGetter__'', ''__lookupSetter__'', ''isPrototypeOf'', ''propertyIsEnumerable'',
      ''toString'', ''valueOf'', ''__proto__'', ''toLocaleString'']"

text \<open>JavaScript truthiness, as used by \<open>if (x)\<close>, \<open>!x\<close>, \<open>x && y\<close> and \<open>x || y\<close>.\<close>

fun truthy :: "jsval option \<Rightarrow> bool" where
  "truthy None = False"
| "truthy (Some JNull) = False"
| "truthy (Some (JBool b)) = b"
| "truthy (Some (JNum n)) = (n \<noteq> 0)"
| "truthy (Some (JStr s)) = (s \<noteq> [])"
| "truthy (Some (JArr xs)) = True"
| "truthy (Some (JObj kvs)) = True"
| "truthy (Some (JNative k)) = True"

text \<open>\<open>obj[key]\<close> on a plain object: the own property, else the inherited member, else
  \<open>undefined\<close>.\<close>

definition jsGet :: "object \<Rightarrow> string \<Rightarrow> jsval option" where
  "jsGet obj key =
     (case map_of obj key of
        Some v \<Rightarrow> Some v
      | None \<Rightarrow> if key \<in> set objectPrototypeKeys then Some (JNative key) else None)"

text \<open>\<open>value.name\<close> on an arbitrary value: reading a property of \<open>null\<close> throws. The
  function is used at the names \<open>baseUrl\<close>, \<open>completionsPath\<close>, \<open>models\<close>, \<open>modelName\<close>,
  \<open>temperature\<close>, \<open>messages\<close>, \<open>role\<close>, \<open>content\<close>, \<open>add\<close>, \<open>replace\<close> and \<open>remove\<close>, which
  strings, numbers, booleans, arrays and functions do not define.\<close>

fun getProp :: "jsval \<Rightarrow> string \<Rightarrow> error + jsval option" where
  "getProp JNull name = Inl TypeError"
| "getProp (JObj kvs) name = Inr (jsGet kvs name)"
| "getProp v name = Inr (if name \<in> set objectPrototypeKeys then Some (JNative name) else None)"

text \<open>Decimal digits of a natural number, as JavaScript prints an array index, a status
  code or a byte length.\<close>

fun showNat :: "nat \<Rightarrow> string" where
  "showNat n =
     (if n < 10 then [char_of (48 + n)]
      else showNat (n div 10) @ [char_of (48 + n mod 10)])"

declare showNat.simps [simp del]

text \<open>The code points of a string: a byte below \<open>0xC0\<close> stands alone, a byte below \<open>0xE0\<close>
  begins a sequence of two bytes, one below \<open>0xF0\<close> a sequence of three, any other a
  sequence of four.\<close>

definition utf8Length :: "char \<Rightarrow> nat" where
  "utf8Length c =
     (if (of_char c :: nat) < 0xC0 then 1
      else if (of_char c :: nat) < 0xE0 then 2
      else if (of_char c :: nat) < 0xF0 then 3
      else 4)"

fun codePoints :: "string \<Rightarrow> string list" where
  "codePoints [] = []"
| "codePoints (c # cs) =
     (c # take (utf8Length c - 1) cs) # codePoints (drop (utf8Length c - 1) cs)"

text \<open>The UTF-16 code units of a string, each as a string of its own. A code point of one
  to three bytes is one code unit. A code point of four bytes lies above \<open>0xFFFF\<close> and is
  a pair of surrogates; a surrogate on its own is written in the three-byte form.\<close>

definition threeBytes :: "nat \<Rightarrow> string" where
  "threeBytes u =
     [char_of (0xE0 + u div 4096), char_of (0x80 + u div 64 mod 64), char_of (0x80 + u mod 64)]"

definition surrogates :: "string \<Rightarrow> string list" where
  "surrogates p =
     (case p of
        [b0, b1, b2, b3] \<Rightarrow>
          (let v = ((of_char b0 :: nat) mod 8) * 262144 + ((of_char b1 :: nat) mod 64) * 4096
                     + ((of_char b2 :: nat) mod 64) * 64 + (of_char b3 :: nat) mod 64 - 65536
           in [threeBytes (0xD800 + v div 1024), threeBytes (0xDC00 + v mod 1024)])
      | other \<Rightarrow> [p])"

definition codeUnits :: "string \<Rightarrow> string list" where
  "codeUnits s = concat (map surrogates (codePoints s))"

text \<open>The order in which \<open>Object.entries\<close>, \<open>for ... in\<close> and \<open>JSON.stringify\<close> go through the
  own properties of an object: the keys that are array indices (canonical decimal
  numerals below \<open>2^32 - 1\<close>) in ascending numeric order, then the other keys in insertion
  order.\<close>

definition indexValue :: "string \<Rightarrow> int" where
  "indexValue key = foldl (\<lambda>n c. 10 * n + (of_char c - 48)) 0 key"

definition isArrayIndex :: "string \<Rightarrow> bool" where
  "isArrayIndex key =
     (key \<noteq> [] \<and> list_all (\<lambda>c. c \<in> set ''0123456789'') key
      \<and> (key = ''0'' \<or> hd key \<noteq> CHR ''0'') \<and> indexValue key < 4294967295)"

definition ownEntries :: "(string \<times> 'a) list \<Rightarrow> (string \<times> 'a) list" where
  "ownEntries kvs =
     sort_key (\<lambda>kv. indexValue (fst kv)) (filter (\<lambda>kv. isArrayIndex (fst kv)) kvs)
     @ filter (\<lambda>kv. \<not> isArrayIndex (fst kv)) kvs"

text \<open>\<open>Object.entries(value)\<close>: the elements of an array and the code units of a string
  under their indices.\<close>

fun objectEntries :: "jsval \<Rightarrow> error + (string \<times> jsval) list" where
  "objectEntries JNull = Inl TypeError"
| "objectEntries (JObj kvs) = Inr (ownEntries kvs)"
| "objectEntries (JArr xs) = Inr (zip (map showNat [0..<length xs]) xs)"
| "objectEntries (JStr s) =
     Inr (zip (map showNat [0..<length (codeUnits s)]) (map JStr (codeUnits s)))"
| "objectEntries v = Inr []"

text \<open>\<open>Array.prototype.join\<close> on already converted elements.\<close>

fun joinWith :: "string \<Rightarrow> string list \<Rightarrow> string" where
  "joinWith sep [] = []"
| "joinWith sep [x] = x"
| "joinWith sep (x # y # ys) = x @ sep @ joinWith sep (y # ys)"

text \<open>The results of a list of conversions, or the first exception among them.\<close>

fun firstError :: "(error + 'a) list \<Rightarrow> error + 'a list" where
  "firstError [] = Inr []"
| "firstError (x # xs) =
     (case x of
        Inl e \<Rightarrow> Inl e
      | Inr v \<Rightarrow> (case firstError xs of Inl e \<Rightarrow> Inl e | Inr vs \<Rightarrow> Inr (v # vs)))"

text \<open>The conversion to a string (\<open>ToString\<close>) that \<open>String(value)\<close>, a template literal, a
  property key \<open>obj[value]\<close>, \<open>Array.prototype.join\<close> and the result of a \<open>replace\<close> callback
  go through. How a number prints is the engine's business and is taken as the parameter
  \<open>numStr\<close>. An array is joined with commas, \<open>null\<close> printing as the empty string inside
  it. A plain object prints through the inherited \<open>toString\<close>; when it has a property
  \<open>toString\<close> of its own, which coming from JSON is no function, nothing converts it
  (the inherited \<open>valueOf\<close> returns the object, a \<open>valueOf\<close> of its own is no function
  either) and the conversion throws a \<open>TypeError\<close>.\<close>

fun jsString :: "(rat \<Rightarrow> string) \<Rightarrow> jsval \<Rightarrow> error + string" where
  "jsString numStr JNull = Inr ''null''"
| "jsString numStr (JBool b) = Inr (if b then ''true'' else ''false'')"
| "jsString numStr (JNum n) = Inr (numStr n)"
| "jsString numStr (JStr s) = Inr s"
| "jsString numStr (JArr xs) =
     (case firstError (map (\<lambda>x. if x = JNull then Inr [] else jsString numStr x) xs) of
        Inl e \<Rightarrow> Inl e
      | Inr parts \<Rightarrow> Inr (joinWith '','' parts))"
| "jsString numStr (JObj kvs) =
     (case map_of kvs ''toString'' of
        None \<Rightarrow> Inr ''[object Object]''
      | Some v \<Rightarrow> Inl TypeError)"
| "jsString numStr (JNative k) =
     Inr (if k = ''__proto__'' then ''[object Object]''
          else if k = ''constructor'' then ''function Object() { [native code] }''
          else ''function '' @ k @ ''() { [native code] }'')"

text \<open>\<open>obj[key] = v\<close> on a plain object: the property is replaced where it stands or
  appended. An assignment to \<open>__proto__\<close> adds no own property (it swaps the prototype when
  the value is an object, which the model does not follow). \<open>delete obj[key]\<close> is
  \<open>AList.delete\<close>, and so are \<open>Map.set\<close> (\<open>AList.update\<close>) and \<open>Map.delete\<close> on a \<open>Map\<close>, which
  has no inherited keys.\<close>

definition setProp :: "string \<Rightarrow> 'a \<Rightarrow> (string \<times> 'a) list \<Rightarrow> (string \<times> 'a) list" where
  "setProp key v obj = (if key = ''__proto__'' then obj else AList.update key v obj)"

text \<open>\<open>for (const x of value)\<close>: an array yields its elements, a string its code points,
  anything else is not iterable.\<close>

fun iterate :: "jsval \<Rightarrow> error + jsval list" where
  "iterate (JArr xs) = Inr xs"
| "iterate (JStr s) = Inr (map JStr (codePoints s))"
| "iterate v = Inl TypeError"

text \<open>\<open>JSON.stringify\<close> of a string: quotes, with the quote, the backslash and the control
  characters escaped.\<close>

definition hexDigit :: "nat \<Rightarrow> char" where
  "hexDigit d = (if d < 10 then char_of (48 + d) else char_of (87 + d))"

definition jsonEscape :: "char \<Rightarrow> string" where
  "jsonEscape c =
     (if c = CHR 0x22 then [CHR 0x5C, CHR 0x22]
      else if c = CHR 0x5C then [CHR 0x5C, CHR 0x5C]
      else if c = CHR 0x08 then [CHR 0x5C, CHR ''b'']
      else if c = CHR 0x0C then [CHR 0x5C, CHR ''f'']
      else if c = CHR 0x0A then [CHR 0x5C, CHR ''n'']
      else if c = CHR 0x0D then [CHR 0x5C, CHR ''r'']
      else if c = CHR 0x09 then [CHR 0x5C, CHR ''t'']
      else if (of_char c :: nat) < 32
      then [CHR 0x5C, CHR ''u'', CHR ''0'', CHR ''0'',
            hexDigit (of_char c div 16), hexDigit (of_char c mod 16)]
      else [c])"

definition jsonQuote :: "string \<Rightarrow> string" where
  "jsonQuote s = [CHR 0x22] @ concat (map jsonEscape s) @ [CHR 0x22]"

text \<open>\<open>JSON.stringify(value)\<close>; \<open>None\<close> is \<open>undefined\<close>, the result for a function. A property
  whose value has no JSON text is left out of an object and printed as \<open>null\<close> in an
  array. The properties of an object are printed in the order of \<open>ownEntries\<close>.\<close>

fun jsonStringify :: "(rat \<Rightarrow> string) \<Rightarrow> jsval \<Rightarrow> string option" where
  "jsonStringify numStr JNull = Some ''null''"
| "jsonStringify numStr (JBool b) = Some (if b then ''true'' else ''false'')"
| "jsonStringify numStr (JNum n) = Some (numStr n)"
| "jsonStringify numStr (JStr s) = Some (jsonQuote s)"
| "jsonStringify numStr (JArr xs) =
     Some (''['' @ joinWith '',''
         (map (\<lambda>x. case jsonStringify numStr x of None \<Rightarrow> ''null'' | Some t \<Rightarrow> t) xs) @ '']'')"
| "jsonStringify numStr (JObj kvs) =
     Some (''{'' @ joinWith '',''
         (concat (map (\<lambda>kt. case snd kt of
                              None \<Rightarrow> []
                            | Some t \<Rightarrow> [jsonQuote (fst kt) @ '':'' @ t])
                    (ownEntries (map (\<lambda>kv. (fst kv, jsonStringify numStr (snd kv))) kvs))))
           @ ''}'')"
| "jsonStringify numStr (JNative k) = None"

text \<open>\<open>s.includes(sub)\<close>.\<close>

definition jsIncludes :: "string \<Rightarrow> string \<Rightarrow> bool" where
  "jsIncludes s sub = list_ex (\<lambda>i. take (length sub) (drop i s) = sub) [0..<Suc (length s)]"


section \<open>The append-only logger (\<open>src/logger.ts\<close>)\<close>

text \<open>
  \<open>LogEntry\<close> of \<open>types.ts\<close>. The same record serves for \<open>Partial<LogEntry>\<close>: a field that
  is \<open>None\<close> is absent (or \<open>undefined\<close>), and \<open>JSON.stringify\<close> leaves such a field out of the
  written line. Token counts are lengths of token arrays, hence natural numbers.
\<close>

record LogEntry =
  le_requestId :: "string option"
  le_timestamp :: "string option"
  le_model :: "jsval option"
  le_client :: "string option"
  le_path :: "string option"
  le_method :: "string option"
  le_body :: "jsval option"
  le_status :: "nat option"
  le_headers :: "(string \<times> string) list option"
  le_response :: "jsval option"
  le_isBinary :: "bool option"
  le_promptTokens :: "nat option"
  le_completionTokens :: "nat option"
  le_totalTokens :: "nat option"

text \<open>The object literal \<open>{}\<close>.\<close>

definition emptyEntry :: LogEntry where
  "emptyEntry =
     \<lparr>le_requestId = None, le_timestamp = None, le_model = None, le_client = None,
      le_path = None, le_method = None, le_body = None, le_status = None, le_headers = None,
      le_response = None, le_isBinary = None, le_promptTokens = None,
      le_completionTokens = None, le_totalTokens = None\<rparr>"

text \<open>A later property of an object literal overrides an earlier one of the same name.\<close>

definition orElse :: "'a option \<Rightarrow> 'a option \<Rightarrow> 'a option" where
  "orElse later earlier = (case later of Some v \<Rightarrow> Some v | None \<Rightarrow> earlier)"

text \<open>\<open>{...a, ...b}\<close>.\<close>

definition spread :: "LogEntry \<Rightarrow> LogEntry \<Rightarrow> LogEntry" where
  "spread a b =
     \<lparr>le_requestId = orElse (le_requestId b) (le_requestId a),
      le_timestamp = orElse (le_timestamp b) (le_timestamp a),
      le_model = orElse (le_model b) (le_model a),
      le_client = orElse (le_client b) (le_client a),
      le_path = orElse (le_path b) (le_path a),
      le_method = orElse (le_method b) (le_method a),
      le_body = orElse (le_body b) (le_body a),
      le_status = orElse (le_status b) (le_status a),
      le_headers = orElse (le_headers b) (le_headers a),
      le_response = orElse (le_response b) (le_response a),
      le_isBinary = orElse (le_isBinary b) (le_isBinary a),
      le_promptTokens = orElse (le_promptTokens b) (le_promptTokens a),
      le_completionTokens = orElse (le_completionTokens b) (le_completionTokens a),
      le_totalTokens = orElse (le_totalTokens b) (le_totalTokens a)\<rparr>"

text \<open>
  The logger's state: the table \<open>pendingLogs\<close> (a \<open>Map\<close>, in insertion order) and the lines
  appended to the log so far, oldest first. A line is kept as the entry that
  \<open>JSON.stringify\<close> serialises. Appends are taken to succeed; rotation renames the file
  and does not change which lines were written.
\<close>

record loggerState =
  pendingLogs :: "(string \<times> LogEntry) list"
  logLines :: "LogEntry list"

definition writeLog :: "LogEntry \<Rightarrow> loggerState \<Rightarrow> loggerState" where
  "writeLog entry st = st\<lparr>logLines := logLines st @ [entry]\<rparr>"

text \<open>\<open>logRequestBody\<close>: \<open>uuid\<close> is the result of \<open>randomUUID()\<close> and \<open>now\<close> the ISO time.\<close>

definition logRequestBody ::
  "string \<Rightarrow> string \<Rightarrow> jsval \<Rightarrow> LogEntry \<Rightarrow> loggerState \<Rightarrow> string \<times> loggerState" where
  "logRequestBody uuid now parsedReqBody additionalContext st =
     (let logEntry =
            (spread (emptyEntry\<lparr>le_requestId := Some uuid, le_timestamp := Some now\<rparr>)
                    additionalContext)\<lparr>le_body := Some parsedReqBody\<rparr>;
          st1 = st\<lparr>pendingLogs := AList.update uuid emptyEntry (pendingLogs st)\<rparr>
      in (uuid, writeLog logEntry st1))"

definition updateLogEntry :: "string \<Rightarrow> LogEntry \<Rightarrow> loggerState \<Rightarrow> loggerState" where
  "updateLogEntry requestId updates st =
     (let pendingUpdate = (case map_of (pendingLogs st) requestId of
                             Some u \<Rightarrow> u | None \<Rightarrow> emptyEntry)
      in st\<lparr>pendingLogs := AList.update requestId (spread pendingUpdate updates) (pendingLogs st)\<rparr>)"

text \<open>\<open>promptTokens && completionTokens ? promptTokens + completionTokens : undefined\<close>.\<close>

definition totalOf :: "nat option \<Rightarrow> nat option \<Rightarrow> nat option" where
  "totalOf promptTokens completionTokens =
     (case (promptTokens, completionTokens) of
        (Some p, Some c) \<Rightarrow> if p \<noteq> 0 \<and> c \<noteq> 0 then Some (p + c) else None
      | _ \<Rightarrow> None)"

text \<open>\<open>logResponse\<close>. The object literal lists the six response fields, then spreads the
  pending update over them, then sets the three token fields from the call's own
  arguments, whatever the pending update held.\<close>

definition logResponse ::
  "string \<Rightarrow> jsval \<Rightarrow> (string \<times> string) list option \<Rightarrow> string \<Rightarrow> nat \<Rightarrow> nat option \<Rightarrow> nat option
     \<Rightarrow> loggerState \<Rightarrow> loggerState" where
  "logResponse now responseData headers requestId statusCode promptTokens completionTokens st =
     (let contentType = (case headers of
                           None \<Rightarrow> []
                         | Some h \<Rightarrow> (case map_of h ''content-type'' of
                                       None \<Rightarrow> [] | Some c \<Rightarrow> c));
          isBinary = (\<not> jsIncludes contentType ''application/json''
                      \<and> \<not> jsIncludes contentType ''text/'');
          pendingUpdate = (case map_of (pendingLogs st) requestId of
                             Some u \<Rightarrow> u | None \<Rightarrow> emptyEntry);
          st1 = st\<lparr>pendingLogs := AList.delete requestId (pendingLogs st)\<rparr>;
          logEntry =
            (spread
               (emptyEntry\<lparr>le_requestId := Some requestId, le_timestamp := Some now,
                  le_status := Some statusCode, le_headers := headers,
                  le_response := Some (if isBinary then JStr ''<binary-data>'' else responseData),
                  le_isBinary := Some isBinary\<rparr>)
               pendingUpdate)
              \<lparr>le_promptTokens := promptTokens, le_completionTokens := completionTokens,
               le_totalTokens := totalOf promptTokens completionTokens\<rparr>
      in writeLog logEntry st1)"


section \<open>The configuration loader (\<open>configLoader.ts\<close>)\<close>

text \<open>\<open>ModelConfig\<close> of \<open>types.ts\<close>. The loader copies whatever the parsed file holds, so a
  field is any value, or \<open>undefined\<close> when the file leaves it out.\<close>

record ModelConfig =
  mc_baseUrl :: "jsval option"
  mc_completionsPath :: "jsval option"
  mc_modelName :: "jsval option"
  mc_temperature :: "jsval option"

text \<open>The two module-level tables, \<open>modelConfigs\<close> and \<open>providerConfigs\<close>: plain objects,
  kept as the lists of their own properties.\<close>

record configTables =
  modelConfigs :: "(string \<times> ModelConfig) list"
  providerConfigs :: "(string \<times> jsval) list"

text \<open>What reading and parsing a configuration file yields: the file is missing
  (\<open>ENOENT\<close>), the read fails otherwise, \<open>JSON.parse\<close> throws a \<open>SyntaxError\<close>, or a value
  is parsed.\<close>

datatype 'a fileInput = FileNotFound | ReadFailure | InvalidJson | Parsed 'a

text \<open>The process after a load: still running with its tables, or ended by
  \<open>process.exit(code)\<close>, with the tables as they stood at that moment.\<close>

datatype 'a outcome = Running 'a | Exited nat 'a

text \<open>\<open>for (const key in table) delete table[key]\<close>.\<close>

definition clearKeys :: "(string \<times> 'a) list \<Rightarrow> (string \<times> 'a) list" where
  "clearKeys table = fold AList.delete (map fst table) table"

definition reservedKeys :: "string list" where
  "reservedKeys = [''baseUrl'', ''completionsPath'', ''apiKey'', ''customHeader'']"

text \<open>The inner loop of \<open>loadModelConfigs\<close> over the models of one provider. The result
  pairs the exception that stopped the loop, if any, with the table as left.\<close>

fun storeModels ::
  "string \<Rightarrow> jsval option \<Rightarrow> jsval option \<Rightarrow> (string \<times> jsval) list
     \<Rightarrow> (string \<times> ModelConfig) list \<Rightarrow> error option \<times> (string \<times> ModelConfig) list" where
  "storeModels provider baseUrl completionsPath [] table = (None, table)"
| "storeModels provider baseUrl completionsPath ((modelKey, modelConfig) # rest) table =
     (case getProp modelConfig ''modelName'' of
        Inl e \<Rightarrow> (Some e, table)
      | Inr modelName \<Rightarrow>
          (case getProp modelConfig ''temperature'' of
             Inl e \<Rightarrow> (Some e, table)
           | Inr temperature \<Rightarrow>
               storeModels provider baseUrl completionsPath rest
                 (setProp (provider @ ''/'' @ modelKey)
                    \<lparr>mc_baseUrl = baseUrl, mc_completionsPath = completionsPath,
                     mc_modelName = modelName, mc_temperature = temperature\<rparr> table)))"

text \<open>The models of a provider: the entries of its \<open>models\<close> field when that is truthy,
  else every entry of the provider whose key is not reserved.\<close>

definition providerModels :: "jsval \<Rightarrow> error + (string \<times> jsval) list" where
  "providerModels providerConfig =
     (case getProp providerConfig ''models'' of
        Inl e \<Rightarrow> Inl e
      | Inr models \<Rightarrow>
          (case models of
             Some m \<Rightarrow>
               if truthy (Some m) then objectEntries m
               else (case objectEntries providerConfig of
                       Inl e \<Rightarrow> Inl e
                     | Inr entries \<Rightarrow> Inr (filter (\<lambda>(key, v). key \<notin> set reservedKeys) entries))
           | None \<Rightarrow>
               (case objectEntries providerConfig of
                  Inl e \<Rightarrow> Inl e
                | Inr entries \<Rightarrow> Inr (filter (\<lambda>(key, v). key \<notin> set reservedKeys) entries))))"

text \<open>The outer loop over the providers.\<close>

fun storeProviders :: "(string \<times> jsval) list \<Rightarrow> configTables \<Rightarrow> error option \<times> configTables" where
  "storeProviders [] tables = (None, tables)"
| "storeProviders ((provider, providerConfig) # rest) tables =
     (let tables1 = tables\<lparr>providerConfigs :=
                       setProp provider providerConfig (providerConfigs tables)\<rparr>
      in case getProp providerConfig ''baseUrl'' of
           Inl e \<Rightarrow> (Some e, tables1)
         | Inr baseUrl \<Rightarrow>
             (case getProp providerConfig ''completionsPath'' of
                Inl e \<Rightarrow> (Some e, tables1)
              | Inr completionsPath \<Rightarrow>
                  (case providerModels providerConfig of
                     Inl e \<Rightarrow> (Some e, tables1)
                   | Inr models \<Rightarrow>
                       (case storeModels provider baseUrl completionsPath models
                               (modelConfigs tables1) of
                          (Some e, table) \<Rightarrow> (Some e, tables1\<lparr>modelConfigs := table\<rparr>)
                        | (None, table) \<Rightarrow>
                            storeProviders rest (tables1\<lparr>modelConfigs := table\<rparr>)))))"

text \<open>\<open>loadModelConfigs\<close>. The file is read and parsed before the tables are touched; the
  tables are then emptied and refilled in place. Every exception, whatever its kind and
  whenever the load runs, ends in \<open>process.exit(1)\<close>.\<close>

definition loadModelConfigs :: "jsval fileInput \<Rightarrow> configTables \<Rightarrow> configTables outcome" where
  "loadModelConfigs input tables =
     (case input of
        FileNotFound \<Rightarrow> Exited 1 tables
      | ReadFailure \<Rightarrow> Exited 1 tables
      | InvalidJson \<Rightarrow> Exited 1 tables
      | Parsed config \<Rightarrow>
          (let cleared = \<lparr>modelConfigs = clearKeys (modelConfigs tables),
                          providerConfigs = clearKeys (providerConfigs tables)\<rparr>
           in case objectEntries config of
                Inl e \<Rightarrow> Exited 1 cleared
              | Inr providers \<Rightarrow>
                  (case storeProviders providers cleared of
                     (Some e, tables') \<Rightarrow> Exited 1 tables'
                   | (None, tables') \<Rightarrow> Running tables')))"

text \<open>\<open>CertConfig\<close> of \<open>types.ts\<close>; a certificate is the bytes of its file.\<close>

record CertConfig =
  cc_hostname :: string
  cc_certPath :: "string option"
  cc_must :: bool
  cc_cert :: "string option"

text \<open>\<open>loadCertFromFile\<close>; \<open>readFile\<close> is \<open>fs.readFile\<close>, \<open>None\<close> where it throws. A missing or
  empty path is falsy and reads nothing.\<close>

definition loadCertFromFile :: "(string \<Rightarrow> string option) \<Rightarrow> CertConfig \<Rightarrow> string option" where
  "loadCertFromFile readFile certConfig =
     (case cc_certPath certConfig of
        None \<Rightarrow> None
      | Some path \<Rightarrow> if path = [] then None else readFile path)"

text \<open>The loop of \<open>loadCACerts\<close>: one cache entry per configured entry, in order.\<close>

fun pushCerts :: "(string \<Rightarrow> string option) \<Rightarrow> CertConfig list \<Rightarrow> CertConfig list \<Rightarrow> CertConfig list" where
  "pushCerts readFile [] caCerts = caCerts"
| "pushCerts readFile (certConfig # rest) caCerts =
     (let cert = loadCertFromFile readFile certConfig
      in pushCerts readFile rest
           (caCerts @ [\<lparr>cc_hostname = cc_hostname certConfig, cc_certPath = None,
                        cc_must = (cc_must certConfig \<and> cert \<noteq> None), cc_cert = cert\<rparr>]))"

text \<open>\<open>loadCACerts\<close>: only a \<open>SyntaxError\<close> ends the process; a missing or unreadable file
  leaves the cache as it is.\<close>

definition loadCACerts ::
  "(string \<Rightarrow> string option) \<Rightarrow> CertConfig list fileInput \<Rightarrow> CertConfig list
     \<Rightarrow> CertConfig list outcome" where
  "loadCACerts readFile input caCerts =
     (case input of
        FileNotFound \<Rightarrow> Running caCerts
      | ReadFailure \<Rightarrow> Running caCerts
      | InvalidJson \<Rightarrow> Exited 1 caCerts
      | Parsed certsConfig \<Rightarrow> Running (pushCerts readFile certsConfig []))"

text \<open>The fields of the upstream request's options that the policy and the header rules
  write.\<close>

record requestOptions =
  ro_headers :: object
  ro_rejectUnauthorized :: bool
  ro_ca :: "string option"

text \<open>\<open>setupCA\<close>: \<open>Array.prototype.find\<close> yields the first entry of that hostname.\<close>

definition setupCA :: "CertConfig list \<Rightarrow> requestOptions \<Rightarrow> string \<Rightarrow> requestOptions" where
  "setupCA caCerts options hostname =
     (case find (\<lambda>cert. cc_hostname cert = hostname) caCerts of
        Some certConfig \<Rightarrow>
          (if cc_must certConfig \<and> cc_cert certConfig \<noteq> None
           then options\<lparr>ro_ca := cc_cert certConfig, ro_rejectUnauthorized := True\<rparr>
           else options\<lparr>ro_rejectUnauthorized := False\<rparr>)
      | None \<Rightarrow> options\<lparr>ro_rejectUnauthorized := False\<rparr>)"


section \<open>Token accounting (\<open>tokenizer.ts\<close>)\<close>

text \<open>\<open>LRUCache\<close>: a \<open>Map\<close> in insertion order. \<open>Map.set\<close> keeps the place of a key that is
  present and appends a new one; \<open>Map.delete\<close> removes the key.\<close>

definition lruGet :: "'k \<Rightarrow> ('k \<times> 'v) list \<Rightarrow> 'v option \<times> ('k \<times> 'v) list" where
  "lruGet key cache =
     (case map_of cache key of
        Some v \<Rightarrow> (Some v, AList.update key v (AList.delete key cache))
      | None \<Rightarrow> (None, cache))"

definition lruSet :: "nat \<Rightarrow> 'k \<Rightarrow> 'v \<Rightarrow> ('k \<times> 'v) list \<Rightarrow> ('k \<times> 'v) list" where
  "lruSet maxSize key v cache =
     AList.update key v
       (if length cache \<ge> maxSize
        then (case cache of [] \<Rightarrow> cache | (firstKey, w) # rest \<Rightarrow> AList.delete firstKey cache)
        else cache)"

definition encoderCacheSize :: nat where
  "encoderCacheSize = 100"

text \<open>\<open>getEncoder\<close>. The tokenizer library is outside the repository: \<open>encoding_for_model\<close>
  is a parameter, \<open>None\<close> where it throws.\<close>

definition getEncoder ::
  "(string \<Rightarrow> 'e option) \<Rightarrow> string \<Rightarrow> (string \<times> 'e) list \<Rightarrow> 'e option \<times> (string \<times> 'e) list" where
  "getEncoder encoding_for_model model encoderCache =
     (case lruGet model encoderCache of
        (Some encoder, cache1) \<Rightarrow> (Some encoder, cache1)
      | (None, cache1) \<Rightarrow>
          (case encoding_for_model model of
             None \<Rightarrow> (None, cache1)
           | Some encoder \<Rightarrow> (Some encoder, lruSet encoderCacheSize model encoder cache1)))"

text \<open>\<open>countTokens\<close> (and the body of \<open>countTokensAsync\<close>, which runs the same statements in
  a later turn). \<open>encode\<close> is the encoder's method, \<open>None\<close> where it throws; the text is a
  list of the string's code units. The result is the count, the encoder cache and the
  lines written by \<open>console.warn\<close>.\<close>

definition countTokens ::
  "(string \<Rightarrow> 'e option) \<Rightarrow> ('e \<Rightarrow> 'u list \<Rightarrow> 't list option) \<Rightarrow> 'u list \<Rightarrow> string
     \<Rightarrow> (string \<times> 'e) list \<Rightarrow> nat \<times> (string \<times> 'e) list \<times> string list" where
  "countTokens encoding_for_model encode text model encoderCache =
     (case getEncoder encoding_for_model model encoderCache of
        (None, cache1) \<Rightarrow>
          (length text, cache1, [''Failed to count tokens for model '' @ model @ '':''])
      | (Some encoder, cache1) \<Rightarrow>
          (case encode encoder text of
             None \<Rightarrow> (length text, cache1, [''Failed to count tokens for model '' @ model @ '':''])
           | Some tokens \<Rightarrow> (length tokens, cache1, [])))"

text \<open>\<open>extractTextFromMessages\<close>: the \<open>filter\<close> callback reads \<open>msg.role\<close> of every message
  and throws on a \<open>null\<close> message; \<open>join\<close> prints \<open>undefined\<close> and \<open>null\<close> as nothing and
  converts any other content to a string, which can throw.\<close>

fun filterRoles :: "jsval list \<Rightarrow> error + jsval list" where
  "filterRoles [] = Inr []"
| "filterRoles (msg # rest) =
     (case getProp msg ''role'' of
        Inl e \<Rightarrow> Inl e
      | Inr role \<Rightarrow>
          (case filterRoles rest of
             Inl e \<Rightarrow> Inl e
           | Inr kept \<Rightarrow>
               Inr (if role = Some (JStr ''user'') \<or> role = Some (JStr ''system'')
                       \<or> role = Some (JStr ''assistant'')
                    then msg # kept else kept)))"

definition contentText :: "(rat \<Rightarrow> string) \<Rightarrow> jsval \<Rightarrow> error + string" where
  "contentText numStr msg =
     (case getProp msg ''content'' of
        Inl e \<Rightarrow> Inl e
      | Inr None \<Rightarrow> Inr []
      | Inr (Some JNull) \<Rightarrow> Inr []
      | Inr (Some v) \<Rightarrow> jsString numStr v)"

definition extractTextFromMessages :: "(rat \<Rightarrow> string) \<Rightarrow> jsval list \<Rightarrow> error + string" where
  "extractTextFromMessages numStr messages =
     (case filterRoles messages of
        Inl e \<Rightarrow> Inl e
      | Inr kept \<Rightarrow>
          (case firstError (map (contentText numStr) kept) of
             Inl e \<Rightarrow> Inl e
           | Inr texts \<Rightarrow> Inr (joinWith [CHR 0x0A] texts)))"


section \<open>The transient data cache (\<open>requestDataProcessor.ts\<close>)\<close>

record ProcessedRequestData =
  prd_requestId :: string
  prd_promptText :: string
  prd_model :: "jsval option"
  prd_timestamp :: int

record ProcessedResponseData =
  prs_requestId :: string
  prs_responseText :: string
  prs_model :: "jsval option"
  prs_timestamp :: int

text \<open>\<open>CACHE_CONFIG\<close>.\<close>

definition maxSize :: nat where
  "maxSize = 1000"

definition ttl :: int where
  "ttl = 5 * 60 * 1000"

text \<open>The capacity check of \<open>processRequestData\<close>: at the bound, the first key of the \<open>Map\<close>
  is deleted if it is truthy.\<close>

definition evictFirst :: "(string \<times> 'a) list \<Rightarrow> (string \<times> 'a) list" where
  "evictFirst cache =
     (if length cache \<ge> maxSize
      then (case cache of
              [] \<Rightarrow> cache
            | (firstKey, v) # rest \<Rightarrow> if firstKey \<noteq> [] then AList.delete firstKey cache else cache)
      else cache)"

text \<open>\<open>parsedReqBody.messages && Array.isArray(parsedReqBody.messages)
  ? extractTextFromMessages(parsedReqBody.messages) : ''\<close>.\<close>

definition promptTextOf :: "(rat \<Rightarrow> string) \<Rightarrow> jsval \<Rightarrow> error + string" where
  "promptTextOf numStr parsedReqBody =
     (case getProp parsedReqBody ''messages'' of
        Inl e \<Rightarrow> Inl e
      | Inr (Some (JArr messages)) \<Rightarrow> extractTextFromMessages numStr messages
      | Inr other \<Rightarrow> Inr [])"

text \<open>\<open>processRequestData\<close> after its cache check: evict, extract, store. \<open>now\<close> is
  \<open>Date.now()\<close>. An exception from the extraction leaves the eviction done.\<close>

definition storeRequestData ::
  "(rat \<Rightarrow> string) \<Rightarrow> int \<Rightarrow> string \<Rightarrow> jsval \<Rightarrow> jsval option \<Rightarrow> (string \<times> ProcessedRequestData) list
     \<Rightarrow> (error + ProcessedRequestData) \<times> (string \<times> ProcessedRequestData) list" where
  "storeRequestData numStr now requestId parsedReqBody model cache =
     (let cache1 = evictFirst cache
      in case promptTextOf numStr parsedReqBody of
           Inl e \<Rightarrow> (Inl e, cache1)
         | Inr promptText \<Rightarrow>
             (let processedData = \<lparr>prd_requestId = requestId, prd_promptText = promptText,
                                    prd_model = model, prd_timestamp = now\<rparr>
              in (Inr processedData, AList.update requestId processedData cache1)))"

definition processRequestData ::
  "(rat \<Rightarrow> string) \<Rightarrow> int \<Rightarrow> string \<Rightarrow> jsval \<Rightarrow> jsval option \<Rightarrow> (string \<times> ProcessedRequestData) list
     \<Rightarrow> (error + ProcessedRequestData) \<times> (string \<times> ProcessedRequestData) list" where
  "processRequestData numStr now requestId parsedReqBody model requestDataCache =
     (case map_of requestDataCache requestId of
        Some cached \<Rightarrow>
          if now - prd_timestamp cached < ttl then (Inr cached, requestDataCache)
          else storeRequestData numStr now requestId parsedReqBody model
                 (AList.delete requestId requestDataCache)
      | None \<Rightarrow> storeRequestData numStr now requestId parsedReqBody model requestDataCache)"

text \<open>The arguments of one call of \<open>processRequestData\<close>, and the cache after a sequence
  of calls.\<close>

record processCall =
  pc_now :: int
  pc_requestId :: string
  pc_body :: jsval
  pc_model :: "jsval option"

definition processAll ::
  "(rat \<Rightarrow> string) \<Rightarrow> processCall list \<Rightarrow> (string \<times> ProcessedRequestData) list
     \<Rightarrow> (string \<times> ProcessedRequestData) list" where
  "processAll numStr calls requestDataCache =
     fold (\<lambda>call cache. snd (processRequestData numStr (pc_now call) (pc_requestId call)
                                 (pc_body call) (pc_model call) cache))
       calls requestDataCache"

text \<open>The sweep that \<open>setInterval\<close> runs every minute, on one of the two caches.\<close>

definition sweepRequests :: "int \<Rightarrow> (string \<times> ProcessedRequestData) list \<Rightarrow> (string \<times> ProcessedRequestData) list" where
  "sweepRequests now cache = filter (\<lambda>(key, v). \<not> (now - prd_timestamp v > ttl)) cache"

definition sweepResponses :: "int \<Rightarrow> (string \<times> ProcessedResponseData) list \<Rightarrow> (string \<times> ProcessedResponseData) list" where
  "sweepResponses now cache = filter (\<lambda>(key, v). \<not> (now - prs_timestamp v > ttl)) cache"

text \<open>\<open>clearCachedData\<close>.\<close>

definition clearCachedData ::
  "string \<Rightarrow> (string \<times> ProcessedRequestData) list \<times> (string \<times> ProcessedResponseData) list
     \<Rightarrow> (string \<times> ProcessedRequestData) list \<times> (string \<times> ProcessedResponseData) list" where
  "clearCachedData requestId caches =
     (AList.delete requestId (fst caches), AList.delete requestId (snd caches))"


section \<open>The request handler (\<open>requestHandler.ts\<close>)\<close>

subsection \<open>Header rules\<close>

text \<open>The callback that \<open>customHeaders\<close> passes to \<open>String.prototype.replace\<close>. It calls
  \<open>providerConfig.hasOwnProperty\<close>: the inherited method unless the provider record has
  a property of that name itself, which, coming from a JSON file, is no function. What
  the callback returns, \<open>replace\<close> converts to a string.\<close>

definition placeholderValue :: "(rat \<Rightarrow> string) \<Rightarrow> object \<Rightarrow> string \<Rightarrow> error + string" where
  "placeholderValue numStr providerConfig propertyName =
     (case jsGet providerConfig ''hasOwnProperty'' of
        Some (JNative k) \<Rightarrow>
          (case map_of providerConfig propertyName of
             Some v \<Rightarrow> jsString numStr v
           | None \<Rightarrow> Inr [])
      | other \<Rightarrow> Inl TypeError)"

text \<open>\<open>value.replace(/\{([^}]+)\}/g, replacer)\<close>, scanning from the left: a match starts at
  an opening brace followed by one or more characters other than the closing brace and
  then the closing brace; the callback gets the characters in between.\<close>

function replacePlaceholders :: "(string \<Rightarrow> error + string) \<Rightarrow> string \<Rightarrow> error + string" where
  "replacePlaceholders replacer [] = Inr []"
| "replacePlaceholders replacer (c # cs) =
     (if c = CHR ''{'' \<and> takeWhile (\<lambda>x. x \<noteq> CHR ''}'') cs \<noteq> []
         \<and> dropWhile (\<lambda>x. x \<noteq> CHR ''}'') cs \<noteq> []
      then (case replacer (takeWhile (\<lambda>x. x \<noteq> CHR ''}'') cs) of
              Inl e \<Rightarrow> Inl e
            | Inr r \<Rightarrow>
                (case replacePlaceholders replacer (tl (dropWhile (\<lambda>x. x \<noteq> CHR ''}'') cs)) of
                   Inl e \<Rightarrow> Inl e
                 | Inr rest \<Rightarrow> Inr (r @ rest)))
      else (case replacePlaceholders replacer cs of
              Inl e \<Rightarrow> Inl e
            | Inr rest \<Rightarrow> Inr (c # rest)))"
  by pat_completeness auto
termination
proof (relation "measure (\<lambda>(replacer, s). length s)")
  show "wf (measure (\<lambda>(replacer, s). length s))" by simp
next
  fix replacer :: "string \<Rightarrow> error + string" and c :: char and cs :: string
  have "length (tl (dropWhile (\<lambda>x. x \<noteq> CHR ''}'') cs)) \<le> length cs"
    using length_dropWhile_le [of "\<lambda>x. x \<noteq> CHR ''}''" cs] by simp
  then show "((replacer, tl (dropWhile (\<lambda>x. x \<noteq> CHR ''}'') cs)), (replacer, c # cs))
        \<in> measure (\<lambda>(replacer, s). length s)"
    by simp
next
  fix replacer :: "string \<Rightarrow> error + string" and c :: char and cs :: string
  show "((replacer, cs), (replacer, c # cs)) \<in> measure (\<lambda>(replacer, s). length s)"
    by simp
qed

text \<open>The three loops of \<open>customHeaders\<close> over the entries of \<open>add\<close>, of \<open>replace\<close> and over
  \<open>remove\<close>. Each loop prints what it did with a template literal, which converts the
  value set by an add rule to a string; a header name that is no string is converted
  where it is used as a property key.\<close>

fun addRules :: "(rat \<Rightarrow> string) \<Rightarrow> object \<Rightarrow> (string \<times> jsval) list \<Rightarrow> object \<Rightarrow> error + object" where
  "addRules numStr providerConfig [] headers = Inr headers"
| "addRules numStr providerConfig ((headerName, headerValue) # rest) headers =
     (case headerValue of
        JStr s \<Rightarrow>
          (case replacePlaceholders (placeholderValue numStr providerConfig) s of
             Inl e \<Rightarrow> Inl e
           | Inr finalValue \<Rightarrow>
               addRules numStr providerConfig rest (setProp headerName (JStr finalValue) headers))
      | other \<Rightarrow>
          (case jsString numStr headerValue of
             Inl e \<Rightarrow> Inl e
           | Inr shown \<Rightarrow>
               addRules numStr providerConfig rest (setProp headerName headerValue headers)))"

fun replaceRules :: "(rat \<Rightarrow> string) \<Rightarrow> (string \<times> jsval) list \<Rightarrow> object \<Rightarrow> error + object" where
  "replaceRules numStr [] headers = Inr headers"
| "replaceRules numStr ((clientSideHeaderName, upstreamHeaderName) # rest) headers =
     (case jsGet headers clientSideHeaderName of
        None \<Rightarrow> replaceRules numStr rest headers
      | Some v \<Rightarrow>
          if truthy (Some v)
          then (case jsString numStr upstreamHeaderName of
                  Inl e \<Rightarrow> Inl e
                | Inr name \<Rightarrow>
                    replaceRules numStr rest
                      (AList.delete clientSideHeaderName (setProp name v headers)))
          else replaceRules numStr rest headers)"

fun removeRules :: "(rat \<Rightarrow> string) \<Rightarrow> jsval list \<Rightarrow> object \<Rightarrow> error + object" where
  "removeRules numStr [] headers = Inr headers"
| "removeRules numStr (headerName # rest) headers =
     (case jsString numStr headerName of
        Inl e \<Rightarrow> Inl e
      | Inr name \<Rightarrow>
          removeRules numStr rest
            (if truthy (jsGet headers name) then AList.delete name headers else headers))"

definition addPhase :: "(rat \<Rightarrow> string) \<Rightarrow> object \<Rightarrow> jsval \<Rightarrow> object \<Rightarrow> error + object" where
  "addPhase numStr providerConfig customRules headers =
     (case getProp customRules ''add'' of
        Inl e \<Rightarrow> Inl e
      | Inr None \<Rightarrow> Inr headers
      | Inr (Some add) \<Rightarrow>
          if truthy (Some add)
          then (case objectEntries add of
                  Inl e \<Rightarrow> Inl e
                | Inr rules \<Rightarrow> addRules numStr providerConfig rules headers)
          else Inr headers)"

definition replacePhase :: "(rat \<Rightarrow> string) \<Rightarrow> jsval \<Rightarrow> object \<Rightarrow> error + object" where
  "replacePhase numStr customRules headers =
     (case getProp customRules ''replace'' of
        Inl e \<Rightarrow> Inl e
      | Inr None \<Rightarrow> Inr headers
      | Inr (Some replace) \<Rightarrow>
          if truthy (Some replace)
          then (case objectEntries replace of
                  Inl e \<Rightarrow> Inl e
                | Inr rules \<Rightarrow> replaceRules numStr rules headers)
          else Inr headers)"

definition removePhase :: "(rat \<Rightarrow> string) \<Rightarrow> jsval \<Rightarrow> object \<Rightarrow> error + object" where
  "removePhase numStr customRules headers =
     (case getProp customRules ''remove'' of
        Inl e \<Rightarrow> Inl e
      | Inr None \<Rightarrow> Inr headers
      | Inr (Some remove) \<Rightarrow>
          if truthy (Some remove)
          then (case iterate remove of
                  Inl e \<Rightarrow> Inl e
                | Inr names \<Rightarrow> removeRules numStr names headers)
          else Inr headers)"

text \<open>\<open>customHeaders\<close>: the header set of the options after the rules of the provider, or the
  exception that leaves the function.\<close>

definition customHeaders ::
  "(rat \<Rightarrow> string) \<Rightarrow> requestOptions \<Rightarrow> object \<Rightarrow> error + requestOptions" where
  "customHeaders numStr options providerConfig =
     (case jsGet providerConfig ''customHeader'' of
        None \<Rightarrow> Inr options
      | Some customRules \<Rightarrow>
          if \<not> truthy (Some customRules) then Inr options
          else (case addPhase numStr providerConfig customRules (ro_headers options) of
                  Inl e \<Rightarrow> Inl e
                | Inr added \<Rightarrow>
                    (case replacePhase numStr customRules added of
                       Inl e \<Rightarrow> Inl e
                     | Inr replaced \<Rightarrow>
                         (case removePhase numStr customRules replaced of
                            Inl e \<Rightarrow> Inl e
                          | Inr removed \<Rightarrow> Inr (options\<lparr>ro_headers := removed\<rparr>)))))"

subsection \<open>Error responses\<close>

text \<open>The response to the client, as far as the handler writes it.\<close>

record clientResponse =
  cr_headersSent :: bool
  cr_statusCode :: "nat option"
  cr_headers :: "(string \<times> string) list"
  cr_body :: string
  cr_destroyed :: bool

text \<open>\<open>JSON.stringify({error: errorMessage, model: model, status: statusCode})\<close>.\<close>

definition errorResponseJson :: "(rat \<Rightarrow> string) \<Rightarrow> string \<Rightarrow> jsval \<Rightarrow> nat \<Rightarrow> string" where
  "errorResponseJson numStr errorMessage model statusCode =
     ''{'' @ joinWith '',''
       ([jsonQuote ''error'' @ '':'' @ jsonQuote errorMessage]
        @ (case jsonStringify numStr model of
             None \<Rightarrow> []
           | Some t \<Rightarrow> [jsonQuote ''model'' @ '':'' @ t])
        @ [jsonQuote ''status'' @ '':'' @ showNat statusCode]) @ ''}''"

text \<open>\<open>handleErrorResponse\<close>. An argument that is \<open>undefined\<close> takes its default: the empty
  string for \<open>model\<close>, \<open>application/json\<close> for \<open>contentType\<close>.\<close>

definition handleErrorResponse ::
  "(rat \<Rightarrow> string) \<Rightarrow> clientResponse \<Rightarrow> string \<Rightarrow> jsval option \<Rightarrow> nat \<Rightarrow> string option
     \<Rightarrow> clientResponse" where
  "handleErrorResponse numStr clientResp errorMessage model statusCode contentType =
     (if \<not> cr_headersSent clientResp
      then (let body = errorResponseJson numStr errorMessage
                         (case model of None \<Rightarrow> JStr [] | Some m \<Rightarrow> m) statusCode
            in clientResp\<lparr>cr_headersSent := True, cr_statusCode := Some statusCode,
                 cr_headers :=
                   AList.update ''Content-Length'' (showNat (length body))
                     (AList.update ''Content-Type''
                        (case contentType of None \<Rightarrow> ''application/json'' | Some t \<Rightarrow> t)
                        (cr_headers clientResp)),
                 cr_body := body\<rparr>)
      else clientResp\<lparr>cr_destroyed := True\<rparr>)"

subsection \<open>\<open>handleChatCompletions\<close>\<close>

text \<open>The guard on the requested model: \<open>!inModelName || !modelConfigs[inModelName]\<close>.
  \<open>modelConfigs\<close> is a plain object, so the read of a key it does not own falls through to
  \<open>Object.prototype\<close>; what is read there is truthy and has none of the four fields. A
  model that is no string is converted to one where it is used as the key and in the
  message; when that conversion throws, its \<open>TypeError\<close> is the exception.\<close>

definition modelGuard ::
  "(rat \<Rightarrow> string) \<Rightarrow> (string \<times> ModelConfig) list \<Rightarrow> jsval option \<Rightarrow> error + ModelConfig" where
  "modelGuard numStr table inModelName =
     (case inModelName of
        None \<Rightarrow> Inl (Error (''Unsupported or Unknown Model: '' @ ''undefined''))
      | Some name \<Rightarrow>
          if \<not> truthy (Some name)
          then (case jsString numStr name of
                  Inl e \<Rightarrow> Inl e
                | Inr shown \<Rightarrow> Inl (Error (''Unsupported or Unknown Model: '' @ shown)))
          else (case jsString numStr name of
                  Inl e \<Rightarrow> Inl e
                | Inr key \<Rightarrow>
                    (case map_of table key of
                       Some config \<Rightarrow> Inr config
                     | None \<Rightarrow>
                         if key \<in> set objectPrototypeKeys
                         then Inr \<lparr>mc_baseUrl = None, mc_completionsPath = None,
                                   mc_modelName = None, mc_temperature = None\<rparr>
                         else Inl (Error (''Unsupported or Unknown Model: '' @ key)))))"

text \<open>The \<open>catch\<close> block of \<open>handleChatCompletions\<close>; \<open>message\<close> is \<open>error.message\<close>.\<close>

definition handleChatCompletionsCatch ::
  "(rat \<Rightarrow> string) \<Rightarrow> clientResponse \<Rightarrow> string \<Rightarrow> jsval option \<Rightarrow> clientResponse" where
  "handleChatCompletionsCatch numStr clientResp message actualModelName =
     handleErrorResponse numStr clientResp message actualModelName 500 (Some ''application/json'')"

text \<open>
  The module-level state that the handler's callbacks share, and the variables of one
  call of \<open>handleChatCompletions\<close> that its callbacks close over.
\<close>

record proxyState =
  ps_logger :: loggerState
  ps_requestDataCache :: "(string \<times> ProcessedRequestData) list"
  ps_responseDataCache :: "(string \<times> ProcessedResponseData) list"

record requestContext =
  rc_requestId :: string
  rc_actualModelName :: "jsval option"
  rc_promptTokens :: nat
  rc_completionTokens :: nat

record inboundRequest =
  ir_userAgent :: "string option"
  ir_url :: string
  ir_method :: string

text \<open>The handler from the parsed body to the cached request data: the guard, the request
  log line, the cache entry. \<open>uuid\<close>, \<open>isoNow\<close> and \<open>now\<close> are \<open>randomUUID()\<close>, the ISO time
  and \<open>Date.now()\<close>. The context starts with both token counts at 0.\<close>

definition beginRequest ::
  "(rat \<Rightarrow> string) \<Rightarrow> string \<Rightarrow> string \<Rightarrow> int \<Rightarrow> (string \<times> ModelConfig) list \<Rightarrow> inboundRequest
     \<Rightarrow> jsval \<Rightarrow> proxyState \<Rightarrow> (error + requestContext \<times> ProcessedRequestData) \<times> proxyState" where
  "beginRequest numStr uuid isoNow now table clientReq parsedReqBody st =
     (case getProp parsedReqBody ''model'' of
        Inl e \<Rightarrow> (Inl e, st)
      | Inr inModelName \<Rightarrow>
          (case modelGuard numStr table inModelName of
             Inl e \<Rightarrow> (Inl e, st)
           | Inr config \<Rightarrow>
               (let logged =
                      logRequestBody uuid isoNow parsedReqBody
                        (emptyEntry\<lparr>le_model := inModelName,
                           le_client := (case ir_userAgent clientReq of
                                           None \<Rightarrow> None
                                         | Some clientInfo \<Rightarrow>
                                             if take 5 clientInfo = ''Zs/JS'' then Some ''CLine''
                                             else Some clientInfo),
                           le_path := Some (ir_url clientReq),
                           le_method := Some (ir_method clientReq)\<rparr>)
                        (ps_logger st);
                    requestId = fst logged;
                    processed =
                      processRequestData numStr now requestId parsedReqBody (mc_modelName config)
                        (ps_requestDataCache st);
                    st1 = st\<lparr>ps_logger := snd logged, ps_requestDataCache := snd processed\<rparr>
                in case fst processed of
                     Inl e \<Rightarrow> (Inl e, st1)
                   | Inr processedRequestData \<Rightarrow>
                       (Inr (\<lparr>rc_requestId = requestId, rc_actualModelName = mc_modelName config,
                              rc_promptTokens = 0, rc_completionTokens = 0\<rparr>,
                             processedRequestData), st1))))"

text \<open>The callback of the prompt-token promise.\<close>

definition promptTokensResolved ::
  "nat \<Rightarrow> requestContext \<Rightarrow> proxyState \<Rightarrow> requestContext \<times> proxyState" where
  "promptTokensResolved promptTokensResult ctx st =
     (ctx\<lparr>rc_promptTokens := promptTokensResult\<rparr>,
      st\<lparr>ps_logger :=
           updateLogEntry (rc_requestId ctx)
             (emptyEntry\<lparr>le_promptTokens := Some promptTokensResult\<rparr>) (ps_logger st)\<rparr>)"

text \<open>The callback \<open>onCompletionTokens\<close> handed to \<open>createMergedResponseStream\<close>.\<close>

definition completionTokensResolved ::
  "nat \<Rightarrow> requestContext \<Rightarrow> proxyState \<Rightarrow> requestContext \<times> proxyState" where
  "completionTokensResolved tokens ctx st =
     (ctx\<lparr>rc_completionTokens := tokens\<rparr>,
      st\<lparr>ps_logger :=
           updateLogEntry (rc_requestId ctx)
             (emptyEntry\<lparr>le_completionTokens := Some tokens,
                le_totalTokens := Some (rc_promptTokens ctx + tokens)\<rparr>) (ps_logger st)\<rparr>)"

text \<open>
  A chunk of a body is a \<open>Buffer\<close>, a list of bytes. \<open>Buffer.prototype.toString\<close> decodes
  the bytes as UTF-8 and puts U+FFFD for every part that is no UTF-8, so it leaves the
  bytes of a well-formed text as they are and changes any others. The decoder is Node's
  and is taken as the parameter \<open>bufferToString\<close>.

  \<open>createMergedResponseStream\<close>: \<open>transform\<close> keeps at most 1 MiB of the body for the log
  and the text of every chunk for the token count.
\<close>

record streamState =
  ss_responseData :: string
  ss_dataSize :: nat
  ss_accumulatedResponse :: string

definition maxLogSize :: nat where
  "maxLogSize = 1024 * 1024"

definition transform :: "(string \<Rightarrow> string) \<Rightarrow> string \<Rightarrow> streamState \<Rightarrow> streamState" where
  "transform bufferToString chunk s =
     (if ss_dataSize s < maxLogSize
      then (let remainingSpace = maxLogSize - ss_dataSize s;
                chunkToStore = (if length chunk \<le> remainingSpace then chunk
                                else take remainingSpace chunk)
            in s\<lparr>ss_responseData := ss_responseData s @ chunkToStore,
                 ss_dataSize := ss_dataSize s + length chunkToStore\<rparr>)
      else s)\<lparr>ss_accumulatedResponse := ss_accumulatedResponse s @ bufferToString chunk\<rparr>"

text \<open>What \<open>flush\<close> hands to \<open>logResponse\<close>; \<open>jsonParse\<close> is \<open>JSON.parse\<close>, \<open>None\<close> where it
  throws.\<close>

definition responseToLog ::
  "(string \<Rightarrow> jsval option) \<Rightarrow> (string \<Rightarrow> string) \<Rightarrow> (string \<times> string) list option \<Rightarrow> string
     \<Rightarrow> string" where
  "responseToLog jsonParse bufferToString headers responseData =
     (let contentType = (case headers of
                           None \<Rightarrow> []
                         | Some h \<Rightarrow> (case map_of h ''content-type'' of
                                       None \<Rightarrow> [] | Some c \<Rightarrow> c))
      in if \<not> jsIncludes contentType ''application/json'' \<and> \<not> jsIncludes contentType ''text/''
         then ''<binary-data>''
         else if jsIncludes contentType ''application/json''
                 \<and> jsonParse (bufferToString responseData) = None
         then ''<malformed-json-data>''
         else bufferToString responseData)"

text \<open>
  The callback of the upstream request, run to the end of the upstream body. \<open>chunks\<close> are
  the chunks of the body after decompression. Outside 200..299 the body is collected and
  decoded, logged with the prompt tokens known so far and 0 completion tokens, and handed
  to \<open>handleErrorResponse\<close>. Otherwise status and headers go to the client, the chunks pass
  through the merged stream, and its \<open>flush\<close> logs the response, with no token counts.
\<close>

definition upstreamResponded ::
  "(rat \<Rightarrow> string) \<Rightarrow> (string \<Rightarrow> jsval option) \<Rightarrow> (string \<Rightarrow> string) \<Rightarrow> string
     \<Rightarrow> requestContext \<Rightarrow> nat \<Rightarrow> (string \<times> string) list \<Rightarrow> string list
     \<Rightarrow> proxyState \<times> clientResponse \<Rightarrow> proxyState \<times> clientResponse" where
  "upstreamResponded numStr jsonParse bufferToString isoNow ctx upstreamRespStatusCode
       upstreamHeaders chunks sc =
     (let st = fst sc;
          clientResp = snd sc;
          headers = AList.update ''x-request-id'' (rc_requestId ctx) upstreamHeaders;
          upstreamRespContentType = map_of headers ''content-type''
      in if upstreamRespStatusCode < 200 \<or> upstreamRespStatusCode \<ge> 300
         then (let respondData = bufferToString (concat chunks);
                   logged =
                     (case jsonParse respondData of
                        Some responseData \<Rightarrow>
                          logResponse isoNow responseData (Some headers) (rc_requestId ctx)
                            upstreamRespStatusCode (Some (rc_promptTokens ctx)) (Some 0)
                            (ps_logger st)
                      | None \<Rightarrow>
                          logResponse isoNow (JStr ''<binary-data>'') (Some headers)
                            (rc_requestId ctx) upstreamRespStatusCode
                            (Some (rc_promptTokens ctx)) (Some 0) (ps_logger st))
               in (st\<lparr>ps_logger := logged\<rparr>,
                   handleErrorResponse numStr clientResp respondData (rc_actualModelName ctx)
                     upstreamRespStatusCode upstreamRespContentType))
         else (let stream = fold (transform bufferToString) chunks
                              \<lparr>ss_responseData = [], ss_dataSize = 0,
                               ss_accumulatedResponse = []\<rparr>
               in (st\<lparr>ps_logger :=
                        logResponse isoNow
                          (JStr (responseToLog jsonParse bufferToString (Some headers)
                                   (ss_responseData stream)))
                          (Some headers) (rc_requestId ctx) upstreamRespStatusCode None None
                          (ps_logger st)\<rparr>,
                   clientResp\<lparr>cr_headersSent := True,
                     cr_statusCode := Some upstreamRespStatusCode,
                     cr_headers := headers, cr_body := concat chunks\<rparr>)))"

text \<open>
  The callbacks of the handler run one at a time, each to its end, in the order in which
  the event loop takes them up, and between them the sweep that \<open>setInterval\<close> starts every
  minute. An event is one such callback with what it is called with: a request is taken
  up to the point where its data is cached, the prompt tokens of a request are counted, an
  upstream response has been relayed to its end, its completion tokens are counted, or
  the sweep runs at some time. The handler calls neither \<open>processResponseData\<close> nor
  \<open>clearCachedData\<close>.
\<close>

datatype handlerEvent =
    Accepted string string int inboundRequest jsval
  | PromptTokens nat requestContext
  | Relayed string requestContext nat "(string \<times> string) list" "string list" clientResponse
  | CompletionTokens nat requestContext
  | Sweep int

fun handlerStep ::
  "(rat \<Rightarrow> string) \<Rightarrow> (string \<Rightarrow> jsval option) \<Rightarrow> (string \<Rightarrow> string)
     \<Rightarrow> (string \<times> ModelConfig) list \<Rightarrow> handlerEvent \<Rightarrow> proxyState \<Rightarrow> proxyState" where
  "handlerStep numStr jsonParse bufferToString table (Accepted uuid isoNow now clientReq body) st =
     snd (beginRequest numStr uuid isoNow now table clientReq body st)"
| "handlerStep numStr jsonParse bufferToString table (PromptTokens promptTokensResult ctx) st =
     snd (promptTokensResolved promptTokensResult ctx st)"
| "handlerStep numStr jsonParse bufferToString table
       (Relayed isoNow ctx statusCode upstreamHeaders chunks clientResp) st =
     fst (upstreamResponded numStr jsonParse bufferToString isoNow ctx statusCode upstreamHeaders
            chunks (st, clientResp))"
| "handlerStep numStr jsonParse bufferToString table (CompletionTokens tokens ctx) st =
     snd (completionTokensResolved tokens ctx st)"
| "handlerStep numStr jsonParse bufferToString table (Sweep now) st =
     st\<lparr>ps_requestDataCache := sweepRequests now (ps_requestDataCache st),
        ps_responseDataCache := sweepResponses now (ps_responseDataCache st)\<rparr>"

definition handlerRun ::
  "(rat \<Rightarrow> string) \<Rightarrow> (string \<Rightarrow> jsval option) \<Rightarrow> (string \<Rightarrow> string)
     \<Rightarrow> (string \<times> ModelConfig) list \<Rightarrow> handlerEvent list \<Rightarrow> proxyState \<Rightarrow> proxyState" where
  "handlerRun numStr jsonParse bufferToString table events st =
     fold (handlerStep numStr jsonParse bufferToString table) events st"

text \<open>The events of a run that take up a request, and what a run must not contain for the
  cache entry \<open>cached\<close> of the request \<open>requestId\<close> to outlive it: a second request under
  the same id, or a sweep later than \<open>ttl\<close> after the entry was stored.\<close>

fun isAccepted :: "handlerEvent \<Rightarrow> bool" where
  "isAccepted (Accepted uuid isoNow now clientReq body) = True"
| "isAccepted event = False"

fun spares :: "string \<Rightarrow> ProcessedRequestData \<Rightarrow> handlerEvent \<Rightarrow> bool" where
  "spares requestId cached (Accepted uuid isoNow now clientReq body) = (uuid \<noteq> requestId)"
| "spares requestId cached (Sweep now) = (\<not> (now - prd_timestamp cached > ttl))"
| "spares requestId cached event = True"

text \<open>A pending update that holds token counts only, as every update that the handler
  stages with \<open>updateLogEntry\<close> does.\<close>

definition tokensOnly :: "LogEntry \<Rightarrow> bool" where
  "tokensOnly u =
     (le_requestId u = None \<and> le_timestamp u = None \<and> le_model u = None \<and> le_client u = None
      \<and> le_path u = None \<and> le_method u = None \<and> le_body u = None \<and> le_status u = None
      \<and> le_headers u = None \<and> le_response u = None \<and> le_isBinary u = None)"

definition pendingTokensOnly :: "loggerState \<Rightarrow> bool" where
  "pendingTokensOnly lg = list_all (\<lambda>p. tokensOnly (snd p)) (pendingLogs lg)"


section \<open>Properties of the logger\<close>

lemma logResponse_lines:
  "logLines (logResponse now d h r s p c st) =
     logLines st @ [last (logLines (logResponse now d h r s p c st))]"
  by (simp add: logResponse_def writeLog_def Let_def)

lemma logResponse_last_tokens:
  "le_promptTokens (last (logLines (logResponse now d h r s p c st))) = p"
  "le_completionTokens (last (logLines (logResponse now d h r s p c st))) = c"
  "le_totalTokens (last (logLines (logResponse now d h r s p c st))) = totalOf p c"
  by (simp_all add: logResponse_def writeLog_def Let_def)

lemma totalOf_Some:
  "(totalOf p c = Some t) = (\<exists>x y. p = Some x \<and> c = Some y \<and> x \<noteq> 0 \<and> y \<noteq> 0 \<and> t = x + y)"
  by (cases p; cases c) (auto simp: totalOf_def)

text \<open>
  C10. The record that \<open>logResponse\<close> appends to the log carries \<open>totalTokens\<close> exactly when
  both \<open>promptTokens\<close> and \<open>completionTokens\<close> are given and non-zero, and then it is their sum;
  in every other case (a count absent or zero) the field is left out of the line.
\<close>

theorem logResponse_totalTokens:
  "logLines (logResponse now responseData headers requestId statusCode promptTokens
       completionTokens st) = logLines st @ [entry]
   \<Longrightarrow> (le_totalTokens entry = Some t) =
         (\<exists>p c. promptTokens = Some p \<and> completionTokens = Some c \<and> p \<noteq> 0 \<and> c \<noteq> 0
                \<and> t = p + c)"
proof -
  assume a: "logLines (logResponse now responseData headers requestId statusCode promptTokens
       completionTokens st) = logLines st @ [entry]"
  have "entry = last (logLines (logResponse now responseData headers requestId statusCode
       promptTokens completionTokens st))"
    by (simp add: a)
  then have "le_totalTokens entry = totalOf promptTokens completionTokens"
    by (simp only: logResponse_last_tokens)
  then show ?thesis
    by (simp only: totalOf_Some)
qed

theorem logResponse_totalTokens_witness:
  "le_totalTokens (last (logLines (logResponse ''t'' (JStr ''ok'') None ''r'' 200 (Some 3) (Some 4)
       \<lparr>pendingLogs = [], logLines = []\<rparr>))) = Some 7
   \<and> le_totalTokens (last (logLines (logResponse ''t'' (JStr ''ok'') None ''r'' 200 (Some 0) (Some 4)
       \<lparr>pendingLogs = [], logLines = []\<rparr>))) = None"
proof -
  have a: "le_totalTokens (last (logLines (logResponse ''t'' (JStr ''ok'') None ''r'' 200 (Some 3)
       (Some 4) \<lparr>pendingLogs = [], logLines = []\<rparr>))) = Some 7"
    using logResponse_totalTokens [OF logResponse_lines, of "''t''" "JStr ''ok''" None "''r''" 200
        "Some 3" "Some 4" "\<lparr>pendingLogs = [], logLines = []\<rparr>" 7]
    by simp
  have "le_totalTokens (last (logLines (logResponse ''t'' (JStr ''ok'') None ''r'' 200 (Some 0)
       (Some 4) \<lparr>pendingLogs = [], logLines = []\<rparr>))) \<noteq> Some t" for t
    using logResponse_totalTokens [OF logResponse_lines, of "''t''" "JStr ''ok''" None "''r''" 200
        "Some 0" "Some 4" "\<lparr>pendingLogs = [], logLines = []\<rparr>" t]
    by simp
  then have b: "le_totalTokens (last (logLines (logResponse ''t'' (JStr ''ok'') None ''r'' 200
       (Some 0) (Some 4) \<lparr>pendingLogs = [], logLines = []\<rparr>))) = None"
    by (cases "le_totalTokens (last (logLines (logResponse ''t'' (JStr ''ok'') None ''r'' 200
       (Some 0) (Some 4) \<lparr>pendingLogs = [], logLines = []\<rparr>)))") blast+
  from a b show ?thesis by (rule conjI)
qed

lemma logResponse_last_fields:
  assumes "\<forall>u. map_of (pendingLogs st) r = Some u \<longrightarrow> le_requestId u = None \<and> le_status u = None"
  shows "le_requestId (last (logLines (logResponse now d h r s p c st))) = Some r"
    and "le_status (last (logLines (logResponse now d h r s p c st))) = Some s"
proof -
  show "le_requestId (last (logLines (logResponse now d h r s p c st))) = Some r"
    using assms
    by (cases "map_of (pendingLogs st) r")
       (simp_all add: logResponse_def writeLog_def Let_def spread_def orElse_def emptyEntry_def)
  show "le_status (last (logLines (logResponse now d h r s p c st))) = Some s"
    using assms
    by (cases "map_of (pendingLogs st) r")
       (simp_all add: logResponse_def writeLog_def Let_def spread_def orElse_def emptyEntry_def)
qed

text \<open>
  C2 (the code departs from the claim). Prompt tokens are staged with \<open>updateLogEntry\<close>
  before the response is logged, the response is logged the way the stream's \<open>flush\<close> calls
  \<open>logResponse\<close> (no token arguments), and the completion tokens arrive afterwards. Neither
  written line carries the staged prompt tokens, the late update changes no line, and it
  stays in the pending table.
\<close>

theorem logResponse_drops_staged_tokens:
  "map le_promptTokens
     (logLines
        (logResponse ''2025-01-01T00:00:02.000Z'' (JStr ''ok'')
           (Some [(''content-type'', ''text/plain'')]) ''id-1'' 200 None None
           (updateLogEntry ''id-1'' (emptyEntry\<lparr>le_promptTokens := Some 7\<rparr>)
              (snd (logRequestBody ''id-1'' ''2025-01-01T00:00:00.000Z'' (JObj []) emptyEntry
                      \<lparr>pendingLogs = [], logLines = []\<rparr>)))))
     = [None, None]
   \<and> logLines
       (updateLogEntry ''id-1''
          (emptyEntry\<lparr>le_completionTokens := Some 3, le_totalTokens := Some 10\<rparr>)
          (logResponse ''2025-01-01T00:00:02.000Z'' (JStr ''ok'')
             (Some [(''content-type'', ''text/plain'')]) ''id-1'' 200 None None
             (updateLogEntry ''id-1'' (emptyEntry\<lparr>le_promptTokens := Some 7\<rparr>)
                (snd (logRequestBody ''id-1'' ''2025-01-01T00:00:00.000Z'' (JObj []) emptyEntry
                        \<lparr>pendingLogs = [], logLines = []\<rparr>)))))
     = logLines
         (logResponse ''2025-01-01T00:00:02.000Z'' (JStr ''ok'')
            (Some [(''content-type'', ''text/plain'')]) ''id-1'' 200 None None
            (updateLogEntry ''id-1'' (emptyEntry\<lparr>le_promptTokens := Some 7\<rparr>)
               (snd (logRequestBody ''id-1'' ''2025-01-01T00:00:00.000Z'' (JObj []) emptyEntry
                       \<lparr>pendingLogs = [], logLines = []\<rparr>))))
   \<and> pendingLogs
       (updateLogEntry ''id-1''
          (emptyEntry\<lparr>le_completionTokens := Some 3, le_totalTokens := Some 10\<rparr>)
          (logResponse ''2025-01-01T00:00:02.000Z'' (JStr ''ok'')
             (Some [(''content-type'', ''text/plain'')]) ''id-1'' 200 None None
             (updateLogEntry ''id-1'' (emptyEntry\<lparr>le_promptTokens := Some 7\<rparr>)
                (snd (logRequestBody ''id-1'' ''2025-01-01T00:00:00.000Z'' (JObj []) emptyEntry
                        \<lparr>pendingLogs = [], logLines = []\<rparr>)))))
     = [(''id-1'', emptyEntry\<lparr>le_completionTokens := Some 3, le_totalTokens := Some 10\<rparr>)]"
  by (simp add: logResponse_def updateLogEntry_def logRequestBody_def writeLog_def Let_def
      spread_def orElse_def emptyEntry_def totalOf_def)


section \<open>Properties of the configuration loader\<close>

lemma fold_delete_filter:
  "fold AList.delete ks xs = filter (\<lambda>p. fst p \<notin> set ks) xs"
proof (induction ks arbitrary: xs)
  case Nil
  show ?case by simp
next
  case (Cons k ks)
  have "AList.delete k xs = filter (\<lambda>p. fst p \<noteq> k) xs"
    by (induction xs) (auto simp: AList.delete_eq)
  then show ?case
    by (simp add: Cons.IH conj_commute)
qed

lemma clearKeys_empty: "clearKeys table = []"
  by (simp add: clearKeys_def fold_delete_filter)

lemma getProp_throws: "(getProp v name = Inl e) = (v = JNull \<and> e = TypeError)"
  by (cases v) auto

lemma getProp_returns: "v \<noteq> JNull \<Longrightarrow> \<exists>r. getProp v name = Inr r"
  by (cases v) auto

lemma objectEntries_returns: "v \<noteq> JNull \<Longrightarrow> \<exists>entries. objectEntries v = Inr entries"
  by (cases v) auto

lemma truthy_not_null: "truthy (Some v) \<Longrightarrow> v \<noteq> JNull"
  by (cases v) auto

lemma storeModels_throws:
  "(fst (storeModels provider baseUrl completionsPath models table) = None)
     = (JNull \<notin> snd ` set models)"
proof (induction models arbitrary: table)
  case Nil
  show ?case by simp
next
  case (Cons entry models)
  obtain modelKey modelConfig where entry: "entry = (modelKey, modelConfig)" by (cases entry)
  show ?case
  proof (cases "modelConfig = JNull")
    case True
    then show ?thesis by (simp add: entry)
  next
    case False
    obtain modelName where n: "getProp modelConfig ''modelName'' = Inr modelName"
      using getProp_returns [OF False] by blast
    obtain temperature where t: "getProp modelConfig ''temperature'' = Inr temperature"
      using getProp_returns [OF False] by blast
    have "JNull \<noteq> modelConfig" using False by simp
    then show ?thesis
      by (simp add: entry n t Cons.IH)
  qed
qed

lemma providerModels_returns:
  assumes "providerConfig \<noteq> JNull"
  shows "\<exists>models. providerModels providerConfig = Inr models"
proof -
  obtain models where m: "getProp providerConfig ''models'' = Inr models"
    using getProp_returns [OF assms] by blast
  obtain entries where e: "objectEntries providerConfig = Inr entries"
    using objectEntries_returns [OF assms] by blast
  show ?thesis
  proof (cases models)
    case None
    then show ?thesis by (simp add: providerModels_def m e)
  next
    case (Some v)
    show ?thesis
    proof (cases "truthy (Some v)")
      case True
      then obtain ventries where "objectEntries v = Inr ventries"
        using objectEntries_returns [OF truthy_not_null] by blast
      with True Some show ?thesis by (simp add: providerModels_def m)
    next
      case False
      with Some show ?thesis by (simp add: providerModels_def m e)
    qed
  qed
qed

lemma storeProviders_throws:
  "(fst (storeProviders providers tables) = None)
     = (\<not> (\<exists>provider providerConfig.
          (provider, providerConfig) \<in> set providers
          \<and> (providerConfig = JNull
             \<or> (\<exists>models. providerModels providerConfig = Inr models \<and> JNull \<in> snd ` set models))))"
proof (induction providers arbitrary: tables)
  case Nil
  show ?case by simp
next
  case (Cons entry providers)
  obtain provider providerConfig where entry: "entry = (provider, providerConfig)"
    by (cases entry)
  let ?tables1 = "tables\<lparr>providerConfigs :=
                       setProp provider providerConfig (providerConfigs tables)\<rparr>"
  have here: "(provider, providerConfig) \<in> set (entry # providers)"
    by (simp add: entry)
  show ?case
  proof (cases "providerConfig = JNull")
    case True
    have "fst (storeProviders (entry # providers) tables) \<noteq> None"
      by (simp add: entry True Let_def)
    then show ?thesis using True here by blast
  next
    case False
    obtain baseUrl where b: "getProp providerConfig ''baseUrl'' = Inr baseUrl"
      using getProp_returns [OF False] by blast
    obtain completionsPath where c: "getProp providerConfig ''completionsPath'' = Inr completionsPath"
      using getProp_returns [OF False] by blast
    obtain models where m: "providerModels providerConfig = Inr models"
      using providerModels_returns [OF False] by blast
    let ?stored = "storeModels provider baseUrl completionsPath models (modelConfigs ?tables1)"
    show ?thesis
    proof (cases "JNull \<in> snd ` set models")
      case True
      then have "fst ?stored \<noteq> None" by (simp only: storeModels_throws simp_thms)
      then obtain e table where st: "?stored = (Some e, table)"
        by (cases ?stored) auto
      have "fst (storeProviders (entry # providers) tables) \<noteq> None"
        using st by (simp add: entry b c m Let_def)
      then show ?thesis using m True here by blast
    next
      case noNull: False
      then have "fst ?stored = None" by (simp only: storeModels_throws simp_thms)
      then obtain table where st: "?stored = (None, table)"
        by (cases ?stored) auto
      have step: "storeProviders (entry # providers) tables
          = storeProviders providers (?tables1\<lparr>modelConfigs := table\<rparr>)"
        using st by (simp add: entry b c m Let_def)
      have "(\<exists>p pc. (p, pc) \<in> set (entry # providers)
                \<and> (pc = JNull \<or> (\<exists>ms. providerModels pc = Inr ms \<and> JNull \<in> snd ` set ms)))
          = (\<exists>p pc. (p, pc) \<in> set providers
                \<and> (pc = JNull \<or> (\<exists>ms. providerModels pc = Inr ms \<and> JNull \<in> snd ` set ms)))"
        using False m noNull by (auto simp: entry)
      then show ?thesis
        unfolding step by (simp only: Cons.IH)
    qed
  qed
qed

text \<open>
  C3, as the code has it. A load reads and parses the file before it touches the tables:
  when the file is missing, unreadable or not JSON the tables are as they were, but the
  process ends with exit code 1, on a first load and on a later one alike. When the file
  parses, both tables are emptied and refilled in place, so the outcome is that of a load
  into empty tables and no old entry survives. The process goes on running exactly when
  the file parses and the refill runs to its end, and then with the refilled tables; it
  ends, and always with code 1, in every other case: with the tables untouched when the
  file did not parse, with both tables empty when the parsed value has no entries to go
  through, and with the tables as far as the refill got when the refill throws. The
  refill throws exactly when a provider of the file is \<open>null\<close> or one of the models of a
  provider is \<open>null\<close>.
\<close>

theorem loadModelConfigs_in_place:
  "loadModelConfigs FileNotFound tables = Exited 1 tables
   \<and> loadModelConfigs ReadFailure tables = Exited 1 tables
   \<and> loadModelConfigs InvalidJson tables = Exited 1 tables
   \<and> loadModelConfigs (Parsed config) tables =
       loadModelConfigs (Parsed config) \<lparr>modelConfigs = [], providerConfigs = []\<rparr>
   \<and> ((loadModelConfigs input tables = Running t) =
       (\<exists>parsed providers.
          input = Parsed parsed \<and> objectEntries parsed = Inr providers
          \<and> storeProviders providers \<lparr>modelConfigs = [], providerConfigs = []\<rparr> = (None, t)))
   \<and> ((loadModelConfigs input tables = Exited code t) =
       (code = 1
        \<and> ((input = FileNotFound \<or> input = ReadFailure \<or> input = InvalidJson) \<and> t = tables
           \<or> (\<exists>parsed e.
                 input = Parsed parsed \<and> objectEntries parsed = Inl e
                 \<and> t = \<lparr>modelConfigs = [], providerConfigs = []\<rparr>)
           \<or> (\<exists>parsed providers e.
                 input = Parsed parsed \<and> objectEntries parsed = Inr providers
                 \<and> storeProviders providers \<lparr>modelConfigs = [], providerConfigs = []\<rparr>
                     = (Some e, t)))))
   \<and> ((\<exists>e. fst (storeProviders providers tables) = Some e) =
       (\<exists>provider providerConfig.
          (provider, providerConfig) \<in> set providers
          \<and> (providerConfig = JNull
             \<or> (\<exists>models. providerModels providerConfig = Inr models
                          \<and> JNull \<in> snd ` set models))))"
proof -
  let ?empty = "\<lparr>modelConfigs = [], providerConfigs = []\<rparr>"
  have y: "(\<exists>e. fst (storeProviders providers tables) = Some e) =
       (\<exists>provider providerConfig.
          (provider, providerConfig) \<in> set providers
          \<and> (providerConfig = JNull
             \<or> (\<exists>models. providerModels providerConfig = Inr models
                          \<and> JNull \<in> snd ` set models)))"
    using storeProviders_throws [of providers tables]
    by (cases "fst (storeProviders providers tables)") simp_all
  have p: "loadModelConfigs (Parsed parsed) tables =
      (case objectEntries parsed of
         Inl e \<Rightarrow> Exited 1 ?empty
       | Inr providers \<Rightarrow>
           (case storeProviders providers ?empty of
              (Some e, tables') \<Rightarrow> Exited 1 tables'
            | (None, tables') \<Rightarrow> Running tables'))" for parsed
    by (simp add: loadModelConfigs_def clearKeys_empty Let_def)
  have a: "loadModelConfigs (Parsed config) tables = loadModelConfigs (Parsed config) ?empty"
    by (simp add: loadModelConfigs_def clearKeys_empty)
  have r: "(loadModelConfigs input tables = Running t) =
       (\<exists>parsed providers.
          input = Parsed parsed \<and> objectEntries parsed = Inr providers
          \<and> storeProviders providers ?empty = (None, t))"
  proof (cases input)
    case (Parsed parsed)
    show ?thesis
      unfolding Parsed p
      by (cases "objectEntries parsed"; cases "storeProviders (projr (objectEntries parsed)) ?empty";
          cases "fst (storeProviders (projr (objectEntries parsed)) ?empty)") auto
  qed (simp_all add: loadModelConfigs_def)
  have x: "(loadModelConfigs input tables = Exited code t) =
       (code = 1
        \<and> ((input = FileNotFound \<or> input = ReadFailure \<or> input = InvalidJson) \<and> t = tables
           \<or> (\<exists>parsed e.
                 input = Parsed parsed \<and> objectEntries parsed = Inl e \<and> t = ?empty)
           \<or> (\<exists>parsed providers e.
                 input = Parsed parsed \<and> objectEntries parsed = Inr providers
                 \<and> storeProviders providers ?empty = (Some e, t))))"
  proof (cases input)
    case (Parsed parsed)
    show ?thesis
      unfolding Parsed p
      by (cases "objectEntries parsed"; cases "storeProviders (projr (objectEntries parsed)) ?empty";
          cases "fst (storeProviders (projr (objectEntries parsed)) ?empty)") auto
  qed (auto simp: loadModelConfigs_def)
  have f: "loadModelConfigs FileNotFound tables = Exited 1 tables"
    "loadModelConfigs ReadFailure tables = Exited 1 tables"
    "loadModelConfigs InvalidJson tables = Exited 1 tables"
    by (simp_all add: loadModelConfigs_def)
  show ?thesis
    by (intro conjI) (rule f(1), rule f(2), rule f(3), rule a, rule r, rule x, rule y)
qed

text \<open>
  C3 as stated fails: a reload of a file that is not JSON does not keep the process
  serving, it exits with code 1; and a reload whose second provider is \<open>null\<close> exits
  with the old entry gone and the table half filled.
\<close>

theorem loadModelConfigs_reload_exits:
  "loadModelConfigs InvalidJson
     \<lparr>modelConfigs = [(''ollama/gpt-oss'',
          \<lparr>mc_baseUrl = Some (JStr ''http://localhost:11434''),
           mc_completionsPath = Some (JStr ''/v1/chat/completions''),
           mc_modelName = Some (JStr ''gpt-oss:20b''), mc_temperature = Some (JNum (1 / 10))\<rparr>)],
      providerConfigs = [(''ollama'', JObj [])]\<rparr>
   = Exited 1
       \<lparr>modelConfigs = [(''ollama/gpt-oss'',
          \<lparr>mc_baseUrl = Some (JStr ''http://localhost:11434''),
           mc_completionsPath = Some (JStr ''/v1/chat/completions''),
           mc_modelName = Some (JStr ''gpt-oss:20b''), mc_temperature = Some (JNum (1 / 10))\<rparr>)],
        providerConfigs = [(''ollama'', JObj [])]\<rparr>
   \<and> loadModelConfigs
       (Parsed (JObj [(''a'', JObj [(''baseUrl'', JStr ''http://a''),
                                    (''completionsPath'', JStr ''/c''),
                                    (''models'', JObj [(''m'', JObj [(''modelName'', JStr ''am'')])])]),
                      (''b'', JNull)]))
       \<lparr>modelConfigs = [(''ollama/gpt-oss'',
          \<lparr>mc_baseUrl = Some (JStr ''http://localhost:11434''),
           mc_completionsPath = Some (JStr ''/v1/chat/completions''),
           mc_modelName = Some (JStr ''gpt-oss:20b''), mc_temperature = Some (JNum (1 / 10))\<rparr>)],
        providerConfigs = [(''ollama'', JObj [])]\<rparr>
   = Exited 1
       \<lparr>modelConfigs = [(''a/m'',
          \<lparr>mc_baseUrl = Some (JStr ''http://a''), mc_completionsPath = Some (JStr ''/c''),
           mc_modelName = Some (JStr ''am''), mc_temperature = None\<rparr>)],
        providerConfigs =
          [(''a'', JObj [(''baseUrl'', JStr ''http://a''), (''completionsPath'', JStr ''/c''),
                         (''models'', JObj [(''m'', JObj [(''modelName'', JStr ''am'')])])]),
           (''b'', JNull)]\<rparr>"
  by (simp add: loadModelConfigs_def clearKeys_empty providerModels_def jsGet_def
      objectPrototypeKeys_def setProp_def ownEntries_def isArrayIndex_def)

theorem loadModelConfigs_in_place_witness:
  "loadModelConfigs
     (Parsed (JObj [(''ollama'', JObj [(''baseUrl'', JStr ''http://localhost:11434''),
                      (''completionsPath'', JStr ''/v1/chat/completions''),
                      (''models'', JObj [(''gpt-oss'', JObj [(''modelName'', JStr ''gpt-oss:20b''),
                                                          (''temperature'', JNum (1 / 10))])])])]))
     \<lparr>modelConfigs = [(''old/model'',
          \<lparr>mc_baseUrl = None, mc_completionsPath = None, mc_modelName = None,
           mc_temperature = None\<rparr>)],
      providerConfigs = [(''old'', JObj [])]\<rparr>
   = Running
       \<lparr>modelConfigs = [(''ollama/gpt-oss'',
          \<lparr>mc_baseUrl = Some (JStr ''http://localhost:11434''),
           mc_completionsPath = Some (JStr ''/v1/chat/completions''),
           mc_modelName = Some (JStr ''gpt-oss:20b''), mc_temperature = Some (JNum (1 / 10))\<rparr>)],
        providerConfigs =
          [(''ollama'', JObj [(''baseUrl'', JStr ''http://localhost:11434''),
                      (''completionsPath'', JStr ''/v1/chat/completions''),
                      (''models'', JObj [(''gpt-oss'', JObj [(''modelName'', JStr ''gpt-oss:20b''),
                                                          (''temperature'', JNum (1 / 10))])])])]\<rparr>
   \<and> loadModelConfigs
       (Parsed (JObj [(''aliyun'', JObj [(''baseUrl'', JStr ''https://dashscope.example.com''),
                        (''qwen-max'', JNull)])]))
       \<lparr>modelConfigs = [(''old/model'',
            \<lparr>mc_baseUrl = None, mc_completionsPath = None, mc_modelName = None,
             mc_temperature = None\<rparr>)],
        providerConfigs = [(''old'', JObj [])]\<rparr>
     = Exited 1
         \<lparr>modelConfigs = [],
          providerConfigs =
            [(''aliyun'', JObj [(''baseUrl'', JStr ''https://dashscope.example.com''),
                        (''qwen-max'', JNull)])]\<rparr>"
proof -
  let ?old = "\<lparr>modelConfigs = [(''old/model'',
          \<lparr>mc_baseUrl = None, mc_completionsPath = None, mc_modelName = None,
           mc_temperature = None\<rparr>)],
      providerConfigs = [(''old'', JObj [])]\<rparr>"
  let ?empty = "\<lparr>modelConfigs = [], providerConfigs = []\<rparr>"
  let ?ollama = "JObj [(''baseUrl'', JStr ''http://localhost:11434''),
                      (''completionsPath'', JStr ''/v1/chat/completions''),
                      (''models'', JObj [(''gpt-oss'', JObj [(''modelName'', JStr ''gpt-oss:20b''),
                                                          (''temperature'', JNum (1 / 10))])])]"
  let ?aliyun = "JObj [(''baseUrl'', JStr ''https://dashscope.example.com''),
                        (''qwen-max'', JNull)]"
  let ?new = "\<lparr>modelConfigs = [(''ollama/gpt-oss'',
          \<lparr>mc_baseUrl = Some (JStr ''http://localhost:11434''),
           mc_completionsPath = Some (JStr ''/v1/chat/completions''),
           mc_modelName = Some (JStr ''gpt-oss:20b''), mc_temperature = Some (JNum (1 / 10))\<rparr>)],
        providerConfigs = [(''ollama'', ?ollama)]\<rparr>"
  let ?part = "\<lparr>modelConfigs = [], providerConfigs = [(''aliyun'', ?aliyun)]\<rparr>"
  have o1: "objectEntries (JObj [(''ollama'', ?ollama)]) = Inr [(''ollama'', ?ollama)]"
    by (simp add: ownEntries_def isArrayIndex_def)
  have s1: "storeProviders [(''ollama'', ?ollama)] ?empty = (None, ?new)"
    by (simp add: providerModels_def jsGet_def objectPrototypeKeys_def setProp_def
        ownEntries_def isArrayIndex_def)
  have o2: "objectEntries (JObj [(''aliyun'', ?aliyun)]) = Inr [(''aliyun'', ?aliyun)]"
    by (simp add: ownEntries_def isArrayIndex_def)
  have s2: "storeProviders [(''aliyun'', ?aliyun)] ?empty = (Some TypeError, ?part)"
    by (simp add: providerModels_def jsGet_def objectPrototypeKeys_def setProp_def
        ownEntries_def isArrayIndex_def reservedKeys_def)
  have a: "loadModelConfigs (Parsed (JObj [(''ollama'', ?ollama)])) ?old = Running ?new"
    using loadModelConfigs_in_place [of ?old "JObj [(''ollama'', ?ollama)]"
        "Parsed (JObj [(''ollama'', ?ollama)])" ?new 1] o1 s1
    by blast
  have b: "loadModelConfigs (Parsed (JObj [(''aliyun'', ?aliyun)])) ?old = Exited 1 ?part"
    using loadModelConfigs_in_place [of ?old "JObj [(''aliyun'', ?aliyun)]"
        "Parsed (JObj [(''aliyun'', ?aliyun)])" ?part 1] o2 s2
    by blast
  from a b show ?thesis by (rule conjI)
qed

lemma pushCerts_map:
  "pushCerts readFile certsConfig caCerts = caCerts @ map (\<lambda>c. \<lparr>cc_hostname = cc_hostname c, cc_certPath = None,
       cc_must = (cc_must c \<and> loadCertFromFile readFile c \<noteq> None),
       cc_cert = loadCertFromFile readFile c\<rparr>) certsConfig"
  by (induction certsConfig arbitrary: caCerts) (simp_all add: Let_def)

lemma find_map_hostname:
  "find (\<lambda>e. cc_hostname e = h) (map (\<lambda>c. \<lparr>cc_hostname = cc_hostname c, cc_certPath = None,
       cc_must = (cc_must c \<and> loadCertFromFile readFile c \<noteq> None),
       cc_cert = loadCertFromFile readFile c\<rparr>) cfg)
   = map_option (\<lambda>c. \<lparr>cc_hostname = cc_hostname c, cc_certPath = None,
       cc_must = (cc_must c \<and> loadCertFromFile readFile c \<noteq> None),
       cc_cert = loadCertFromFile readFile c\<rparr>) (find (\<lambda>c. cc_hostname c = h) cfg)"
  by (induction cfg) simp_all

lemma find_distinct_hostname:
  "distinct (map cc_hostname caCerts) \<Longrightarrow> e \<in> set caCerts \<Longrightarrow>
   find (\<lambda>c. cc_hostname c = cc_hostname e) caCerts = Some e"
  by (induction caCerts) (auto simp: rev_image_eqI)

text \<open>
  C6, as the code has it. In the table that \<open>loadCACerts\<close> builds, an entry without
  certificate bytes has \<open>must\<close> false. \<open>setupCA\<close> turns verification on, with the pinned
  CA, exactly when the first configured entry of that hostname has \<open>must\<close> true and a
  certificate that could be read; in every other case it turns verification off and
  leaves \<open>ca\<close> alone. Where the hostnames of the table are distinct, that is the claim's
  condition: some entry of that hostname has \<open>must\<close> true and certificate bytes.
\<close>

theorem setupCA_first_entry:
  "loadCACerts readFile (Parsed certsConfig) old = Running caCerts \<Longrightarrow>
     (\<forall>e \<in> set caCerts. cc_cert e = None \<longrightarrow> \<not> cc_must e)
   \<and> (ro_rejectUnauthorized (setupCA caCerts options hostname) =
        (\<exists>c. find (\<lambda>c. cc_hostname c = hostname) certsConfig = Some c
             \<and> cc_must c \<and> loadCertFromFile readFile c \<noteq> None))
   \<and> (ro_rejectUnauthorized (setupCA caCerts options hostname) \<longrightarrow>
        (\<exists>c. find (\<lambda>c. cc_hostname c = hostname) certsConfig = Some c
             \<and> ro_ca (setupCA caCerts options hostname) = loadCertFromFile readFile c))
   \<and> (\<not> ro_rejectUnauthorized (setupCA caCerts options hostname) \<longrightarrow>
        ro_ca (setupCA caCerts options hostname) = ro_ca options)
   \<and> (distinct (map cc_hostname caCerts) \<longrightarrow>
        ro_rejectUnauthorized (setupCA caCerts options hostname) =
          (\<exists>e \<in> set caCerts. cc_hostname e = hostname \<and> cc_must e \<and> cc_cert e \<noteq> None))"
proof -
  assume "loadCACerts readFile (Parsed certsConfig) old = Running caCerts"
  then have tbl: "caCerts = map (\<lambda>c. \<lparr>cc_hostname = cc_hostname c, cc_certPath = None,
       cc_must = (cc_must c \<and> loadCertFromFile readFile c \<noteq> None),
       cc_cert = loadCertFromFile readFile c\<rparr>) certsConfig"
    by (simp add: loadCACerts_def pushCerts_map)
  have inv: "\<forall>e \<in> set caCerts. cc_cert e = None \<longrightarrow> \<not> cc_must e"
    by (auto simp: tbl)
  have fnd: "find (\<lambda>e. cc_hostname e = hostname) caCerts
      = map_option (\<lambda>c. \<lparr>cc_hostname = cc_hostname c, cc_certPath = None,
       cc_must = (cc_must c \<and> loadCertFromFile readFile c \<noteq> None),
       cc_cert = loadCertFromFile readFile c\<rparr>) (find (\<lambda>c. cc_hostname c = hostname) certsConfig)"
    unfolding tbl by (rule find_map_hostname)
  have rej: "ro_rejectUnauthorized (setupCA caCerts options hostname) =
        (\<exists>c. find (\<lambda>c. cc_hostname c = hostname) certsConfig = Some c
             \<and> cc_must c \<and> loadCertFromFile readFile c \<noteq> None)"
    by (cases "find (\<lambda>c. cc_hostname c = hostname) certsConfig")
       (auto simp: setupCA_def fnd)
  have ca1: "ro_rejectUnauthorized (setupCA caCerts options hostname) \<longrightarrow>
        (\<exists>c. find (\<lambda>c. cc_hostname c = hostname) certsConfig = Some c
             \<and> ro_ca (setupCA caCerts options hostname) = loadCertFromFile readFile c)"
    by (cases "find (\<lambda>c. cc_hostname c = hostname) certsConfig")
       (auto simp: setupCA_def fnd)
  have ca2: "\<not> ro_rejectUnauthorized (setupCA caCerts options hostname) \<longrightarrow>
        ro_ca (setupCA caCerts options hostname) = ro_ca options"
    by (cases "find (\<lambda>c. cc_hostname c = hostname) certsConfig")
       (auto simp: setupCA_def fnd)
  have dis: "distinct (map cc_hostname caCerts) \<longrightarrow>
        ro_rejectUnauthorized (setupCA caCerts options hostname) =
          (\<exists>e \<in> set caCerts. cc_hostname e = hostname \<and> cc_must e \<and> cc_cert e \<noteq> None)"
  proof
    assume d: "distinct (map cc_hostname caCerts)"
    show "ro_rejectUnauthorized (setupCA caCerts options hostname) =
          (\<exists>e \<in> set caCerts. cc_hostname e = hostname \<and> cc_must e \<and> cc_cert e \<noteq> None)"
    proof (cases "find (\<lambda>c. cc_hostname c = hostname) caCerts")
      case None
      then have "\<forall>e \<in> set caCerts. cc_hostname e \<noteq> hostname"
        by (simp add: find_None_iff)
      with None show ?thesis by (auto simp: setupCA_def)
    next
      case (Some e)
      then have e: "e \<in> set caCerts" "cc_hostname e = hostname"
        by (auto simp: find_Some_iff)
      have uniq: "e' = e" if "e' \<in> set caCerts" "cc_hostname e' = hostname" for e'
        using find_distinct_hostname [OF d that(1)] that(2) Some by simp
      have l: "ro_rejectUnauthorized (setupCA caCerts options hostname) = (cc_must e \<and> cc_cert e \<noteq> None)"
        by (simp add: setupCA_def Some)
      have r: "(\<exists>e \<in> set caCerts. cc_hostname e = hostname \<and> cc_must e \<and> cc_cert e \<noteq> None)
           = (cc_must e \<and> cc_cert e \<noteq> None)"
        using e uniq by blast
      show ?thesis by (simp only: l r)
    qed
  qed
  show ?thesis
    by (intro conjI) (rule inv, rule rej, rule ca1, rule ca2, rule dis)
qed

text \<open>
  C6 as stated fails where a hostname is configured twice: the second entry has \<open>must\<close>
  true and its certificate, yet \<open>find\<close> yields the first, and verification is off.
\<close>

theorem setupCA_duplicate_hostname:
  "loadCACerts (map_of [(''/etc/ca.pem'', ''PEM'')])
     (Parsed [\<lparr>cc_hostname = ''api.example.com'', cc_certPath = None, cc_must = False,
                cc_cert = None\<rparr>,
              \<lparr>cc_hostname = ''api.example.com'', cc_certPath = Some ''/etc/ca.pem'',
                cc_must = True, cc_cert = None\<rparr>]) []
     = Running [\<lparr>cc_hostname = ''api.example.com'', cc_certPath = None, cc_must = False,
                  cc_cert = None\<rparr>,
                \<lparr>cc_hostname = ''api.example.com'', cc_certPath = None, cc_must = True,
                  cc_cert = Some ''PEM''\<rparr>]
   \<and> \<not> ro_rejectUnauthorized
         (setupCA [\<lparr>cc_hostname = ''api.example.com'', cc_certPath = None, cc_must = False,
                     cc_cert = None\<rparr>,
                   \<lparr>cc_hostname = ''api.example.com'', cc_certPath = None, cc_must = True,
                     cc_cert = Some ''PEM''\<rparr>]
            \<lparr>ro_headers = [], ro_rejectUnauthorized = False, ro_ca = None\<rparr>
            ''api.example.com'')"
  by (simp add: loadCACerts_def loadCertFromFile_def setupCA_def)

theorem setupCA_first_entry_witness:
  "loadCACerts (map_of [(''/etc/ca.pem'', ''PEM'')])
     (Parsed [\<lparr>cc_hostname = ''api.example.com'', cc_certPath = Some ''/etc/ca.pem'',
                cc_must = True, cc_cert = None\<rparr>,
              \<lparr>cc_hostname = ''llm.internal'', cc_certPath = Some ''/etc/missing.pem'',
                cc_must = True, cc_cert = None\<rparr>]) []
     = Running [\<lparr>cc_hostname = ''api.example.com'', cc_certPath = None, cc_must = True,
                  cc_cert = Some ''PEM''\<rparr>,
                \<lparr>cc_hostname = ''llm.internal'', cc_certPath = None, cc_must = False,
                  cc_cert = None\<rparr>]
   \<and> ro_rejectUnauthorized
         (setupCA [\<lparr>cc_hostname = ''api.example.com'', cc_certPath = None, cc_must = True,
                     cc_cert = Some ''PEM''\<rparr>,
                   \<lparr>cc_hostname = ''llm.internal'', cc_certPath = None, cc_must = False,
                     cc_cert = None\<rparr>]
            \<lparr>ro_headers = [], ro_rejectUnauthorized = False, ro_ca = None\<rparr>
            ''api.example.com'')
   \<and> \<not> ro_rejectUnauthorized
         (setupCA [\<lparr>cc_hostname = ''api.example.com'', cc_certPath = None, cc_must = True,
                     cc_cert = Some ''PEM''\<rparr>,
                   \<lparr>cc_hostname = ''llm.internal'', cc_certPath = None, cc_must = False,
                     cc_cert = None\<rparr>]
            \<lparr>ro_headers = [], ro_rejectUnauthorized = False, ro_ca = None\<rparr>
            ''llm.internal'')"
proof -
  have loaded: "loadCACerts (map_of [(''/etc/ca.pem'', ''PEM'')])
     (Parsed [\<lparr>cc_hostname = ''api.example.com'', cc_certPath = Some ''/etc/ca.pem'',
                cc_must = True, cc_cert = None\<rparr>,
              \<lparr>cc_hostname = ''llm.internal'', cc_certPath = Some ''/etc/missing.pem'',
                cc_must = True, cc_cert = None\<rparr>]) []
     = Running [\<lparr>cc_hostname = ''api.example.com'', cc_certPath = None, cc_must = True,
                  cc_cert = Some ''PEM''\<rparr>,
                \<lparr>cc_hostname = ''llm.internal'', cc_certPath = None, cc_must = False,
                  cc_cert = None\<rparr>]"
    by (simp add: loadCACerts_def loadCertFromFile_def)
  have a: "ro_rejectUnauthorized
         (setupCA [\<lparr>cc_hostname = ''api.example.com'', cc_certPath = None, cc_must = True,
                     cc_cert = Some ''PEM''\<rparr>,
                   \<lparr>cc_hostname = ''llm.internal'', cc_certPath = None, cc_must = False,
                     cc_cert = None\<rparr>]
            \<lparr>ro_headers = [], ro_rejectUnauthorized = False, ro_ca = None\<rparr>
            ''api.example.com'')"
    using setupCA_first_entry [OF loaded,
        of "\<lparr>ro_headers = [], ro_rejectUnauthorized = False, ro_ca = None\<rparr>" "''api.example.com''"]
    by (simp add: loadCertFromFile_def)
  have b: "\<not> ro_rejectUnauthorized
         (setupCA [\<lparr>cc_hostname = ''api.example.com'', cc_certPath = None, cc_must = True,
                     cc_cert = Some ''PEM''\<rparr>,
                   \<lparr>cc_hostname = ''llm.internal'', cc_certPath = None, cc_must = False,
                     cc_cert = None\<rparr>]
            \<lparr>ro_headers = [], ro_rejectUnauthorized = False, ro_ca = None\<rparr>
            ''llm.internal'')"
    using setupCA_first_entry [OF loaded,
        of "\<lparr>ro_headers = [], ro_rejectUnauthorized = False, ro_ca = None\<rparr>" "''llm.internal''"]
    by (simp add: loadCertFromFile_def)
  show ?thesis
    by (intro conjI) (rule loaded, rule a, rule b)
qed


section \<open>Properties of token accounting\<close>

lemma map_of_lruGet:
  "map_of (snd (lruGet key cache)) = map_of cache"
  by (auto simp: lruGet_def AList.update_conv' AList.delete_conv' split: option.splits)

lemma fst_lruGet: "fst (lruGet key cache) = map_of cache key"
  by (simp add: lruGet_def split: option.splits)

lemma map_of_lruSet:
  "map_of (lruSet n key v cache) k = Some e \<Longrightarrow> (k = key \<and> e = v) \<or> map_of cache k = Some e"
  by (auto simp: lruSet_def AList.update_conv' AList.delete_conv' split: if_splits list.splits)

lemma getEncoder_cases:
  "getEncoder encoding_for_model model encoderCache =
     (case map_of encoderCache model of
        Some encoder \<Rightarrow> (Some encoder, snd (lruGet model encoderCache))
      | None \<Rightarrow>
          (case encoding_for_model model of
             None \<Rightarrow> (None, encoderCache)
           | Some encoder \<Rightarrow> (Some encoder, lruSet encoderCacheSize model encoder encoderCache)))"
  by (simp add: getEncoder_def lruGet_def split: option.splits)

lemma getEncoder_result:
  assumes "\<forall>k e. map_of encoderCache k = Some e \<longrightarrow> encoding_for_model k = Some e"
  shows "fst (getEncoder encoding_for_model model encoderCache) = encoding_for_model model"
proof (cases "map_of encoderCache model")
  case None
  then show ?thesis by (simp add: getEncoder_cases split: option.splits)
next
  case (Some e)
  with assms have "encoding_for_model model = Some e" by blast
  with Some show ?thesis by (simp add: getEncoder_cases)
qed

lemma getEncoder_invariant:
  assumes "\<forall>k e. map_of encoderCache k = Some e \<longrightarrow> encoding_for_model k = Some e"
    and "map_of (snd (getEncoder encoding_for_model model encoderCache)) k = Some e"
  shows "encoding_for_model k = Some e"
proof (cases "map_of encoderCache model")
  case (Some enc)
  with assms(2) have "map_of (snd (lruGet model encoderCache)) k = Some e"
    by (simp add: getEncoder_cases)
  then show ?thesis using assms(1) by (simp add: map_of_lruGet)
next
  case None
  show ?thesis
  proof (cases "encoding_for_model model")
    case None
    with \<open>map_of encoderCache model = None\<close> assms show ?thesis
      by (simp add: getEncoder_cases)
  next
    case (Some enc)
    with \<open>map_of encoderCache model = None\<close> assms(2)
    have "map_of (lruSet encoderCacheSize model enc encoderCache) k = Some e"
      by (simp add: getEncoder_cases)
    from map_of_lruSet [OF this] Some assms(1) show ?thesis by blast
  qed
qed

lemma countTokens_fst:
  "fst (countTokens encoding_for_model encode text model encoderCache) =
     (case fst (getEncoder encoding_for_model model encoderCache) of
        None \<Rightarrow> length text
      | Some encoder \<Rightarrow> (case encode encoder text of None \<Rightarrow> length text | Some tokens \<Rightarrow> length tokens))"
  by (simp add: countTokens_def split: prod.splits option.splits)

lemma countTokens_warnings:
  "snd (snd (countTokens encoding_for_model encode text model encoderCache)) =
     (case fst (getEncoder encoding_for_model model encoderCache) of
        None \<Rightarrow> [''Failed to count tokens for model '' @ model @ '':'']
      | Some encoder \<Rightarrow> (case encode encoder text of
           None \<Rightarrow> [''Failed to count tokens for model '' @ model @ '':'']
         | Some tokens \<Rightarrow> []))"
  by (simp add: countTokens_def split: prod.splits option.splits)

lemma countTokens_cache:
  "fst (snd (countTokens encoding_for_model encode text model encoderCache)) =
     snd (getEncoder encoding_for_model model encoderCache)"
  by (simp add: countTokens_def split: prod.splits option.splits)

text \<open>
  C9, as the code has it. \<open>countTokens\<close> always returns a number. The encoder cache only
  ever holds, under a model name, the encoder that \<open>encoding_for_model\<close> builds for that
  name (it starts empty, and the last part shows that a call keeps it so). Under that
  invariant: for a model name for which no encoder can be built, the result is the
  length of the text and one warning is logged; the same holds when an encoder can be
  built and its \<open>encode\<close> throws on the text, since the one \<open>try\<close> covers both calls; and
  when an encoder can be built and \<open>encode\<close> returns, the result is the number of tokens
  and nothing is logged.
\<close>

theorem countTokens_fallback:
  assumes "\<forall>k e. map_of encoderCache k = Some e \<longrightarrow> encoding_for_model k = Some e"
  shows "(encoding_for_model model = None \<longrightarrow>
            fst (countTokens encoding_for_model encode text model encoderCache) = length text
          \<and> snd (snd (countTokens encoding_for_model encode text model encoderCache)) =
              [''Failed to count tokens for model '' @ model @ '':''])
       \<and> (\<forall>encoder.
            encoding_for_model model = Some encoder \<and> encode encoder text = None \<longrightarrow>
            fst (countTokens encoding_for_model encode text model encoderCache) = length text
          \<and> snd (snd (countTokens encoding_for_model encode text model encoderCache)) =
              [''Failed to count tokens for model '' @ model @ '':''])
       \<and> (\<forall>encoder tokens.
            encoding_for_model model = Some encoder \<and> encode encoder text = Some tokens \<longrightarrow>
            fst (countTokens encoding_for_model encode text model encoderCache) = length tokens
          \<and> snd (snd (countTokens encoding_for_model encode text model encoderCache)) = [])
       \<and> (\<forall>k e. map_of (fst (snd (countTokens encoding_for_model encode text model encoderCache))) k
                  = Some e \<longrightarrow> encoding_for_model k = Some e)"
proof (intro conjI allI impI)
  assume "encoding_for_model model = None"
  then show "fst (countTokens encoding_for_model encode text model encoderCache) = length text"
    by (simp add: countTokens_fst getEncoder_result [OF assms])
next
  assume "encoding_for_model model = None"
  then show "snd (snd (countTokens encoding_for_model encode text model encoderCache)) =
              [''Failed to count tokens for model '' @ model @ '':'']"
    by (simp add: countTokens_warnings getEncoder_result [OF assms])
next
  fix encoder
  assume "encoding_for_model model = Some encoder \<and> encode encoder text = None"
  then show "fst (countTokens encoding_for_model encode text model encoderCache) = length text"
    by (simp add: countTokens_fst getEncoder_result [OF assms])
next
  fix encoder
  assume "encoding_for_model model = Some encoder \<and> encode encoder text = None"
  then show "snd (snd (countTokens encoding_for_model encode text model encoderCache)) =
              [''Failed to count tokens for model '' @ model @ '':'']"
    by (simp add: countTokens_warnings getEncoder_result [OF assms])
next
  fix encoder tokens
  assume "encoding_for_model model = Some encoder \<and> encode encoder text = Some tokens"
  then show "fst (countTokens encoding_for_model encode text model encoderCache) = length tokens"
    by (simp add: countTokens_fst getEncoder_result [OF assms])
next
  fix encoder tokens
  assume "encoding_for_model model = Some encoder \<and> encode encoder text = Some tokens"
  then show "snd (snd (countTokens encoding_for_model encode text model encoderCache)) = []"
    by (simp add: countTokens_warnings getEncoder_result [OF assms])
next
  fix k e
  assume "map_of (fst (snd (countTokens encoding_for_model encode text model encoderCache))) k
                  = Some e"
  then show "encoding_for_model k = Some e"
    using getEncoder_invariant [OF assms] by (simp add: countTokens_cache)
qed

text \<open>
  C9 as stated fails: an encoder can be built for \<open>gpt-4\<close>, but its \<open>encode\<close> throws on a
  text that holds a special token; \<open>countTokens\<close> then returns the length of the text, 13,
  and logs the warning, not a token count.
\<close>

theorem countTokens_encode_throws:
  "fst (countTokens (map_of [(''gpt-4'', 0::nat)])
          (\<lambda>encoder text. if text = ''<|endoftext|>'' then None
                           else Some (removeAll CHR '' '' text))
          ''<|endoftext|>'' ''gpt-4'' []) = 13
   \<and> snd (snd (countTokens (map_of [(''gpt-4'', 0::nat)])
          (\<lambda>encoder text. if text = ''<|endoftext|>'' then None
                           else Some (removeAll CHR '' '' text))
          ''<|endoftext|>'' ''gpt-4'' []))
       = [''Failed to count tokens for model gpt-4:'']"
  by (simp add: countTokens_def getEncoder_def lruGet_def lruSet_def encoderCacheSize_def)

theorem countTokens_fallback_witness:
  "fst (countTokens (map_of [(''gpt-4'', 0::nat)])
          (\<lambda>encoder text. if CHR ''<'' \<in> set text then None else Some (removeAll CHR '' '' text))
          ''hi there'' ''no-such-model'' []) = 8
   \<and> snd (snd (countTokens (map_of [(''gpt-4'', 0::nat)])
          (\<lambda>encoder text. if CHR ''<'' \<in> set text then None else Some (removeAll CHR '' '' text))
          ''hi there'' ''no-such-model'' []))
       = [''Failed to count tokens for model no-such-model:'']
   \<and> fst (countTokens (map_of [(''gpt-4'', 0::nat)])
          (\<lambda>encoder text. if CHR ''<'' \<in> set text then None else Some (removeAll CHR '' '' text))
          ''hi there'' ''gpt-4'' []) = 7
   \<and> fst (countTokens (map_of [(''gpt-4'', 0::nat)])
          (\<lambda>encoder text. if CHR ''<'' \<in> set text then None else Some (removeAll CHR '' '' text))
          ''a <b'' ''gpt-4'' []) = 4"
proof -
  let ?ctor = "map_of [(''gpt-4'', 0::nat)]"
  let ?encode = "\<lambda>(encoder :: nat) text.
      if CHR ''<'' \<in> set text then None else Some (removeAll CHR '' '' text)"
  have inv: "\<forall>k e. map_of ([] :: (string \<times> nat) list) k = Some e \<longrightarrow> ?ctor k = Some e"
    by simp
  have none: "?ctor ''no-such-model'' = None" by simp
  have some: "?ctor ''gpt-4'' = Some 0 \<and> ?encode 0 ''hi there'' = Some ''hithere''" by simp
  have throws: "?ctor ''gpt-4'' = Some 0 \<and> ?encode 0 ''a <b'' = None" by simp
  have a: "fst (countTokens ?ctor ?encode ''hi there'' ''no-such-model'' []) = length ''hi there''
     \<and> snd (snd (countTokens ?ctor ?encode ''hi there'' ''no-such-model'' []))
         = [''Failed to count tokens for model '' @ ''no-such-model'' @ '':'']"
    using countTokens_fallback [OF inv, of "''no-such-model''" ?encode "''hi there''"] none
    by blast
  have b: "fst (countTokens ?ctor ?encode ''hi there'' ''gpt-4'' []) = length ''hithere''"
    using countTokens_fallback [OF inv, of "''gpt-4''" ?encode "''hi there''"] some
    by blast
  have c: "fst (countTokens ?ctor ?encode ''a <b'' ''gpt-4'' []) = length ''a <b''"
    using countTokens_fallback [OF inv, of "''gpt-4''" ?encode "''a <b''"] throws
    by blast
  have "length ''hi there'' = 8" "length ''hithere'' = 7" "length ''a <b'' = 4"
    "''Failed to count tokens for model '' @ ''no-such-model'' @ '':''
       = ''Failed to count tokens for model no-such-model:''"
    by simp_all
  with a b c show ?thesis by (simp only:) 
qed


section \<open>Properties of the transient data cache\<close>

lemma delete_head_distinct:
  "distinct (map fst ((k, v) # rest)) \<Longrightarrow> AList.delete k ((k, v) # rest) = rest"
  by (simp add: AList.delete_eq filter_id_conv) force

lemma keys_update_fresh:
  "k \<notin> set (map fst c) \<Longrightarrow> map fst (AList.update k v c) = map fst c @ [k]"
  by (simp add: AList.update_keys)

lemma length_delete_le: "length (AList.delete k c) \<le> length c"
  by (simp add: AList.delete_eq)

lemma length_delete_less:
  "k \<in> set (map fst c) \<Longrightarrow> length (AList.delete k c) < length c"
proof -
  assume "k \<in> set (map fst c)"
  then obtain v where "(k, v) \<in> set c" by auto
  then have "length (filter (\<lambda>(k', _). k \<noteq> k') c) < length c"
    by (intro length_filter_less [of "(k, v)"]) simp_all
  then show ?thesis by (simp add: AList.delete_eq)
qed

lemma length_update_le: "length (AList.update k v c) \<le> Suc (length c)"
  by (induction c) auto

lemma keys_delete_subset: "set (map fst (AList.delete k c)) \<subseteq> set (map fst c)"
  by (auto simp: AList.delete_eq)

lemma keys_update: "set (map fst (AList.update k v c)) = insert k (set (map fst c))"
  by (simp add: AList.update_keys) auto

lemma evictFirst_length:
  "length c \<le> maxSize \<Longrightarrow> [] \<notin> set (map fst c) \<Longrightarrow> length (evictFirst c) < maxSize"
proof (cases c)
  case Nil
  then show ?thesis by (simp add: evictFirst_def maxSize_def)
next
  case (Cons p rest)
  assume a: "length c \<le> maxSize" "[] \<notin> set (map fst c)"
  obtain k v where p: "p = (k, v)" by (cases p)
  have k: "k \<noteq> []" using a(2) Cons p by auto
  have "length (AList.delete k c) < length c"
    by (rule length_delete_less) (simp add: Cons p)
  with a(1) k show ?thesis
    by (simp add: evictFirst_def Cons p)
qed

lemma evictFirst_cases:
  "evictFirst c = c \<or> (\<exists>k. evictFirst c = AList.delete k c)"
proof (cases c)
  case Nil
  then show ?thesis by (simp add: evictFirst_def)
next
  case (Cons p rest)
  obtain k v where p: "p = (k, v)" by (cases p)
  have "evictFirst c = c \<or> evictFirst c = AList.delete k c"
    unfolding evictFirst_def Cons p by simp
  then show ?thesis by blast
qed

lemma evictFirst_keys: "set (map fst (evictFirst c)) \<subseteq> set (map fst c)"
proof -
  consider "evictFirst c = c" | k where "evictFirst c = AList.delete k c"
    using evictFirst_cases [of c] by blast
  then show ?thesis
  proof cases
    case 1
    then show ?thesis by simp
  next
    case 2
    show ?thesis unfolding 2 by (rule keys_delete_subset)
  qed
qed

lemma storeRequestData_bound:
  assumes "length c \<le> maxSize" "[] \<notin> set (map fst c)" "requestId \<noteq> []"
  shows "length (snd (storeRequestData numStr now requestId body model c)) \<le> maxSize
       \<and> [] \<notin> set (map fst (snd (storeRequestData numStr now requestId body model c)))"
proof -
  have l: "length (evictFirst c) < maxSize" by (rule evictFirst_length [OF assms(1,2)])
  have k: "[] \<notin> set (map fst (evictFirst c))" using evictFirst_keys [of c] assms(2) by blast
  show ?thesis
  proof (cases "promptTextOf numStr body")
    case (Inl e)
    with l k show ?thesis by (simp add: storeRequestData_def)
  next
    case (Inr t)
    have "length (AList.update requestId d (evictFirst c)) \<le> maxSize" for d
      using length_update_le [of requestId d "evictFirst c"] l by simp
    moreover have "[] \<notin> set (map fst (AList.update requestId d (evictFirst c)))" for d
      using k assms(3) by (simp only: keys_update) auto
    ultimately show ?thesis using Inr by (simp add: storeRequestData_def Let_def)
  qed
qed

lemma processRequestData_bound:
  assumes "length c \<le> maxSize" "[] \<notin> set (map fst c)" "requestId \<noteq> []"
  shows "length (snd (processRequestData numStr now requestId body model c)) \<le> maxSize
       \<and> [] \<notin> set (map fst (snd (processRequestData numStr now requestId body model c)))"
proof (cases "map_of c requestId")
  case None
  then show ?thesis using storeRequestData_bound [OF assms] by (simp add: processRequestData_def)
next
  case (Some cached)
  show ?thesis
  proof (cases "now - prd_timestamp cached < ttl")
    case True
    with Some assms show ?thesis by (simp add: processRequestData_def)
  next
    case False
    have "length (AList.delete requestId c) \<le> maxSize"
      using length_delete_le [of requestId c] assms(1) by simp
    moreover have "[] \<notin> set (map fst (AList.delete requestId c))"
      using keys_delete_subset [of requestId c] assms(2) by blast
    ultimately show ?thesis
      using storeRequestData_bound [OF _ _ assms(3)] Some False
      by (simp add: processRequestData_def)
  qed
qed

lemma processRequestData_fresh_keys:
  assumes fresh: "requestId \<notin> set (map fst c)" and ne: "requestId \<noteq> []"
    and keys: "map fst c = drop (length seen - maxSize) seen"
    and dist: "distinct seen" and nonempty: "[] \<notin> set seen"
    and ok: "promptTextOf numStr body = Inr t"
  shows "map fst (snd (processRequestData numStr now requestId body model c)) =
           drop (length (seen @ [requestId]) - maxSize) (seen @ [requestId])"
proof -
  have none: "map_of c requestId = None"
    using fresh by (simp add: map_of_eq_None_iff)
  have dk: "distinct (map fst c)" using dist keys by simp
  have pos: "0 < maxSize" by (simp add: maxSize_def)
  have lc: "length c = length seen - (length seen - maxSize)"
    using arg_cong [OF keys, of length] by simp
  have ev: "map fst (evictFirst c) = drop (length (seen @ [requestId]) - maxSize) seen"
  proof (cases "length seen < maxSize")
    case True
    then have "length c < maxSize" using lc by simp
    with True keys show ?thesis by (simp add: evictFirst_def)
  next
    case False
    then have len: "length c = maxSize" using lc by simp
    then obtain k v rest where c: "c = (k, v) # rest"
      using pos by (cases c) auto
    have "k \<in> set (map fst c)" by (simp add: c)
    then have "k \<in> set seen" unfolding keys by (rule in_set_dropD)
    then have k: "k \<noteq> []" using nonempty by auto
    have "evictFirst c = rest"
      using len k delete_head_distinct [of k v rest] dk c by (simp add: evictFirst_def)
    then have "map fst (evictFirst c) = tl (map fst c)" by (simp add: c)
    also have "\<dots> = drop (Suc (length seen - maxSize)) seen"
      by (simp add: keys drop_Suc tl_drop)
    also have "Suc (length seen - maxSize) = length (seen @ [requestId]) - maxSize"
      using False by simp
    finally show ?thesis .
  qed
  have fr: "requestId \<notin> set (map fst (evictFirst c))"
    using evictFirst_keys [of c] fresh by blast
  have "map fst (snd (processRequestData numStr now requestId body model c)) =
          map fst (evictFirst c) @ [requestId]"
    using none ok keys_update_fresh [OF fr]
    by (simp add: processRequestData_def storeRequestData_def Let_def)
  also have "\<dots> = drop (length (seen @ [requestId]) - maxSize) (seen @ [requestId])"
    using pos by (simp add: ev)
  finally show ?thesis .
qed

lemma processRequestData_sequence:
  assumes "distinct (map pc_requestId calls)"
    and "\<forall>call \<in> set calls.
            pc_requestId call \<noteq> [] \<and> (\<exists>t. promptTextOf numStr (pc_body call) = Inr t)"
  shows "map fst (processAll numStr calls []) = drop (length calls - maxSize) (map pc_requestId calls)"
  using assms
proof (induction calls rule: rev_induct)
  case Nil
  show ?case by (simp add: processAll_def)
next
  case (snoc call calls)
  let ?ids = "map pc_requestId calls"
  let ?c = "processAll numStr calls []"
  have d: "distinct ?ids" and fresh0: "pc_requestId call \<notin> set ?ids"
    using snoc.prems(1) by simp_all
  have all: "\<forall>call \<in> set calls.
            pc_requestId call \<noteq> [] \<and> (\<exists>t. promptTextOf numStr (pc_body call) = Inr t)"
    using snoc.prems(2) by simp
  have keys: "map fst ?c = drop (length ?ids - maxSize) ?ids"
    using snoc.IH [OF d all] by simp
  have ne: "pc_requestId call \<noteq> []" and ok: "\<exists>t. promptTextOf numStr (pc_body call) = Inr t"
    using snoc.prems(2) by simp_all
  then obtain t where t: "promptTextOf numStr (pc_body call) = Inr t" by blast
  have nonempty: "[] \<notin> set ?ids"
    using all by auto
  have fresh: "pc_requestId call \<notin> set (map fst ?c)"
    unfolding keys using fresh0 in_set_dropD by fast
  have "map fst (snd (processRequestData numStr (pc_now call) (pc_requestId call) (pc_body call)
                        (pc_model call) ?c)) =
           drop (length (?ids @ [pc_requestId call]) - maxSize) (?ids @ [pc_requestId call])"
    by (rule processRequestData_fresh_keys [OF fresh ne keys d nonempty t])
  then show ?case by (simp add: processAll_def)
qed

lemma distinct_replicate_ids:
  "distinct (map (\<lambda>n. replicate (Suc n) c) [0..<m])"
proof -
  have "inj_on (\<lambda>n. replicate (Suc n) c) (set [0..<m])"
    by (rule inj_onI) (metis length_replicate nat.inject)
  then show ?thesis by (simp add: distinct_map)
qed

text \<open>
  C8. Request ids are the UUIDs that \<open>logRequestBody\<close> mints, so none is the empty
  string. After any sequence of calls of \<open>processRequestData\<close> with distinct ids on the
  empty cache, each of which stores its entry, the cache holds the ids of the last
  \<open>maxSize\<close> calls in the order of insertion: exactly \<open>maxSize\<close> = 1000 entries once more
  than that many were inserted, the earliest gone first. And no operation takes the
  cache past the bound: a call of \<open>processRequestData\<close> on a cache within the bound leaves
  it within the bound, the sweep and \<open>clearCachedData\<close> only remove.
\<close>

theorem processRequestData_capacity:
  "(distinct (map pc_requestId calls)
      \<and> (\<forall>call \<in> set calls.
            pc_requestId call \<noteq> [] \<and> (\<exists>t. promptTextOf numStr (pc_body call) = Inr t))
    \<longrightarrow> map fst (processAll numStr calls [])
          = drop (length calls - maxSize) (map pc_requestId calls)
      \<and> length (processAll numStr calls []) = min (length calls) maxSize)
   \<and> (length cache \<le> maxSize \<and> [] \<notin> set (map fst cache) \<and> requestId \<noteq> []
    \<longrightarrow> length (snd (processRequestData numStr now requestId body model cache)) \<le> maxSize
      \<and> [] \<notin> set (map fst (snd (processRequestData numStr now requestId body model cache))))
   \<and> length (sweepRequests now cache) \<le> length cache
   \<and> length (fst (clearCachedData requestId (cache, responses))) \<le> length cache"
proof (intro conjI impI)
  assume a: "distinct (map pc_requestId calls)
      \<and> (\<forall>call \<in> set calls.
            pc_requestId call \<noteq> [] \<and> (\<exists>t. promptTextOf numStr (pc_body call) = Inr t))"
  show k: "map fst (processAll numStr calls [])
          = drop (length calls - maxSize) (map pc_requestId calls)"
    using a by (intro processRequestData_sequence) simp_all
  show "length (processAll numStr calls []) = min (length calls) maxSize"
    using arg_cong [OF k, of length] by simp
next
  assume "length cache \<le> maxSize \<and> [] \<notin> set (map fst cache) \<and> requestId \<noteq> []"
  then show "length (snd (processRequestData numStr now requestId body model cache)) \<le> maxSize"
    "[] \<notin> set (map fst (snd (processRequestData numStr now requestId body model cache)))"
    using processRequestData_bound [of cache requestId numStr now body model] by simp_all
next
  show "length (sweepRequests now cache) \<le> length cache"
    by (simp add: sweepRequests_def)
next
  show "length (fst (clearCachedData requestId (cache, responses))) \<le> length cache"
    by (simp add: clearCachedData_def length_delete_le)
qed

theorem processRequestData_capacity_witness:
  "length (processAll (showNat \<circ> nat \<circ> floor)
      (map (\<lambda>n. \<lparr>pc_now = 0, pc_requestId = replicate (Suc n) CHR ''r'', pc_body = JObj [],
                  pc_model = None\<rparr>) [0..<1001]) []) = 1000
   \<and> hd (map fst (processAll (showNat \<circ> nat \<circ> floor)
      (map (\<lambda>n. \<lparr>pc_now = 0, pc_requestId = replicate (Suc n) CHR ''r'', pc_body = JObj [],
                  pc_model = None\<rparr>) [0..<1001]) [])) = ''rr''
   \<and> length (snd (processRequestData (showNat \<circ> nat \<circ> floor) 0 ''r'' (JObj []) None [])) \<le> maxSize"
proof -
  let ?calls = "map (\<lambda>n. \<lparr>pc_now = 0, pc_requestId = replicate (Suc n) CHR ''r'', pc_body = JObj [],
                  pc_model = None\<rparr>) [0..<1001]"
  have ids: "map pc_requestId ?calls = map (\<lambda>n. replicate (Suc n) CHR ''r'') [0..<1001]"
    by (simp add: comp_def)
  have d: "distinct (map pc_requestId ?calls)"
    unfolding ids by (rule distinct_replicate_ids)
  have ok: "\<forall>call \<in> set ?calls. pc_requestId call \<noteq> []
              \<and> (\<exists>t. promptTextOf (showNat \<circ> nat \<circ> floor) (pc_body call) = Inr t)"
    by (auto simp: promptTextOf_def jsGet_def objectPrototypeKeys_def)
  have h2: "length ([] :: (string \<times> ProcessedRequestData) list) \<le> maxSize
            \<and> [] \<notin> set (map fst ([] :: (string \<times> ProcessedRequestData) list)) \<and> ''r'' \<noteq> []"
    by simp
  note cap = processRequestData_capacity [of ?calls "showNat \<circ> nat \<circ> floor" "[]" "''r''" 0
      "JObj []" None]
  from cap d ok have k: "map fst (processAll (showNat \<circ> nat \<circ> floor) ?calls [])
          = drop (length ?calls - maxSize) (map pc_requestId ?calls)"
    and l: "length (processAll (showNat \<circ> nat \<circ> floor) ?calls []) = min (length ?calls) maxSize"
    by blast+
  from cap h2 have b: "length (snd (processRequestData (showNat \<circ> nat \<circ> floor) 0 ''r'' (JObj []) None []))
      \<le> maxSize"
    by blast
  have l': "length (processAll (showNat \<circ> nat \<circ> floor) ?calls []) = 1000"
    using l by (simp add: maxSize_def)
  have "hd (map fst (processAll (showNat \<circ> nat \<circ> floor) ?calls []))
      = (map (\<lambda>n. replicate (Suc n) CHR ''r'') [0..<1001]) ! 1"
    unfolding k ids by (simp add: maxSize_def hd_drop_conv_nth)
  also have "\<dots> = ''rr''"
    by (simp add: numeral_2_eq_2)
  finally have h: "hd (map fst (processAll (showNat \<circ> nat \<circ> floor) ?calls [])) = ''rr''" .
  from l' h b show ?thesis by blast
qed


section \<open>Properties of the request handler\<close>

subsection \<open>Upstream errors\<close>

lemma length_jsonEscape: "1 \<le> length (jsonEscape c)"
  by (simp add: jsonEscape_def)

lemma length_concat_jsonEscape: "length s \<le> length (concat (map jsonEscape s))"
proof (induction s)
  case Nil
  show ?case by simp
next
  case (Cons c s)
  with length_jsonEscape [of c] show ?case by simp
qed

lemma length_jsonQuote: "length s + 2 \<le> length (jsonQuote s)"
  using length_concat_jsonEscape [of s] by (simp add: jsonQuote_def)

lemma joinWith_Cons:
  "joinWith sep (x # xs) = x @ (if xs = [] then [] else sep @ joinWith sep xs)"
  by (cases xs) simp_all

lemma length_errorResponseJson:
  "length errorMessage < length (errorResponseJson numStr errorMessage model statusCode)"
  using length_jsonQuote [of errorMessage]
  by (simp add: errorResponseJson_def joinWith_Cons)

lemma errorResponseJson_differs:
  "errorResponseJson numStr errorMessage model statusCode \<noteq> errorMessage"
  using length_errorResponseJson [of errorMessage numStr model statusCode] by auto

lemma upstreamResponded_error_logger:
  assumes "statusCode < 200 \<or> statusCode \<ge> 300"
  shows "\<exists>d. ps_logger (fst (upstreamResponded numStr jsonParse bufferToString now ctx statusCode
                upstreamHeaders chunks (st, clientResp)))
    = logResponse now d (Some (AList.update ''x-request-id'' (rc_requestId ctx) upstreamHeaders))
        (rc_requestId ctx) statusCode (Some (rc_promptTokens ctx)) (Some 0) (ps_logger st)"
  using assms
  by (cases "jsonParse (bufferToString (concat chunks))") (auto simp: upstreamResponded_def Let_def)

lemma upstreamResponded_logger:
  "\<exists>d p c. ps_logger (fst (upstreamResponded numStr jsonParse bufferToString now ctx statusCode
                upstreamHeaders chunks (st, clientResp)))
    = logResponse now d (Some (AList.update ''x-request-id'' (rc_requestId ctx) upstreamHeaders))
        (rc_requestId ctx) statusCode p c (ps_logger st)"
proof (cases "statusCode < 200 \<or> statusCode \<ge> 300")
  case True
  from upstreamResponded_error_logger [OF True] show ?thesis by blast
next
  case False
  then show ?thesis by (simp add: upstreamResponded_def Let_def) blast
qed

lemma upstreamResponded_error_client:
  assumes "statusCode < 200 \<or> statusCode \<ge> 300"
  shows "snd (upstreamResponded numStr jsonParse bufferToString now ctx statusCode upstreamHeaders
                chunks (st, clientResp))
    = handleErrorResponse numStr clientResp (bufferToString (concat chunks))
        (rc_actualModelName ctx) statusCode
        (map_of (AList.update ''x-request-id'' (rc_requestId ctx) upstreamHeaders) ''content-type'')"
  using assms by (auto simp: upstreamResponded_def Let_def)

lemma upstreamResponded_caches:
  "ps_requestDataCache (fst (upstreamResponded numStr jsonParse bufferToString now ctx statusCode
       upstreamHeaders chunks (st, clientResp))) = ps_requestDataCache st"
  "ps_responseDataCache (fst (upstreamResponded numStr jsonParse bufferToString now ctx statusCode
       upstreamHeaders chunks (st, clientResp))) = ps_responseDataCache st"
  by (simp_all add: upstreamResponded_def Let_def)

text \<open>
  The pending update of a request holds token counts only. That is so when the table is
  empty, and every function that writes the table keeps it so: \<open>logRequestBody\<close> stores
  the empty update, \<open>logResponse\<close> removes one, and \<open>updateLogEntry\<close> merges what it is
  given, which in both calls of the handler is token counts. Hence every step of the
  handler keeps it, and so does every run.
\<close>

lemma list_all_update:
  "P (k, v) \<Longrightarrow> list_all P xs \<Longrightarrow> list_all P (AList.update k v xs)"
  by (induction xs) auto

lemma list_all_delete:
  "list_all P xs \<Longrightarrow> list_all P (AList.delete k xs)"
  by (induction xs) auto

lemma tokensOnly_emptyEntry: "tokensOnly emptyEntry"
  by (simp add: tokensOnly_def emptyEntry_def)

lemma tokensOnly_spread: "tokensOnly a \<Longrightarrow> tokensOnly b \<Longrightarrow> tokensOnly (spread a b)"
  by (simp add: tokensOnly_def spread_def orElse_def)

lemma pendingTokensOnly_start: "pendingLogs lg = [] \<Longrightarrow> pendingTokensOnly lg"
  by (simp add: pendingTokensOnly_def)

lemma pendingTokensOnly_lookup:
  assumes "pendingTokensOnly lg"
  shows "tokensOnly (case map_of (pendingLogs lg) r of Some u \<Rightarrow> u | None \<Rightarrow> emptyEntry)"
proof (cases "map_of (pendingLogs lg) r")
  case None
  then show ?thesis by (simp add: tokensOnly_emptyEntry)
next
  case (Some u)
  then have "(r, u) \<in> set (pendingLogs lg)" by (rule map_of_SomeD)
  with assms have "tokensOnly u" by (auto simp: pendingTokensOnly_def list_all_iff)
  with Some show ?thesis by simp
qed

lemma pendingTokensOnly_logRequestBody:
  "pendingTokensOnly lg \<Longrightarrow> pendingTokensOnly (snd (logRequestBody uuid now body context lg))"
  by (simp add: pendingTokensOnly_def logRequestBody_def writeLog_def Let_def list_all_update
      tokensOnly_emptyEntry)

lemma pendingTokensOnly_updateLogEntry:
  assumes "tokensOnly updates" "pendingTokensOnly lg"
  shows "pendingTokensOnly (updateLogEntry r updates lg)"
proof -
  have "tokensOnly (spread (case map_of (pendingLogs lg) r of Some u \<Rightarrow> u | None \<Rightarrow> emptyEntry)
                      updates)"
    by (rule tokensOnly_spread [OF pendingTokensOnly_lookup [OF assms(2)] assms(1)])
  with assms(2) show ?thesis
    by (simp add: pendingTokensOnly_def updateLogEntry_def Let_def list_all_update)
qed

lemma pendingTokensOnly_logResponse:
  "pendingTokensOnly lg \<Longrightarrow> pendingTokensOnly (logResponse now d h r s p c lg)"
  by (simp add: pendingTokensOnly_def logResponse_def writeLog_def Let_def list_all_delete)

lemma pendingTokensOnly_beginRequest:
  assumes "pendingTokensOnly (ps_logger st)"
  shows "pendingTokensOnly
           (ps_logger (snd (beginRequest numStr uuid isoNow now table clientReq body st)))"
proof (cases "getProp body ''model''")
  case (Inl e)
  with assms show ?thesis by (simp add: beginRequest_def)
next
  case m: (Inr inModelName)
  show ?thesis
  proof (cases "modelGuard numStr table inModelName")
    case (Inl e)
    with assms m show ?thesis by (simp add: beginRequest_def)
  next
    case g: (Inr config)
    have "ps_logger (snd (beginRequest numStr uuid isoNow now table clientReq body st))
        = snd (logRequestBody uuid isoNow body
            (emptyEntry\<lparr>le_model := inModelName,
               le_client := (case ir_userAgent clientReq of
                               None \<Rightarrow> None
                             | Some clientInfo \<Rightarrow>
                                 if take 5 clientInfo = ''Zs/JS'' then Some ''CLine''
                                 else Some clientInfo),
               le_path := Some (ir_url clientReq),
               le_method := Some (ir_method clientReq)\<rparr>)
            (ps_logger st))"
      using m g by (simp add: beginRequest_def Let_def split: sum.splits)
    then show ?thesis
      using pendingTokensOnly_logRequestBody [OF assms] by simp
  qed
qed

lemma pendingTokensOnly_promptTokensResolved:
  "pendingTokensOnly (ps_logger st)
   \<Longrightarrow> pendingTokensOnly (ps_logger (snd (promptTokensResolved n ctx st)))"
  by (simp add: promptTokensResolved_def pendingTokensOnly_updateLogEntry tokensOnly_def
      emptyEntry_def)

lemma pendingTokensOnly_completionTokensResolved:
  "pendingTokensOnly (ps_logger st)
   \<Longrightarrow> pendingTokensOnly (ps_logger (snd (completionTokensResolved n ctx st)))"
  by (simp add: completionTokensResolved_def pendingTokensOnly_updateLogEntry tokensOnly_def
      emptyEntry_def)

lemma pendingTokensOnly_upstreamResponded:
  assumes "pendingTokensOnly (ps_logger st)"
  shows "pendingTokensOnly (ps_logger (fst (upstreamResponded numStr jsonParse bufferToString now
            ctx statusCode upstreamHeaders chunks (st, clientResp))))"
proof -
  obtain d p c where "ps_logger (fst (upstreamResponded numStr jsonParse bufferToString now ctx
        statusCode upstreamHeaders chunks (st, clientResp)))
    = logResponse now d (Some (AList.update ''x-request-id'' (rc_requestId ctx) upstreamHeaders))
        (rc_requestId ctx) statusCode p c (ps_logger st)"
    using upstreamResponded_logger by blast
  then show ?thesis
    using pendingTokensOnly_logResponse [OF assms] by simp
qed

lemma pendingTokensOnly_handlerStep:
  "pendingTokensOnly (ps_logger st)
   \<Longrightarrow> pendingTokensOnly (ps_logger (handlerStep numStr jsonParse bufferToString table event st))"
  by (cases event)
     (simp_all add: pendingTokensOnly_beginRequest pendingTokensOnly_promptTokensResolved
        pendingTokensOnly_completionTokensResolved pendingTokensOnly_upstreamResponded)

lemma pendingTokensOnly_handlerRun:
  "pendingTokensOnly (ps_logger st)
   \<Longrightarrow> pendingTokensOnly (ps_logger (handlerRun numStr jsonParse bufferToString table events st))"
  unfolding handlerRun_def
  by (induction events arbitrary: st) (simp_all add: pendingTokensOnly_handlerStep)

lemma logResponse_last_fields_tokensOnly:
  assumes "pendingTokensOnly lg"
  shows "le_requestId (last (logLines (logResponse now d h r s p c lg))) = Some r"
    and "le_status (last (logLines (logResponse now d h r s p c lg))) = Some s"
proof -
  have "tokensOnly (case map_of (pendingLogs lg) r of Some u \<Rightarrow> u | None \<Rightarrow> emptyEntry)"
    by (rule pendingTokensOnly_lookup [OF assms])
  then have "\<forall>u. map_of (pendingLogs lg) r = Some u \<longrightarrow> le_requestId u = None \<and> le_status u = None"
    by (auto simp: tokensOnly_def)
  then show "le_requestId (last (logLines (logResponse now d h r s p c lg))) = Some r"
    and "le_status (last (logLines (logResponse now d h r s p c lg))) = Some s"
    by (rule logResponse_last_fields)+
qed

text \<open>
  C1, as the code has it. Take a state of the proxy in which the pending updates hold
  token counts only (as in every state that a run of the handler reaches from its start,
  \<open>pendingTokensOnly_start\<close> and \<open>pendingTokensOnly_handlerRun\<close>), an upstream status
  outside 200..299, and a client whose response has not begun. Then the whole body is
  collected and decoded, one response line is appended to the log for the request id,
  with the upstream status, the prompt tokens known so far and 0 completion tokens; the
  client gets the upstream's status code, and as body not the upstream body but the JSON
  object \<open>{error, model, status}\<close> whose \<open>error\<close> field is the text of the upstream body.
  That body is never the text of the upstream body, so for a body of well-formed UTF-8 it
  is never the upstream body; and the pending updates still hold token counts only.
\<close>

theorem upstreamResponded_error_status:
  assumes "statusCode < 200 \<or> statusCode \<ge> 300"
    and "pendingTokensOnly (ps_logger st)"
    and "\<not> cr_headersSent clientResp"
  shows "\<exists>entry.
      logLines (ps_logger (fst (upstreamResponded numStr jsonParse bufferToString now ctx
                  statusCode upstreamHeaders chunks (st, clientResp))))
        = logLines (ps_logger st) @ [entry]
    \<and> le_requestId entry = Some (rc_requestId ctx)
    \<and> le_status entry = Some statusCode
    \<and> le_promptTokens entry = Some (rc_promptTokens ctx)
    \<and> le_completionTokens entry = Some 0
    \<and> cr_statusCode (snd (upstreamResponded numStr jsonParse bufferToString now ctx statusCode
                  upstreamHeaders chunks (st, clientResp))) = Some statusCode
    \<and> cr_body (snd (upstreamResponded numStr jsonParse bufferToString now ctx statusCode
                  upstreamHeaders chunks (st, clientResp)))
        = errorResponseJson numStr (bufferToString (concat chunks))
            (case rc_actualModelName ctx of None \<Rightarrow> JStr [] | Some m \<Rightarrow> m) statusCode
    \<and> cr_body (snd (upstreamResponded numStr jsonParse bufferToString now ctx statusCode
                  upstreamHeaders chunks (st, clientResp))) \<noteq> bufferToString (concat chunks)
    \<and> (bufferToString (concat chunks) = concat chunks \<longrightarrow>
          cr_body (snd (upstreamResponded numStr jsonParse bufferToString now ctx statusCode
                  upstreamHeaders chunks (st, clientResp))) \<noteq> concat chunks)
    \<and> pendingTokensOnly (ps_logger (fst (upstreamResponded numStr jsonParse bufferToString now
                  ctx statusCode upstreamHeaders chunks (st, clientResp))))"
proof -
  let ?r = "upstreamResponded numStr jsonParse bufferToString now ctx statusCode upstreamHeaders
              chunks (st, clientResp)"
  let ?text = "bufferToString (concat chunks)"
  obtain d where lg: "ps_logger (fst ?r)
    = logResponse now d (Some (AList.update ''x-request-id'' (rc_requestId ctx) upstreamHeaders))
        (rc_requestId ctx) statusCode (Some (rc_promptTokens ctx)) (Some 0) (ps_logger st)"
    using upstreamResponded_error_logger [OF assms(1)] by blast
  let ?e = "last (logLines (ps_logger (fst ?r)))"
  have l1: "logLines (ps_logger (fst ?r)) = logLines (ps_logger st) @ [?e]"
    unfolding lg by (rule logResponse_lines)
  have l2: "le_requestId ?e = Some (rc_requestId ctx)" "le_status ?e = Some statusCode"
    unfolding lg by (rule logResponse_last_fields_tokensOnly [OF assms(2)])+
  have l3: "le_promptTokens ?e = Some (rc_promptTokens ctx)" "le_completionTokens ?e = Some 0"
    unfolding lg by (rule logResponse_last_tokens)+
  have cl: "snd ?r = handleErrorResponse numStr clientResp ?text (rc_actualModelName ctx)
        statusCode (map_of (AList.update ''x-request-id'' (rc_requestId ctx) upstreamHeaders)
           ''content-type'')"
    by (rule upstreamResponded_error_client [OF assms(1)])
  have c1: "cr_statusCode (snd ?r) = Some statusCode"
    unfolding cl using assms(3) by (simp add: handleErrorResponse_def Let_def)
  have c2: "cr_body (snd ?r) = errorResponseJson numStr ?text
            (case rc_actualModelName ctx of None \<Rightarrow> JStr [] | Some m \<Rightarrow> m) statusCode"
    unfolding cl using assms(3) by (simp add: handleErrorResponse_def Let_def)
  have c3: "cr_body (snd ?r) \<noteq> ?text"
    unfolding c2 by (rule errorResponseJson_differs)
  have c4: "?text = concat chunks \<longrightarrow> cr_body (snd ?r) \<noteq> concat chunks"
  proof
    assume h: "?text = concat chunks"
    from c3 show "cr_body (snd ?r) \<noteq> concat chunks" unfolding h .
  qed
  have i: "pendingTokensOnly (ps_logger (fst ?r))"
    by (rule pendingTokensOnly_upstreamResponded [OF assms(2)])
  from l1 l2 l3 c1 c2 c3 c4 i show ?thesis by blast
qed

text \<open>
  C1 as stated fails on the spec's own scenario: upstream answers 503 with the body
  \<open>{"error":"overloaded"}\<close>, which is ASCII and which the decoder leaves as it is; the
  client gets status 503 and a body that wraps the upstream body, quoted, in an error
  object.
\<close>

theorem upstreamResponded_wraps_body:
  \<open>cr_statusCode (snd (upstreamResponded (showNat \<circ> nat \<circ> floor)
       (map_of [(''{"error":"overloaded"}'', JObj [(''error'', JStr ''overloaded'')])])
       (\<lambda>bytes. bytes) ''2025-01-01T00:00:01.000Z''
       \<lparr>rc_requestId = ''id-1'', rc_actualModelName = Some (JStr ''gpt-oss:20b''),
        rc_promptTokens = 2, rc_completionTokens = 0\<rparr>
       503 [(''content-type'', ''application/json'')] [''{"error":"overloaded"}'']
       (\<lparr>ps_logger = \<lparr>pendingLogs = [(''id-1'', emptyEntry)], logLines = []\<rparr>,
         ps_requestDataCache = [], ps_responseDataCache = []\<rparr>,
        \<lparr>cr_headersSent = False, cr_statusCode = None, cr_headers = [], cr_body = [],
         cr_destroyed = False\<rparr>))) = Some 503
   \<and> cr_body (snd (upstreamResponded (showNat \<circ> nat \<circ> floor)
       (map_of [(''{"error":"overloaded"}'', JObj [(''error'', JStr ''overloaded'')])])
       (\<lambda>bytes. bytes) ''2025-01-01T00:00:01.000Z''
       \<lparr>rc_requestId = ''id-1'', rc_actualModelName = Some (JStr ''gpt-oss:20b''),
        rc_promptTokens = 2, rc_completionTokens = 0\<rparr>
       503 [(''content-type'', ''application/json'')] [''{"error":"overloaded"}'']
       (\<lparr>ps_logger = \<lparr>pendingLogs = [(''id-1'', emptyEntry)], logLines = []\<rparr>,
         ps_requestDataCache = [], ps_responseDataCache = []\<rparr>,
        \<lparr>cr_headersSent = False, cr_statusCode = None, cr_headers = [], cr_body = [],
         cr_destroyed = False\<rparr>)))
     = ''{"error":"{'' @ CHR 0x5C # ''"error'' @ CHR 0x5C # ''":'' @ CHR 0x5C # ''"overloaded''
         @ CHR 0x5C # ''"}","model":"gpt-oss:20b","status":503}''
   \<and> cr_body (snd (upstreamResponded (showNat \<circ> nat \<circ> floor)
       (map_of [(''{"error":"overloaded"}'', JObj [(''error'', JStr ''overloaded'')])])
       (\<lambda>bytes. bytes) ''2025-01-01T00:00:01.000Z''
       \<lparr>rc_requestId = ''id-1'', rc_actualModelName = Some (JStr ''gpt-oss:20b''),
        rc_promptTokens = 2, rc_completionTokens = 0\<rparr>
       503 [(''content-type'', ''application/json'')] [''{"error":"overloaded"}'']
       (\<lparr>ps_logger = \<lparr>pendingLogs = [(''id-1'', emptyEntry)], logLines = []\<rparr>,
         ps_requestDataCache = [], ps_responseDataCache = []\<rparr>,
        \<lparr>cr_headersSent = False, cr_statusCode = None, cr_headers = [], cr_body = [],
         cr_destroyed = False\<rparr>)))
     \<noteq> ''{"error":"overloaded"}''\<close>
  by code_simp

theorem upstreamResponded_error_status_witness:
  \<open>cr_statusCode (snd (upstreamResponded (showNat \<circ> nat \<circ> floor) Map.empty (\<lambda>bytes. bytes)
       ''2025-01-01T00:00:03.000Z''
       \<lparr>rc_requestId = ''id-2'', rc_actualModelName = Some (JStr ''qwen-max''),
        rc_promptTokens = 4, rc_completionTokens = 0\<rparr>
       429 [(''content-type'', ''text/plain'')] [''rate '', ''limited'']
       (\<lparr>ps_logger = \<lparr>pendingLogs = [(''id-2'', emptyEntry\<lparr>le_promptTokens := Some 4\<rparr>)],
                       logLines = []\<rparr>,
         ps_requestDataCache = [], ps_responseDataCache = []\<rparr>,
        \<lparr>cr_headersSent = False, cr_statusCode = None, cr_headers = [], cr_body = [],
         cr_destroyed = False\<rparr>))) = Some 429
   \<and> map le_status (logLines (ps_logger (fst (upstreamResponded (showNat \<circ> nat \<circ> floor)
       Map.empty (\<lambda>bytes. bytes) ''2025-01-01T00:00:03.000Z''
       \<lparr>rc_requestId = ''id-2'', rc_actualModelName = Some (JStr ''qwen-max''),
        rc_promptTokens = 4, rc_completionTokens = 0\<rparr>
       429 [(''content-type'', ''text/plain'')] [''rate '', ''limited'']
       (\<lparr>ps_logger = \<lparr>pendingLogs = [(''id-2'', emptyEntry\<lparr>le_promptTokens := Some 4\<rparr>)],
                       logLines = []\<rparr>,
         ps_requestDataCache = [], ps_responseDataCache = []\<rparr>,
        \<lparr>cr_headersSent = False, cr_statusCode = None, cr_headers = [], cr_body = [],
         cr_destroyed = False\<rparr>))))) = [Some 429]
   \<and> map le_completionTokens (logLines (ps_logger (fst (upstreamResponded
       (showNat \<circ> nat \<circ> floor) Map.empty (\<lambda>bytes. bytes) ''2025-01-01T00:00:03.000Z''
       \<lparr>rc_requestId = ''id-2'', rc_actualModelName = Some (JStr ''qwen-max''),
        rc_promptTokens = 4, rc_completionTokens = 0\<rparr>
       429 [(''content-type'', ''text/plain'')] [''rate '', ''limited'']
       (\<lparr>ps_logger = \<lparr>pendingLogs = [(''id-2'', emptyEntry\<lparr>le_promptTokens := Some 4\<rparr>)],
                       logLines = []\<rparr>,
         ps_requestDataCache = [], ps_responseDataCache = []\<rparr>,
        \<lparr>cr_headersSent = False, cr_statusCode = None, cr_headers = [], cr_body = [],
         cr_destroyed = False\<rparr>))))) = [Some 0]
   \<and> cr_body (snd (upstreamResponded (showNat \<circ> nat \<circ> floor) Map.empty (\<lambda>bytes. bytes)
       ''2025-01-01T00:00:03.000Z''
       \<lparr>rc_requestId = ''id-2'', rc_actualModelName = Some (JStr ''qwen-max''),
        rc_promptTokens = 4, rc_completionTokens = 0\<rparr>
       429 [(''content-type'', ''text/plain'')] [''rate '', ''limited'']
       (\<lparr>ps_logger = \<lparr>pendingLogs = [(''id-2'', emptyEntry\<lparr>le_promptTokens := Some 4\<rparr>)],
                       logLines = []\<rparr>,
         ps_requestDataCache = [], ps_responseDataCache = []\<rparr>,
        \<lparr>cr_headersSent = False, cr_statusCode = None, cr_headers = [], cr_body = [],
         cr_destroyed = False\<rparr>)))
     = ''{"error":"rate limited","model":"qwen-max","status":429}''\<close>
proof -
  let ?ctx = "\<lparr>rc_requestId = ''id-2'', rc_actualModelName = Some (JStr ''qwen-max''),
        rc_promptTokens = 4, rc_completionTokens = 0\<rparr>"
  let ?st = "\<lparr>ps_logger = \<lparr>pendingLogs = [(''id-2'', emptyEntry\<lparr>le_promptTokens := Some 4\<rparr>)],
                       logLines = []\<rparr>,
         ps_requestDataCache = [], ps_responseDataCache = []\<rparr>"
  let ?resp = "\<lparr>cr_headersSent = False, cr_statusCode = None, cr_headers = [], cr_body = [],
         cr_destroyed = False\<rparr>"
  let ?r = "upstreamResponded (showNat \<circ> nat \<circ> floor) Map.empty (\<lambda>bytes. bytes)
          ''2025-01-01T00:00:03.000Z'' ?ctx 429 [(''content-type'', ''text/plain'')]
          [''rate '', ''limited''] (?st, ?resp)"
  have h1: "(429::nat) < 200 \<or> (429::nat) \<ge> 300" by simp
  have h2: "pendingTokensOnly (ps_logger ?st)"
    by (simp add: pendingTokensOnly_def tokensOnly_def emptyEntry_def)
  have h3: "\<not> cr_headersSent ?resp" by simp
  obtain entry where
    l: "logLines (ps_logger (fst ?r)) = logLines (ps_logger ?st) @ [entry]"
    and e: "le_status entry = Some 429" "le_completionTokens entry = Some 0"
    and c: "cr_statusCode (snd ?r) = Some 429"
    and b: "cr_body (snd ?r)
        = errorResponseJson (showNat \<circ> nat \<circ> floor) (concat [''rate '', ''limited''])
            (case rc_actualModelName ?ctx of None \<Rightarrow> JStr [] | Some m \<Rightarrow> m) 429"
    using upstreamResponded_error_status [OF h1 h2 h3, of "showNat \<circ> nat \<circ> floor" Map.empty
        "\<lambda>bytes. bytes" "''2025-01-01T00:00:03.000Z''" ?ctx "[(''content-type'', ''text/plain'')]"
        "[''rate '', ''limited'']"]
    by blast
  have l': "logLines (ps_logger (fst ?r)) = [entry]"
    using l by simp
  have j: \<open>errorResponseJson (showNat \<circ> nat \<circ> floor) (concat [''rate '', ''limited''])
            (case rc_actualModelName ?ctx of None \<Rightarrow> JStr [] | Some m \<Rightarrow> m) 429
      = ''{"error":"rate limited","model":"qwen-max","status":429}''\<close>
    by code_simp
  show ?thesis
    unfolding l' b j using c e by simp
qed

subsection \<open>Model resolution\<close>

lemma jsIncludes_infix: "jsIncludes (a @ sub @ b) sub"
proof -
  have "length a \<in> set [0..<Suc (length (a @ sub @ b))]" by simp
  moreover have "take (length sub) (drop (length a) (a @ sub @ b)) = sub" by simp
  ultimately show ?thesis unfolding jsIncludes_def list_ex_iff by blast
qed

lemma jsonEscape_unknown_model:
  "concat (map jsonEscape ''Unsupported or Unknown Model'') = ''Unsupported or Unknown Model''"
  by (simp add: jsonEscape_def)

lemma jsonQuote_append:
  "jsonQuote (s @ t) = [CHR 0x22] @ concat (map jsonEscape s) @ (concat (map jsonEscape t) @ [CHR 0x22])"
  by (simp add: jsonQuote_def)

lemma errorResponseJson_shape:
  "\<exists>b. errorResponseJson numStr msg m status = (''{'' @ jsonQuote ''error'' @ '':'') @ jsonQuote msg @ b"
  by (simp add: errorResponseJson_def joinWith_Cons)

lemma errorResponseJson_includes:
  "jsIncludes (errorResponseJson numStr (''Unsupported or Unknown Model'' @ t) m status)
     ''Unsupported or Unknown Model''"
proof -
  define sub where "sub = ''Unsupported or Unknown Model''"
  obtain b where b: "errorResponseJson numStr (sub @ t) m status
      = (''{'' @ jsonQuote ''error'' @ '':'') @ jsonQuote (sub @ t) @ b"
    using errorResponseJson_shape by blast
  have e: "concat (map jsonEscape sub) = sub"
    unfolding sub_def by (rule jsonEscape_unknown_model)
  have "errorResponseJson numStr (sub @ t) m status
      = ((''{'' @ jsonQuote ''error'' @ '':'') @ [CHR 0x22]) @ sub
          @ ((concat (map jsonEscape t) @ [CHR 0x22]) @ b)"
    unfolding b jsonQuote_append e by (simp only: append_assoc)
  then have "jsIncludes (errorResponseJson numStr (sub @ t) m status) sub"
    by (simp only: jsIncludes_infix)
  then show ?thesis unfolding sub_def .
qed

lemma modelGuard_registered:
  "map_of table s = Some config \<Longrightarrow> s \<noteq> [] \<Longrightarrow>
   modelGuard numStr table (Some (JStr s)) = Inr config"
  by (simp add: modelGuard_def)

lemma modelGuard_rejects:
  "map_of table s = None \<Longrightarrow> s \<notin> set objectPrototypeKeys \<Longrightarrow>
   modelGuard numStr table (Some (JStr s)) = Inl (Error (''Unsupported or Unknown Model: '' @ s))"
  by (simp add: modelGuard_def)

lemma modelGuard_absent:
  "modelGuard numStr table None = Inl (Error ''Unsupported or Unknown Model: undefined'')"
  by (simp add: modelGuard_def)

lemma rejection_response:
  assumes "\<not> cr_headersSent clientResp"
  shows "cr_statusCode (handleChatCompletionsCatch numStr clientResp
            (''Unsupported or Unknown Model: '' @ s) (Some (JStr ''unknown''))) = Some 500"
    and "jsIncludes (cr_body (handleChatCompletionsCatch numStr clientResp
            (''Unsupported or Unknown Model: '' @ s) (Some (JStr ''unknown''))))
          ''Unsupported or Unknown Model''"
proof -
  have body: "cr_body (handleChatCompletionsCatch numStr clientResp msg (Some (JStr ''unknown'')))
      = errorResponseJson numStr msg (JStr ''unknown'') 500" for msg
    using assms by (simp add: handleChatCompletionsCatch_def handleErrorResponse_def Let_def)
  show "cr_statusCode (handleChatCompletionsCatch numStr clientResp
            (''Unsupported or Unknown Model: '' @ s) (Some (JStr ''unknown''))) = Some 500"
    using assms by (simp add: handleChatCompletionsCatch_def handleErrorResponse_def Let_def)
  have split: "''Unsupported or Unknown Model: '' @ s = ''Unsupported or Unknown Model'' @ ('': '' @ s)"
    by simp
  show "jsIncludes (cr_body (handleChatCompletionsCatch numStr clientResp
            (''Unsupported or Unknown Model: '' @ s) (Some (JStr ''unknown''))))
          ''Unsupported or Unknown Model''"
    unfolding body split by (rule errorResponseJson_includes)
qed

text \<open>
  C4 (the code departs from the claim). A key of the registry resolves to its entry
  (\<open>modelGuard_registered\<close>), and a string that is neither a key nor a member name of
  \<open>Object.prototype\<close> is rejected with the Unsupported-or-Unknown-Model error and status
  500 (\<open>modelGuard_rejects\<close>, \<open>rejection_response\<close>). But the identifier \<open>constructor\<close>, no
  key of the registry, passes the guard: the read of the table falls through to the
  prototype, and the handler goes on with a configuration whose four fields are all
  \<open>undefined\<close>.
\<close>

theorem modelGuard_inherited_key:
  "modelGuard (showNat \<circ> nat \<circ> floor)
     [(''ollama/gpt-oss'',
       \<lparr>mc_baseUrl = Some (JStr ''http://localhost:11434''),
        mc_completionsPath = Some (JStr ''/v1/chat/completions''),
        mc_modelName = Some (JStr ''gpt-oss:20b''), mc_temperature = Some (JNum (1 / 10))\<rparr>)]
     (Some (JStr ''constructor''))
   = Inr \<lparr>mc_baseUrl = None, mc_completionsPath = None, mc_modelName = None,
          mc_temperature = None\<rparr>"
  by code_simp

subsection \<open>Header rules\<close>

lemma jsGet_own: "key \<notin> set objectPrototypeKeys \<Longrightarrow> jsGet obj key = map_of obj key"
  by (simp add: jsGet_def split: option.splits)

lemma placeholderValue_unshadowed:
  "map_of providerConfig ''hasOwnProperty'' = None \<Longrightarrow>
   placeholderValue numStr providerConfig name =
     (case map_of providerConfig name of Some v \<Rightarrow> jsString numStr v | None \<Rightarrow> Inr [])"
  by (simp add: placeholderValue_def jsGet_def objectPrototypeKeys_def split: option.splits)

lemma placeholderValue_total:
  assumes "map_of providerConfig ''hasOwnProperty'' = None"
    and "\<forall>name v. map_of providerConfig name = Some v \<longrightarrow> (\<exists>s. jsString numStr v = Inr s)"
  shows "\<forall>name. \<exists>s. placeholderValue numStr providerConfig name = Inr s"
proof
  fix name
  show "\<exists>s. placeholderValue numStr providerConfig name = Inr s"
    using assms(2) [rule_format, of name]
    by (cases "map_of providerConfig name") (simp_all add: placeholderValue_unshadowed [OF assms(1)])
qed

lemma replacePlaceholders_total:
  "\<forall>name. \<exists>s. f name = Inr s \<Longrightarrow> \<exists>s. replacePlaceholders f v = Inr s"
proof (induction f v rule: replacePlaceholders.induct)
  case (1 replacer)
  show ?case by simp
next
  case (2 replacer c cs)
  show ?case
  proof (cases "c = CHR ''{'' \<and> takeWhile (\<lambda>x. x \<noteq> CHR ''}'') cs \<noteq> []
         \<and> dropWhile (\<lambda>x. x \<noteq> CHR ''}'') cs \<noteq> []")
    case True
    obtain r where r: "replacer (takeWhile (\<lambda>x. x \<noteq> CHR ''}'') cs) = Inr r"
      using "2.prems" by blast
    obtain rest where "replacePlaceholders replacer (tl (dropWhile (\<lambda>x. x \<noteq> CHR ''}'') cs))
        = Inr rest"
      using "2.IH"(1) [OF True r "2.prems"] by blast
    with True r show ?thesis by simp
  next
    case False
    obtain rest where "replacePlaceholders replacer cs = Inr rest"
      using "2.IH"(2) [OF False "2.prems"] by blast
    with False show ?thesis by auto
  qed
qed

lemma replacePlaceholders_plain:
  "CHR ''{'' \<notin> set s \<Longrightarrow> replacePlaceholders f s = Inr s"
  by (induction s) auto

lemma replacePlaceholders_match:
  assumes "CHR ''{'' \<notin> set pre" "name \<noteq> []" "CHR ''}'' \<notin> set name"
    and "f name = Inr v" "replacePlaceholders f post = Inr rest"
  shows "replacePlaceholders f (pre @ ''{'' @ name @ ''}'' @ post) = Inr (pre @ v @ rest)"
  using assms(1)
proof (induction pre)
  case Nil
  have ne: "\<And>x. x \<in> set name \<Longrightarrow> x \<noteq> CHR ''}''"
    using assms(3) by auto
  have t: "takeWhile (\<lambda>x. x \<noteq> CHR ''}'') (name @ CHR ''}'' # post) = name"
    by (simp add: takeWhile_append2 [of name "\<lambda>x. x \<noteq> CHR ''}''", OF ne])
  have d: "dropWhile (\<lambda>x. x \<noteq> CHR ''}'') (name @ CHR ''}'' # post) = CHR ''}'' # post"
    by (simp add: dropWhile_append2 [of name "\<lambda>x. x \<noteq> CHR ''}''", OF ne])
  show ?case
    using assms(2,4,5) by (simp add: t d)
next
  case (Cons c pre)
  then show ?case by auto
qed

lemma replacePlaceholders_throws:
  assumes "CHR ''{'' \<notin> set pre" "name \<noteq> []" "CHR ''}'' \<notin> set name"
    and "f name = Inl e"
  shows "replacePlaceholders f (pre @ ''{'' @ name @ ''}'' @ post) = Inl e"
  using assms(1)
proof (induction pre)
  case Nil
  have ne: "\<And>x. x \<in> set name \<Longrightarrow> x \<noteq> CHR ''}''"
    using assms(3) by auto
  have t: "takeWhile (\<lambda>x. x \<noteq> CHR ''}'') (name @ CHR ''}'' # post) = name"
    by (simp add: takeWhile_append2 [of name "\<lambda>x. x \<noteq> CHR ''}''", OF ne])
  have d: "dropWhile (\<lambda>x. x \<noteq> CHR ''}'') (name @ CHR ''}'' # post) = CHR ''}'' # post"
    by (simp add: dropWhile_append2 [of name "\<lambda>x. x \<noteq> CHR ''}''", OF ne])
  show ?case
    using assms(2,4) by (simp add: t d)
next
  case (Cons c pre)
  then show ?case by auto
qed

lemma setProp_update: "key \<noteq> ''__proto__'' \<Longrightarrow> setProp key v obj = AList.update key v obj"
  by (simp add: setProp_def)

lemma addRules_typed:
  assumes "\<forall>name. \<exists>s. placeholderValue numStr providerConfig name = Inr s"
  shows "\<forall>n \<in> set (map fst addR). n \<noteq> ''__proto__'' \<Longrightarrow>
    \<exists>added. addRules numStr providerConfig (map (apsnd JStr) addR) headers = Inr added
      \<and> (\<forall>k. map_of added k =
            (case map_of (rev addR) k of
               None \<Rightarrow> map_of headers k
             | Some v \<Rightarrow>
                 (case replacePlaceholders (placeholderValue numStr providerConfig) v of
                    Inr s \<Rightarrow> Some (JStr s)
                  | Inl e \<Rightarrow> None)))"
proof (induction addR arbitrary: headers)
  case Nil
  show ?case by simp
next
  case (Cons rule addR)
  obtain n v where rule: "rule = (n, v)" by (cases rule)
  have n: "n \<noteq> ''__proto__''" using Cons.prems by (simp add: rule)
  obtain s where s: "replacePlaceholders (placeholderValue numStr providerConfig) v = Inr s"
    using replacePlaceholders_total [OF assms] by blast
  obtain added where a: "addRules numStr providerConfig (map (apsnd JStr) addR)
        (AList.update n (JStr s) headers) = Inr added"
    and m: "\<forall>k. map_of added k =
            (case map_of (rev addR) k of
               None \<Rightarrow> map_of (AList.update n (JStr s) headers) k
             | Some v \<Rightarrow>
                 (case replacePlaceholders (placeholderValue numStr providerConfig) v of
                    Inr s \<Rightarrow> Some (JStr s)
                  | Inl e \<Rightarrow> None))"
    using Cons.IH [of "AList.update n (JStr s) headers"] Cons.prems by auto
  have "addRules numStr providerConfig (map (apsnd JStr) (rule # addR)) headers = Inr added"
    by (simp add: rule s setProp_update [OF n] a)
  moreover have "map_of added k =
            (case map_of (rev (rule # addR)) k of
               None \<Rightarrow> map_of headers k
             | Some v \<Rightarrow>
                 (case replacePlaceholders (placeholderValue numStr providerConfig) v of
                    Inr s \<Rightarrow> Some (JStr s)
                  | Inl e \<Rightarrow> None))" for k
    using m [rule_format, of k] s
    by (cases "map_of (rev addR) k")
       (simp_all add: rule map_of_append AList.update_conv' map_add_def)
  ultimately show ?case by blast
qed

lemma replaceRules_typed:
  "\<forall>rule \<in> set repR. fst rule \<notin> set objectPrototypeKeys \<and> snd rule \<noteq> ''__proto__'' \<Longrightarrow>
   replaceRules numStr (map (apsnd JStr) repR) headers =
     Inr (fold (\<lambda>rule h. case map_of h (fst rule) of
                            None \<Rightarrow> h
                          | Some v \<Rightarrow> if truthy (Some v)
                                     then AList.delete (fst rule) (AList.update (snd rule) v h)
                                     else h) repR headers)"
proof (induction repR arbitrary: headers)
  case Nil
  show ?case by simp
next
  case (Cons rule repR)
  obtain src dst where rule: "rule = (src, dst)" by (cases rule)
  have src: "src \<notin> set objectPrototypeKeys" and dst: "dst \<noteq> ''__proto__''"
    using Cons.prems by (simp_all add: rule)
  have rest: "\<forall>rule \<in> set repR. fst rule \<notin> set objectPrototypeKeys \<and> snd rule \<noteq> ''__proto__''"
    using Cons.prems by simp
  show ?case
  proof (cases "map_of headers src")
    case None
    then show ?thesis
      by (simp add: rule jsGet_own [OF src] Cons.IH [OF rest])
  next
    case (Some v)
    then show ?thesis
      by (cases "truthy (Some v)")
         (simp_all add: rule jsGet_own [OF src] setProp_update [OF dst] Cons.IH [OF rest])
  qed
qed

lemma removeRules_fold:
  "removeRules numStr (map JStr remR) headers =
     Inr (fold (\<lambda>n h. if truthy (jsGet h n) then AList.delete n h else h) remR headers)"
  by (induction remR arbitrary: headers) simp_all

lemma removeRules_typed:
  "map_of (fold (\<lambda>n h. if truthy (jsGet h n) then AList.delete n h else h) remR headers) k =
     (if k \<in> set remR \<and> truthy (map_of headers k) then None else map_of headers k)"
proof (induction remR arbitrary: headers)
  case Nil
  show ?case by simp
next
  case (Cons n remR)
  let ?h = "if truthy (jsGet headers n) then AList.delete n headers else headers"
  have step: "map_of ?h k = (if k = n \<and> truthy (map_of headers n) then None else map_of headers k)"
    by (cases "map_of headers n")
       (auto simp: jsGet_def AList.delete_conv')
  have "map_of (fold (\<lambda>n h. if truthy (jsGet h n) then AList.delete n h else h) (n # remR)
                  headers) k =
      map_of (fold (\<lambda>n h. if truthy (jsGet h n) then AList.delete n h else h) remR ?h) k"
    by simp
  also have "\<dots> = (if k \<in> set remR \<and> truthy (map_of ?h k) then None else map_of ?h k)"
    by (rule Cons.IH)
  also have "\<dots> = (if k \<in> set (n # remR) \<and> truthy (map_of headers k) then None
                    else map_of headers k)"
    unfolding step by auto
  finally show ?case .
qed

lemma addPhase_typed:
  assumes "map_of rules ''add'' = Some (JObj addObj) \<and> ownEntries addObj = map (apsnd JStr) addR
           \<or> map_of rules ''add'' = None \<and> addR = []"
  shows "addPhase numStr providerConfig (JObj rules) headers =
           addRules numStr providerConfig (map (apsnd JStr) addR) headers"
  using assms by (auto simp: addPhase_def jsGet_def objectPrototypeKeys_def)

lemma replacePhase_typed:
  assumes "map_of rules ''replace'' = Some (JObj repObj)
             \<and> ownEntries repObj = map (apsnd JStr) repR
           \<or> map_of rules ''replace'' = None \<and> repR = []"
  shows "replacePhase numStr (JObj rules) headers =
           replaceRules numStr (map (apsnd JStr) repR) headers"
  using assms by (auto simp: replacePhase_def jsGet_def objectPrototypeKeys_def)

lemma removePhase_typed:
  assumes "map_of rules ''remove'' = Some (JArr (map JStr remR))
           \<or> map_of rules ''remove'' = None \<and> remR = []"
  shows "removePhase numStr (JObj rules) headers =
           removeRules numStr (map JStr remR) headers"
  using assms by (auto simp: removePhase_def jsGet_def objectPrototypeKeys_def)

lemma customHeaders_typed:
  assumes "map_of providerConfig ''customHeader'' = Some (JObj rules)"
    and "addPhase numStr providerConfig (JObj rules) (ro_headers options) = Inr added"
    and "replacePhase numStr (JObj rules) added = Inr replaced"
    and "removePhase numStr (JObj rules) replaced = Inr removed"
  shows "customHeaders numStr options providerConfig = Inr (options\<lparr>ro_headers := removed\<rparr>)"
proof -
  have c: "jsGet providerConfig ''customHeader'' = Some (JObj rules)"
    using assms(1) by (simp add: jsGet_def)
  show ?thesis
    unfolding customHeaders_def c by (simp add: assms(2-4))
qed

text \<open>Outside the hypotheses of the next theorem the transform can throw: when the
  provider record has a property \<open>hasOwnProperty\<close> of its own, and when a placeholder names
  a property that does not convert to a string.\<close>

lemma customHeaders_shadowed:
  "customHeaders (showNat \<circ> nat \<circ> floor)
     \<lparr>ro_headers = [], ro_rejectUnauthorized = False, ro_ca = None\<rparr>
     [(''hasOwnProperty'', JObj [(''modelName'', JStr ''m'')]),
      (''customHeader'', JObj [(''add'', JObj [(''x-key'', JStr ''{apiKey}'')])])]
   = Inl TypeError"
  by (simp add: customHeaders_def addPhase_def replacePhase_def removePhase_def jsGet_def
      objectPrototypeKeys_def setProp_def placeholderValue_def ownEntries_def isArrayIndex_def)

lemma customHeaders_unconvertible:
  "customHeaders (showNat \<circ> nat \<circ> floor)
     \<lparr>ro_headers = [], ro_rejectUnauthorized = False, ro_ca = None\<rparr>
     [(''apiKey'', JObj [(''toString'', JStr ''sk-123'')]),
      (''customHeader'', JObj [(''add'', JObj [(''x-key'', JStr ''{apiKey}'')])])]
   = Inl TypeError"
  by (simp add: customHeaders_def addPhase_def replacePhase_def removePhase_def jsGet_def
      objectPrototypeKeys_def setProp_def placeholderValue_def ownEntries_def isArrayIndex_def)

text \<open>
  C5, as the code has it. Take a provider record whose \<open>customHeader\<close> holds rules of the
  declared types (\<open>add\<close> and \<open>replace\<close> from names to strings, \<open>remove\<close> a list of names, each
  of them optional), that has no property \<open>hasOwnProperty\<close> of its own, whose properties
  all convert to strings, and whose \<open>add\<close> and \<open>replace\<close> rules name no member of
  \<open>Object.prototype\<close>. The rules \<open>addR\<close> and \<open>repR\<close> are the entries of \<open>add\<close> and of \<open>replace\<close>
  in the order in which \<open>Object.entries\<close> lists them. Then \<open>customHeaders\<close> returns without
  an exception, and its header set is that of the add rules, then the replace rules, then
  the remove rules:
  \<^item> after the add rules a name they set holds the value of its last rule with every
    placeholder substituted, and any other name is as it was;
  \<^item> a replace rule copies the value under the source name to the upstream name and
    deletes the source name exactly when the source header holds a truthy value (a
    header that is absent, or present with the empty string, is left as it is);
  \<^item> a remove rule deletes a header that holds a truthy value;
  \<^item> the substitution never throws, leaves a value without an opening brace as it is,
    and replaces the leftmost placeholder \<open>{name}\<close> by the provider's property of that name
    as a string, or by nothing when the provider has no such property.
\<close>

theorem customHeaders_phases:
  assumes "map_of providerConfig ''customHeader'' = Some (JObj rules)"
    and "map_of rules ''add'' = Some (JObj addObj) \<and> ownEntries addObj = map (apsnd JStr) addR
           \<or> map_of rules ''add'' = None \<and> addR = []"
    and "map_of rules ''replace'' = Some (JObj repObj)
             \<and> ownEntries repObj = map (apsnd JStr) repR
           \<or> map_of rules ''replace'' = None \<and> repR = []"
    and "map_of rules ''remove'' = Some (JArr (map JStr remR))
           \<or> map_of rules ''remove'' = None \<and> remR = []"
    and "map_of providerConfig ''hasOwnProperty'' = None"
    and "\<forall>name v. map_of providerConfig name = Some v \<longrightarrow> (\<exists>s. jsString numStr v = Inr s)"
    and "\<forall>n \<in> set (map fst addR). n \<noteq> ''__proto__''"
    and "\<forall>rule \<in> set repR. fst rule \<notin> set objectPrototypeKeys \<and> snd rule \<noteq> ''__proto__''"
  shows "\<exists>added replaced removed.
      customHeaders numStr options providerConfig = Inr (options\<lparr>ro_headers := removed\<rparr>)
    \<and> (\<forall>k. map_of added k =
          (case map_of (rev addR) k of
             None \<Rightarrow> map_of (ro_headers options) k
           | Some v \<Rightarrow>
               (case replacePlaceholders (placeholderValue numStr providerConfig) v of
                  Inr s \<Rightarrow> Some (JStr s)
                | Inl e \<Rightarrow> None)))
    \<and> replaced =
        fold (\<lambda>rule h. case map_of h (fst rule) of
                          None \<Rightarrow> h
                        | Some v \<Rightarrow> if truthy (Some v)
                                   then AList.delete (fst rule) (AList.update (snd rule) v h)
                                   else h) repR added
    \<and> (\<forall>k. map_of removed k =
          (if k \<in> set remR \<and> truthy (map_of replaced k) then None else map_of replaced k))
    \<and> (\<forall>v. \<exists>s. replacePlaceholders (placeholderValue numStr providerConfig) v = Inr s)
    \<and> (\<forall>s. CHR ''{'' \<notin> set s \<longrightarrow>
          replacePlaceholders (placeholderValue numStr providerConfig) s = Inr s)
    \<and> (\<forall>pre name post rest.
          CHR ''{'' \<notin> set pre \<and> name \<noteq> [] \<and> CHR ''}'' \<notin> set name
          \<and> replacePlaceholders (placeholderValue numStr providerConfig) post = Inr rest \<longrightarrow>
          (\<exists>shown.
             (case map_of providerConfig name of
                Some v \<Rightarrow> jsString numStr v | None \<Rightarrow> Inr []) = Inr shown
           \<and> replacePlaceholders (placeholderValue numStr providerConfig)
               (pre @ ''{'' @ name @ ''}'' @ post)
             = Inr (pre @ shown @ rest)))"
proof -
  let ?f = "placeholderValue numStr providerConfig"
  have tot: "\<forall>name. \<exists>s. ?f name = Inr s"
    by (rule placeholderValue_total [OF assms(5) assms(6)])
  obtain added where a: "addRules numStr providerConfig (map (apsnd JStr) addR) (ro_headers options)
        = Inr added"
    and am: "\<forall>k. map_of added k =
          (case map_of (rev addR) k of
             None \<Rightarrow> map_of (ro_headers options) k
           | Some v \<Rightarrow> (case replacePlaceholders ?f v of Inr s \<Rightarrow> Some (JStr s) | Inl e \<Rightarrow> None))"
    using addRules_typed [OF tot assms(7)] by blast
  let ?replaced = "fold (\<lambda>rule h. case map_of h (fst rule) of
                          None \<Rightarrow> h
                        | Some v \<Rightarrow> if truthy (Some v)
                                   then AList.delete (fst rule) (AList.update (snd rule) v h)
                                   else h) repR added"
  let ?removed = "fold (\<lambda>n h. if truthy (jsGet h n) then AList.delete n h else h) remR ?replaced"
  have pa: "addPhase numStr providerConfig (JObj rules) (ro_headers options) = Inr added"
    unfolding addPhase_typed [OF assms(2)] by (rule a)
  have pr: "replacePhase numStr (JObj rules) added = Inr ?replaced"
    unfolding replacePhase_typed [OF assms(3)] by (rule replaceRules_typed [OF assms(8)])
  have pd: "removePhase numStr (JObj rules) ?replaced = Inr ?removed"
    unfolding removePhase_typed [OF assms(4)] by (rule removeRules_fold)
  have c: "customHeaders numStr options providerConfig = Inr (options\<lparr>ro_headers := ?removed\<rparr>)"
    by (rule customHeaders_typed [OF assms(1) pa pr pd])
  have r: "?replaced = ?replaced" by (rule refl)
  have d: "\<forall>k. map_of ?removed k =
          (if k \<in> set remR \<and> truthy (map_of ?replaced k) then None else map_of ?replaced k)"
    by (simp add: removeRules_typed)
  have p0: "\<forall>v. \<exists>s. replacePlaceholders ?f v = Inr s"
    using replacePlaceholders_total [OF tot] by blast
  have p1: "\<forall>s. CHR ''{'' \<notin> set s \<longrightarrow> replacePlaceholders ?f s = Inr s"
    by (simp add: replacePlaceholders_plain)
  have p2: "\<forall>pre name post rest.
          CHR ''{'' \<notin> set pre \<and> name \<noteq> [] \<and> CHR ''}'' \<notin> set name
          \<and> replacePlaceholders ?f post = Inr rest \<longrightarrow>
          (\<exists>shown.
             (case map_of providerConfig name of
                Some v \<Rightarrow> jsString numStr v | None \<Rightarrow> Inr []) = Inr shown
           \<and> replacePlaceholders ?f (pre @ ''{'' @ name @ ''}'' @ post) = Inr (pre @ shown @ rest))"
  proof (intro allI impI)
    fix pre name post rest
    assume h: "CHR ''{'' \<notin> set pre \<and> name \<noteq> [] \<and> CHR ''}'' \<notin> set name
          \<and> replacePlaceholders ?f post = Inr rest"
    obtain shown where v: "?f name = Inr shown"
      using tot by blast
    then have v': "(case map_of providerConfig name of
                Some v \<Rightarrow> jsString numStr v | None \<Rightarrow> Inr []) = Inr shown"
      by (simp add: placeholderValue_unshadowed [OF assms(5)])
    have "replacePlaceholders ?f (pre @ ''{'' @ name @ ''}'' @ post) = Inr (pre @ shown @ rest)"
      using h v by (intro replacePlaceholders_match) simp_all
    with v' show "\<exists>shown.
             (case map_of providerConfig name of
                Some v \<Rightarrow> jsString numStr v | None \<Rightarrow> Inr []) = Inr shown
           \<and> replacePlaceholders ?f (pre @ ''{'' @ name @ ''}'' @ post) = Inr (pre @ shown @ rest)"
      by blast
  qed
  show ?thesis
    by (intro exI [of _ added] exI [of _ ?replaced] exI [of _ ?removed] conjI)
       (rule c, rule am, rule r, rule d, rule p0, rule p1, rule p2)
qed

text \<open>
  C5 as stated fails. A source header that is present with the empty value is neither
  copied nor deleted; and a replace rule whose source is \<open>constructor\<close> writes the upstream
  name although the header set has no such header.
\<close>

theorem customHeaders_truthy_source:
  "customHeaders (showNat \<circ> nat \<circ> floor)
     \<lparr>ro_headers = [(''authorization'', JStr [])], ro_rejectUnauthorized = False, ro_ca = None\<rparr>
     [(''customHeader'', JObj [(''replace'', JObj [(''authorization'', JStr ''x-gateway-apikey'')])])]
   = Inr \<lparr>ro_headers = [(''authorization'', JStr [])], ro_rejectUnauthorized = False,
          ro_ca = None\<rparr>
   \<and> customHeaders (showNat \<circ> nat \<circ> floor)
     \<lparr>ro_headers = [(''accept'', JStr ''*/*'')], ro_rejectUnauthorized = False, ro_ca = None\<rparr>
     [(''customHeader'', JObj [(''replace'', JObj [(''constructor'', JStr ''x-gateway-apikey'')])])]
   = Inr \<lparr>ro_headers = [(''accept'', JStr ''*/*''), (''x-gateway-apikey'', JNative ''constructor'')],
          ro_rejectUnauthorized = False, ro_ca = None\<rparr>"
  by (simp add: customHeaders_def addPhase_def replacePhase_def removePhase_def jsGet_def
      objectPrototypeKeys_def setProp_def ownEntries_def isArrayIndex_def)

theorem customHeaders_phases_witness:
  "\<exists>removed.
     customHeaders (showNat \<circ> nat \<circ> floor)
       \<lparr>ro_headers = [(''Authorization'', JStr ''Bearer xyz''), (''accept-encoding'', JStr ''gzip'')],
        ro_rejectUnauthorized = False, ro_ca = None\<rparr>
       [(''baseUrl'', JStr ''https://gw.example.com''), (''apiKey'', JStr ''sk-123''),
        (''customHeader'',
         JObj [(''add'', JObj [(''Authorization'', JStr ''Bearer {apiKey}'')]),
               (''replace'', JObj [(''Authorization'', JStr ''x-gateway-apikey'')]),
               (''remove'', JArr [JStr ''accept-encoding''])])]
     = Inr \<lparr>ro_headers = removed, ro_rejectUnauthorized = False, ro_ca = None\<rparr>
   \<and> map_of removed ''x-gateway-apikey'' = Some (JStr ''Bearer sk-123'')
   \<and> map_of removed ''Authorization'' = None
   \<and> map_of removed ''accept-encoding'' = None"
proof -
  let ?rules = "[(''add'', JObj [(''Authorization'', JStr ''Bearer {apiKey}'')]),
               (''replace'', JObj [(''Authorization'', JStr ''x-gateway-apikey'')]),
               (''remove'', JArr [JStr ''accept-encoding''])]"
  let ?p = "[(''baseUrl'', JStr ''https://gw.example.com''), (''apiKey'', JStr ''sk-123''),
        (''customHeader'', JObj ?rules)]"
  let ?o = "\<lparr>ro_headers = [(''Authorization'', JStr ''Bearer xyz''),
                            (''accept-encoding'', JStr ''gzip'')],
        ro_rejectUnauthorized = False, ro_ca = None\<rparr>"
  let ?N = "showNat \<circ> nat \<circ> floor"
  have h0: "map_of ?p ''customHeader'' = Some (JObj ?rules)" by simp
  have h1: "map_of ?rules ''add'' = Some (JObj [(''Authorization'', JStr ''Bearer {apiKey}'')])
             \<and> ownEntries [(''Authorization'', JStr ''Bearer {apiKey}'')]
                 = map (apsnd JStr) [(''Authorization'', ''Bearer {apiKey}'')]
           \<or> map_of ?rules ''add'' = None \<and> [(''Authorization'', ''Bearer {apiKey}'')] = []"
    by (simp add: ownEntries_def isArrayIndex_def)
  have h2: "map_of ?rules ''replace'' = Some (JObj [(''Authorization'', JStr ''x-gateway-apikey'')])
             \<and> ownEntries [(''Authorization'', JStr ''x-gateway-apikey'')]
                 = map (apsnd JStr) [(''Authorization'', ''x-gateway-apikey'')]
           \<or> map_of ?rules ''replace'' = None \<and> [(''Authorization'', ''x-gateway-apikey'')] = []"
    by (simp add: ownEntries_def isArrayIndex_def)
  have h3: "map_of ?rules ''remove'' = Some (JArr (map JStr [''accept-encoding'']))
           \<or> map_of ?rules ''remove'' = None \<and> [''accept-encoding''] = []"
    by simp
  have h4: "map_of ?p ''hasOwnProperty'' = None" by simp
  have h5: "\<forall>name v. map_of ?p name = Some v \<longrightarrow> (\<exists>s. jsString ?N v = Inr s)"
    by (auto split: if_splits)
  have h6: "\<forall>n \<in> set (map fst [(''Authorization'', ''Bearer {apiKey}'')]). n \<noteq> ''__proto__''"
    by simp
  have h7: "\<forall>rule \<in> set [(''Authorization'', ''x-gateway-apikey'')].
              fst rule \<notin> set objectPrototypeKeys \<and> snd rule \<noteq> ''__proto__''"
    by (simp add: objectPrototypeKeys_def)
  obtain added replaced removed where
    c: "customHeaders ?N ?o ?p = Inr (?o\<lparr>ro_headers := removed\<rparr>)"
    and a: "\<forall>k. map_of added k =
          (case map_of (rev [(''Authorization'', ''Bearer {apiKey}'')]) k of
             None \<Rightarrow> map_of (ro_headers ?o) k
           | Some v \<Rightarrow>
               (case replacePlaceholders (placeholderValue ?N ?p) v of
                  Inr s \<Rightarrow> Some (JStr s)
                | Inl e \<Rightarrow> None))"
    and r: "replaced =
        fold (\<lambda>rule h. case map_of h (fst rule) of
                          None \<Rightarrow> h
                        | Some v \<Rightarrow> if truthy (Some v)
                                   then AList.delete (fst rule) (AList.update (snd rule) v h)
                                   else h) [(''Authorization'', ''x-gateway-apikey'')] added"
    and d: "\<forall>k. map_of removed k =
          (if k \<in> set [''accept-encoding''] \<and> truthy (map_of replaced k) then None
           else map_of replaced k)"
    and p2: "\<forall>pre name post rest.
          CHR ''{'' \<notin> set pre \<and> name \<noteq> [] \<and> CHR ''}'' \<notin> set name
          \<and> replacePlaceholders (placeholderValue ?N ?p) post = Inr rest \<longrightarrow>
          (\<exists>shown.
             (case map_of ?p name of Some v \<Rightarrow> jsString ?N v | None \<Rightarrow> Inr []) = Inr shown
           \<and> replacePlaceholders (placeholderValue ?N ?p) (pre @ ''{'' @ name @ ''}'' @ post)
             = Inr (pre @ shown @ rest))"
    using customHeaders_phases [OF h0 h1 h2 h3 h4 h5 h6 h7, of ?o] by blast
  obtain shown where
    v: "(case map_of ?p ''apiKey'' of Some v \<Rightarrow> jsString ?N v | None \<Rightarrow> Inr []) = Inr shown"
    and rp: "replacePlaceholders (placeholderValue ?N ?p) (''Bearer '' @ ''{'' @ ''apiKey'' @ ''}'' @ [])
      = Inr (''Bearer '' @ shown @ [])"
    using p2 [rule_format, of "''Bearer ''" "''apiKey''" "[]" "[]"] by auto
  have "shown = ''sk-123''" using v by simp
  with rp have s: "replacePlaceholders (placeholderValue ?N ?p) ''Bearer {apiKey}'' = Inr ''Bearer sk-123''"
    by simp
  have m: "map_of (rev [(''Authorization'', ''Bearer {apiKey}'')]) ''Authorization''
      = Some ''Bearer {apiKey}''"
    by simp
  have a1: "map_of added ''Authorization'' = Some (JStr ''Bearer sk-123'')"
    using a [rule_format, of "''Authorization''"]
    unfolding m option.case s sum.case .
  have a2: "map_of added ''accept-encoding'' = Some (JStr ''gzip'')"
    using a [rule_format, of "''accept-encoding''"] by simp
  have r': "replaced = AList.delete ''Authorization''
               (AList.update ''x-gateway-apikey'' (JStr ''Bearer sk-123'') added)"
    unfolding r by (simp add: a1)
  have r1: "map_of replaced ''x-gateway-apikey'' = Some (JStr ''Bearer sk-123'')"
    and r2: "map_of replaced ''Authorization'' = None"
    and r3: "map_of replaced ''accept-encoding'' = Some (JStr ''gzip'')"
    unfolding r' by (simp_all add: AList.delete_conv' AList.update_conv' a2)
  have d1: "map_of removed ''x-gateway-apikey'' = Some (JStr ''Bearer sk-123'')"
    using d [rule_format, of "''x-gateway-apikey''"] by (simp add: r1)
  have d2: "map_of removed ''Authorization'' = None"
    using d [rule_format, of "''Authorization''"] by (simp add: r2)
  have d3: "map_of removed ''accept-encoding'' = None"
    using d [rule_format, of "''accept-encoding''"] by (simp add: r3)
  have c': "customHeaders ?N ?o ?p
      = Inr \<lparr>ro_headers = removed, ro_rejectUnauthorized = False, ro_ca = None\<rparr>"
    using c by simp
  from c' d1 d2 d3 show ?thesis by blast
qed

subsection \<open>The cache entries of a streamed request\<close>

lemma storeRequestData_stored:
  "storeRequestData numStr now requestId body model cache = (Inr d, cache')
   \<Longrightarrow> map_of cache' requestId = Some d"
proof (cases "promptTextOf numStr body")
  case (Inl e)
  assume "storeRequestData numStr now requestId body model cache = (Inr d, cache')"
  with Inl show ?thesis by (simp add: storeRequestData_def)
next
  case (Inr t)
  assume "storeRequestData numStr now requestId body model cache = (Inr d, cache')"
  with Inr have "cache' = AList.update requestId d (evictFirst cache)"
    by (auto simp: storeRequestData_def Let_def)
  then show ?thesis by (simp add: AList.update_conv')
qed

lemma processRequestData_stored:
  assumes "processRequestData numStr now requestId body model cache = (Inr d, cache')"
  shows "map_of cache' requestId = Some d"
proof (cases "map_of cache requestId")
  case None
  with assms show ?thesis
    by (simp add: processRequestData_def storeRequestData_stored)
next
  case (Some cached)
  show ?thesis
  proof (cases "now - prd_timestamp cached < ttl")
    case True
    with Some assms show ?thesis by (simp add: processRequestData_def)
  next
    case False
    with Some assms show ?thesis
      by (simp add: processRequestData_def storeRequestData_stored)
  qed
qed

lemma logRequestBody_fst: "fst (logRequestBody uuid isoNow body context lg) = uuid"
  by (simp add: logRequestBody_def Let_def)

lemma beginRequest_ok:
  assumes "beginRequest numStr uuid isoNow now table clientReq body st = (Inr (ctx, d), st1)"
  shows "\<exists>model lg. fst (processRequestData numStr now uuid body model (ps_requestDataCache st)) = Inr d
       \<and> st1 = st\<lparr>ps_logger := lg,
             ps_requestDataCache :=
               snd (processRequestData numStr now uuid body model (ps_requestDataCache st))\<rparr>
       \<and> ctx = \<lparr>rc_requestId = uuid, rc_actualModelName = model,
                 rc_promptTokens = 0, rc_completionTokens = 0\<rparr>"
proof (cases "getProp body ''model''")
  case (Inl e)
  with assms show ?thesis by (simp add: beginRequest_def)
next
  case m: (Inr inModelName)
  show ?thesis
  proof (cases "modelGuard numStr table inModelName")
    case (Inl e)
    with assms m show ?thesis by (simp add: beginRequest_def)
  next
    case g: (Inr config)
    show ?thesis
    proof (cases "fst (processRequestData numStr now uuid body (mc_modelName config)
                    (ps_requestDataCache st))")
      case (Inl e)
      with assms m g show ?thesis
        by (simp add: beginRequest_def Let_def logRequestBody_fst)
    next
      case (Inr d')
      with assms m g show ?thesis
        by (simp add: beginRequest_def Let_def logRequestBody_fst) blast
    qed
  qed
qed

lemma beginRequest_cached:
  assumes "beginRequest numStr uuid isoNow now table clientReq body st = (Inr (ctx, d), st1)"
  shows "map_of (ps_requestDataCache st1) (rc_requestId ctx) = Some d"
    and "ps_responseDataCache st1 = ps_responseDataCache st"
    and "rc_requestId ctx = uuid"
proof -
  obtain model lg where
    p: "fst (processRequestData numStr now uuid body model (ps_requestDataCache st)) = Inr d"
    and st1: "st1 = st\<lparr>ps_logger := lg,
             ps_requestDataCache :=
               snd (processRequestData numStr now uuid body model (ps_requestDataCache st))\<rparr>"
    and ctx: "ctx = \<lparr>rc_requestId = uuid, rc_actualModelName = model,
                 rc_promptTokens = 0, rc_completionTokens = 0\<rparr>"
    using beginRequest_ok [OF assms] by blast
  have "processRequestData numStr now uuid body model (ps_requestDataCache st)
      = (Inr d, snd (processRequestData numStr now uuid body model (ps_requestDataCache st)))"
    using p by (simp add: prod_eq_iff)
  from processRequestData_stored [OF this]
  show "map_of (ps_requestDataCache st1) (rc_requestId ctx) = Some d"
    by (simp add: st1 ctx)
  show "ps_responseDataCache st1 = ps_responseDataCache st" by (simp add: st1)
  show "rc_requestId ctx = uuid" by (simp add: ctx)
qed

lemma clearCachedData_removes:
  "map_of (fst (clearCachedData requestId caches)) requestId = None"
  "map_of (snd (clearCachedData requestId caches)) requestId = None"
  by (simp_all add: clearCachedData_def AList.delete_conv')

lemma promptTokensResolved_caches:
  "ps_requestDataCache (snd (promptTokensResolved n ctx st)) = ps_requestDataCache st"
  "ps_responseDataCache (snd (promptTokensResolved n ctx st)) = ps_responseDataCache st"
  "fst (promptTokensResolved n ctx st) = ctx\<lparr>rc_promptTokens := n\<rparr>"
  by (simp_all add: promptTokensResolved_def)

lemma completionTokensResolved_caches:
  "ps_requestDataCache (snd (completionTokensResolved n ctx st)) = ps_requestDataCache st"
  "ps_responseDataCache (snd (completionTokensResolved n ctx st)) = ps_responseDataCache st"
  "fst (completionTokensResolved n ctx st) = ctx\<lparr>rc_completionTokens := n\<rparr>"
  by (simp_all add: completionTokensResolved_def)

lemma evictFirst_below: "length c < maxSize \<Longrightarrow> evictFirst c = c"
  by (simp add: evictFirst_def)

lemma evictFirst_length_le: "length (evictFirst c) \<le> length c"
proof -
  consider "evictFirst c = c" | k where "evictFirst c = AList.delete k c"
    using evictFirst_cases [of c] by blast
  then show ?thesis
  proof cases
    case 1
    then show ?thesis by simp
  next
    case 2
    show ?thesis unfolding 2 by (rule length_delete_le)
  qed
qed

lemma storeRequestData_other:
  assumes "length cache < maxSize" "k \<noteq> requestId"
  shows "map_of (snd (storeRequestData numStr now requestId body model cache)) k = map_of cache k"
  using assms(2)
  by (cases "promptTextOf numStr body")
     (simp_all add: storeRequestData_def evictFirst_below [OF assms(1)] Let_def AList.update_conv')

lemma storeRequestData_length:
  "length (snd (storeRequestData numStr now requestId body model cache)) \<le> Suc (length cache)"
proof (cases "promptTextOf numStr body")
  case (Inl e)
  then show ?thesis
    using evictFirst_length_le [of cache] by (simp add: storeRequestData_def)
next
  case (Inr t)
  have "length (AList.update requestId d (evictFirst cache)) \<le> Suc (length cache)" for d
    using length_update_le [of requestId d "evictFirst cache"] evictFirst_length_le [of cache]
    by simp
  with Inr show ?thesis by (simp add: storeRequestData_def Let_def)
qed

lemma processRequestData_other:
  assumes "length cache < maxSize" "k \<noteq> requestId"
  shows "map_of (snd (processRequestData numStr now requestId body model cache)) k = map_of cache k"
proof (cases "map_of cache requestId")
  case None
  then show ?thesis
    by (simp add: processRequestData_def storeRequestData_other [OF assms])
next
  case (Some cached)
  show ?thesis
  proof (cases "now - prd_timestamp cached < ttl")
    case True
    with Some show ?thesis by (simp add: processRequestData_def)
  next
    case False
    have l: "length (AList.delete requestId cache) < maxSize"
      using length_delete_le [of requestId cache] assms(1) by simp
    have "map_of (snd (storeRequestData numStr now requestId body model
                         (AList.delete requestId cache))) k
        = map_of (AList.delete requestId cache) k"
      by (rule storeRequestData_other [OF l assms(2)])
    also have "\<dots> = map_of cache k"
      using assms(2) by (simp add: AList.delete_conv')
    finally show ?thesis
      using Some False by (simp add: processRequestData_def)
  qed
qed

lemma processRequestData_length:
  "length (snd (processRequestData numStr now requestId body model cache)) \<le> Suc (length cache)"
proof (cases "map_of cache requestId")
  case None
  then show ?thesis
    by (simp add: processRequestData_def storeRequestData_length)
next
  case (Some cached)
  show ?thesis
  proof (cases "now - prd_timestamp cached < ttl")
    case True
    with Some show ?thesis by (simp add: processRequestData_def)
  next
    case False
    have "length (snd (storeRequestData numStr now requestId body model
                         (AList.delete requestId cache)))
        \<le> Suc (length (AList.delete requestId cache))"
      by (rule storeRequestData_length)
    also have "\<dots> \<le> Suc (length cache)"
      using length_delete_le [of requestId cache] by simp
    finally show ?thesis
      using Some False by (simp add: processRequestData_def)
  qed
qed

lemma beginRequest_caches:
  "ps_responseDataCache (snd (beginRequest numStr uuid isoNow now table clientReq body st))
     = ps_responseDataCache st"
  "ps_requestDataCache (snd (beginRequest numStr uuid isoNow now table clientReq body st))
     = ps_requestDataCache st
   \<or> (\<exists>model. ps_requestDataCache (snd (beginRequest numStr uuid isoNow now table clientReq body st))
         = snd (processRequestData numStr now uuid body model (ps_requestDataCache st)))"
proof -
  show "ps_responseDataCache (snd (beginRequest numStr uuid isoNow now table clientReq body st))
     = ps_responseDataCache st"
    by (simp add: beginRequest_def Let_def split: sum.splits)
  show "ps_requestDataCache (snd (beginRequest numStr uuid isoNow now table clientReq body st))
     = ps_requestDataCache st
   \<or> (\<exists>model. ps_requestDataCache (snd (beginRequest numStr uuid isoNow now table clientReq body st))
         = snd (processRequestData numStr now uuid body model (ps_requestDataCache st)))"
  proof (cases "getProp body ''model''")
    case (Inl e)
    then show ?thesis by (simp add: beginRequest_def)
  next
    case m: (Inr inModelName)
    show ?thesis
    proof (cases "modelGuard numStr table inModelName")
      case (Inl e)
      with m show ?thesis by (simp add: beginRequest_def)
    next
      case g: (Inr config)
      have "ps_requestDataCache (snd (beginRequest numStr uuid isoNow now table clientReq body st))
          = snd (processRequestData numStr now uuid body (mc_modelName config)
                   (ps_requestDataCache st))"
        using m g by (simp add: beginRequest_def Let_def logRequestBody_fst split: sum.splits)
      then show ?thesis by blast
    qed
  qed
qed

lemma sweepRequests_keeps:
  "map_of cache k = Some d \<Longrightarrow> \<not> (now - prd_timestamp d > ttl)
   \<Longrightarrow> map_of (sweepRequests now cache) k = Some d"
  unfolding sweepRequests_def
  by (induction cache) (auto split: if_splits)

lemma handlerStep_request_keeps:
  assumes "map_of (ps_requestDataCache st) k = Some d"
    and "spares k d event"
    and "isAccepted event \<longrightarrow> length (ps_requestDataCache st) < maxSize"
  shows "map_of (ps_requestDataCache (handlerStep numStr jsonParse bufferToString table event st)) k
           = Some d"
proof (cases event)
  case (Accepted uuid isoNow now clientReq body)
  have ne: "k \<noteq> uuid" using assms(2) Accepted by simp
  have l: "length (ps_requestDataCache st) < maxSize" using assms(3) Accepted by simp
  consider "ps_requestDataCache (snd (beginRequest numStr uuid isoNow now table clientReq body st))
       = ps_requestDataCache st"
    | model where "ps_requestDataCache (snd (beginRequest numStr uuid isoNow now table clientReq
          body st)) = snd (processRequestData numStr now uuid body model (ps_requestDataCache st))"
    using beginRequest_caches(2) [of numStr uuid isoNow now table clientReq body st] by blast
  then show ?thesis
  proof cases
    case 1
    then show ?thesis using assms(1) Accepted by simp
  next
    case 2
    show ?thesis
      using assms(1) Accepted 2 processRequestData_other [OF l ne] by simp
  qed
next
  case (PromptTokens n ctx)
  then show ?thesis using assms(1) by (simp add: promptTokensResolved_caches)
next
  case (Relayed isoNow ctx statusCode upstreamHeaders chunks clientResp)
  then show ?thesis using assms(1) by (simp add: upstreamResponded_caches)
next
  case (CompletionTokens n ctx)
  then show ?thesis using assms(1) by (simp add: completionTokensResolved_caches)
next
  case (Sweep now)
  then show ?thesis using assms(1,2) by (simp add: sweepRequests_keeps)
qed

lemma handlerStep_request_length:
  "length (ps_requestDataCache (handlerStep numStr jsonParse bufferToString table event st))
     \<le> length (ps_requestDataCache st) + (if isAccepted event then 1 else 0)"
proof (cases event)
  case (Accepted uuid isoNow now clientReq body)
  consider "ps_requestDataCache (snd (beginRequest numStr uuid isoNow now table clientReq body st))
       = ps_requestDataCache st"
    | model where "ps_requestDataCache (snd (beginRequest numStr uuid isoNow now table clientReq
          body st)) = snd (processRequestData numStr now uuid body model (ps_requestDataCache st))"
    using beginRequest_caches(2) [of numStr uuid isoNow now table clientReq body st] by blast
  then show ?thesis
  proof cases
    case 1
    then show ?thesis using Accepted by simp
  next
    case 2
    show ?thesis
      using Accepted 2 processRequestData_length [of numStr now uuid body model
          "ps_requestDataCache st"] by simp
  qed
next
  case (PromptTokens n ctx)
  then show ?thesis by (simp add: promptTokensResolved_caches)
next
  case (Relayed isoNow ctx statusCode upstreamHeaders chunks clientResp)
  then show ?thesis by (simp add: upstreamResponded_caches)
next
  case (CompletionTokens n ctx)
  then show ?thesis by (simp add: completionTokensResolved_caches)
next
  case (Sweep now)
  then show ?thesis by (simp add: sweepRequests_def)
qed

lemma handlerStep_response_subset:
  "set (ps_responseDataCache (handlerStep numStr jsonParse bufferToString table event st))
     \<subseteq> set (ps_responseDataCache st)"
  by (cases event)
     (auto simp: beginRequest_caches(1) promptTokensResolved_caches upstreamResponded_caches
        completionTokensResolved_caches sweepResponses_def)

lemma handlerRun_request_keeps:
  assumes "map_of (ps_requestDataCache st) k = Some d"
    and "\<forall>event \<in> set events. spares k d event"
    and "length (ps_requestDataCache st) + length (filter isAccepted events) \<le> maxSize"
  shows "map_of (ps_requestDataCache (handlerRun numStr jsonParse bufferToString table events st)) k
           = Some d"
  using assms
proof (induction events arbitrary: st)
  case Nil
  then show ?case by (simp add: handlerRun_def)
next
  case (Cons event events)
  let ?st = "handlerStep numStr jsonParse bufferToString table event st"
  have a: "isAccepted event \<longrightarrow> length (ps_requestDataCache st) < maxSize"
    using Cons.prems(3) by auto
  have s: "spares k d event" using Cons.prems(2) by simp
  have m: "map_of (ps_requestDataCache ?st) k = Some d"
    by (rule handlerStep_request_keeps [OF Cons.prems(1) s a])
  have r: "\<forall>event \<in> set events. spares k d event" using Cons.prems(2) by simp
  have l: "length (ps_requestDataCache ?st) + length (filter isAccepted events) \<le> maxSize"
    using handlerStep_request_length [of numStr jsonParse bufferToString table event st]
      Cons.prems(3) by (cases "isAccepted event") simp_all
  have "map_of (ps_requestDataCache (handlerRun numStr jsonParse bufferToString table events ?st)) k
      = Some d"
    by (rule Cons.IH [OF m r l])
  then show ?case by (simp add: handlerRun_def)
qed

lemma handlerRun_response_subset:
  "set (ps_responseDataCache (handlerRun numStr jsonParse bufferToString table events st))
     \<subseteq> set (ps_responseDataCache st)"
proof (induction events arbitrary: st)
  case Nil
  show ?case by (simp add: handlerRun_def)
next
  case (Cons event events)
  have "set (ps_responseDataCache (handlerRun numStr jsonParse bufferToString table events
               (handlerStep numStr jsonParse bufferToString table event st)))
      \<subseteq> set (ps_responseDataCache (handlerStep numStr jsonParse bufferToString table event st))"
    by (rule Cons.IH)
  also have "\<dots> \<subseteq> set (ps_responseDataCache st)"
    by (rule handlerStep_response_subset)
  finally show ?case by (simp add: handlerRun_def)
qed

text \<open>
  C7, as the code has it. A request is taken up and its request data cached under its
  request id. Whatever the handler then runs, for this request or for others (prompt
  tokens counted, responses relayed to their end, completion tokens counted, other
  requests taken up under other ids, sweeps), the entry is still in the request-data
  cache afterwards, provided that no sweep ran later than \<open>ttl\<close> after the entry was
  stored and that the cache, with the requests taken up in the meantime, holds no more
  than \<open>maxSize\<close> entries. In particular it is still there once both token counts of the
  request are known. No callback of the handler removes an entry: counting tokens and
  relaying a response leave both caches as they are, and the handler puts nothing into
  the response-data cache. An entry goes when the sweep finds it expired, when a request
  is taken up with the cache at capacity, or when \<open>clearCachedData\<close> is called, which
  removes both entries of a request id and which the handler does not call.
\<close>

theorem streamed_request_keeps_cache:
  assumes "beginRequest numStr uuid isoNow now table clientReq body st = (Inr (ctx, d), st1)"
    and "\<forall>event \<in> set events. spares uuid d event"
    and "length (ps_requestDataCache st1) + length (filter isAccepted events) \<le> maxSize"
  shows "rc_requestId ctx = uuid
       \<and> map_of (ps_requestDataCache st1) uuid = Some d
       \<and> map_of (ps_requestDataCache
                  (handlerRun numStr jsonParse bufferToString registry events st1)) uuid = Some d
       \<and> set (ps_responseDataCache (handlerRun numStr jsonParse bufferToString registry events st1))
            \<subseteq> set (ps_responseDataCache st)
       \<and> (\<forall>n c s. ps_requestDataCache (snd (promptTokensResolved n c s)) = ps_requestDataCache s
                \<and> ps_responseDataCache (snd (promptTokensResolved n c s)) = ps_responseDataCache s)
       \<and> (\<forall>n c s. ps_requestDataCache (snd (completionTokensResolved n c s)) = ps_requestDataCache s
                \<and> ps_responseDataCache (snd (completionTokensResolved n c s))
                    = ps_responseDataCache s)
       \<and> (\<forall>t c status headers chunks s r.
             ps_requestDataCache (fst (upstreamResponded numStr jsonParse bufferToString t c status
                 headers chunks (s, r))) = ps_requestDataCache s
           \<and> ps_responseDataCache (fst (upstreamResponded numStr jsonParse bufferToString t c status
                 headers chunks (s, r))) = ps_responseDataCache s)
       \<and> (\<forall>caches. map_of (fst (clearCachedData uuid caches)) uuid = None
                  \<and> map_of (snd (clearCachedData uuid caches)) uuid = None)"
proof -
  note b = beginRequest_cached [OF assms(1)]
  have i: "rc_requestId ctx = uuid" by (rule b(3))
  have m: "map_of (ps_requestDataCache st1) uuid = Some d"
    using b(1) b(3) by simp
  have k: "map_of (ps_requestDataCache
                  (handlerRun numStr jsonParse bufferToString registry events st1)) uuid = Some d"
    by (rule handlerRun_request_keeps [OF m assms(2) assms(3)])
  have r: "set (ps_responseDataCache (handlerRun numStr jsonParse bufferToString registry events st1))
            \<subseteq> set (ps_responseDataCache st)"
    using handlerRun_response_subset [of numStr jsonParse bufferToString registry events st1]
    by (simp add: b(2))
  have p: "\<forall>n c s. ps_requestDataCache (snd (promptTokensResolved n c s)) = ps_requestDataCache s
                \<and> ps_responseDataCache (snd (promptTokensResolved n c s)) = ps_responseDataCache s"
    by (simp add: promptTokensResolved_caches)
  have c: "\<forall>n c s. ps_requestDataCache (snd (completionTokensResolved n c s)) = ps_requestDataCache s
                \<and> ps_responseDataCache (snd (completionTokensResolved n c s))
                    = ps_responseDataCache s"
    by (simp add: completionTokensResolved_caches)
  have u: "\<forall>t c status headers chunks s r.
             ps_requestDataCache (fst (upstreamResponded numStr jsonParse bufferToString t c status
                 headers chunks (s, r))) = ps_requestDataCache s
           \<and> ps_responseDataCache (fst (upstreamResponded numStr jsonParse bufferToString t c status
                 headers chunks (s, r))) = ps_responseDataCache s"
    by (simp add: upstreamResponded_caches)
  have x: "\<forall>caches. map_of (fst (clearCachedData uuid caches)) uuid = None
                  \<and> map_of (snd (clearCachedData uuid caches)) uuid = None"
    by (simp add: clearCachedData_removes)
  show ?thesis
    by (intro conjI) (rule i, rule m, rule k, rule r, rule p, rule c, rule u, rule x)
qed

text \<open>
  C7 as stated fails: a request is taken up and streamed (status 200, an event stream),
  both its token counts become known, and the request-data cache still holds the entry
  of its request id.
\<close>

theorem streamed_request_leaves_entry:
  "fst (beginRequest (showNat \<circ> nat \<circ> floor) ''id-1'' ''2025-01-01T00:00:00.000Z'' 1000
          [(''ollama/gpt-oss'',
            \<lparr>mc_baseUrl = Some (JStr ''http://localhost:11434''),
             mc_completionsPath = Some (JStr ''/v1/chat/completions''),
             mc_modelName = Some (JStr ''gpt-oss:20b''), mc_temperature = Some (JNum (1 / 10))\<rparr>)]
          \<lparr>ir_userAgent = None, ir_url = ''/v1/chat/completions'', ir_method = ''POST''\<rparr>
          (JObj [(''model'', JStr ''ollama/gpt-oss''), (''stream'', JBool True),
                 (''messages'', JArr [JObj [(''role'', JStr ''user''), (''content'', JStr ''hi'')]])])
          \<lparr>ps_logger = \<lparr>pendingLogs = [], logLines = []\<rparr>,
           ps_requestDataCache = [], ps_responseDataCache = []\<rparr>)
     = Inr (\<lparr>rc_requestId = ''id-1'', rc_actualModelName = Some (JStr ''gpt-oss:20b''),
             rc_promptTokens = 0, rc_completionTokens = 0\<rparr>,
            \<lparr>prd_requestId = ''id-1'', prd_promptText = ''hi'',
             prd_model = Some (JStr ''gpt-oss:20b''), prd_timestamp = 1000\<rparr>)
   \<and> ps_requestDataCache
       (snd (completionTokensResolved 2
          \<lparr>rc_requestId = ''id-1'', rc_actualModelName = Some (JStr ''gpt-oss:20b''),
           rc_promptTokens = 1, rc_completionTokens = 0\<rparr>
          (fst (upstreamResponded (showNat \<circ> nat \<circ> floor) Map.empty (\<lambda>bytes. bytes)
             ''2025-01-01T00:00:02.000Z''
             \<lparr>rc_requestId = ''id-1'', rc_actualModelName = Some (JStr ''gpt-oss:20b''),
              rc_promptTokens = 1, rc_completionTokens = 0\<rparr>
             200 [(''content-type'', ''text/event-stream'')] [''data: hello'']
             (snd (promptTokensResolved 1
                \<lparr>rc_requestId = ''id-1'', rc_actualModelName = Some (JStr ''gpt-oss:20b''),
                 rc_promptTokens = 0, rc_completionTokens = 0\<rparr>
                (snd (beginRequest (showNat \<circ> nat \<circ> floor) ''id-1''
                   ''2025-01-01T00:00:00.000Z'' 1000
                   [(''ollama/gpt-oss'',
                     \<lparr>mc_baseUrl = Some (JStr ''http://localhost:11434''),
                      mc_completionsPath = Some (JStr ''/v1/chat/completions''),
                      mc_modelName = Some (JStr ''gpt-oss:20b''),
                      mc_temperature = Some (JNum (1 / 10))\<rparr>)]
                   \<lparr>ir_userAgent = None, ir_url = ''/v1/chat/completions'', ir_method = ''POST''\<rparr>
                   (JObj [(''model'', JStr ''ollama/gpt-oss''), (''stream'', JBool True),
                          (''messages'',
                           JArr [JObj [(''role'', JStr ''user''), (''content'', JStr ''hi'')]])])
                   \<lparr>ps_logger = \<lparr>pendingLogs = [], logLines = []\<rparr>,
                    ps_requestDataCache = [], ps_responseDataCache = []\<rparr>))),
              \<lparr>cr_headersSent = False, cr_statusCode = None, cr_headers = [], cr_body = [],
               cr_destroyed = False\<rparr>)))))
     = [(''id-1'', \<lparr>prd_requestId = ''id-1'', prd_promptText = ''hi'',
                    prd_model = Some (JStr ''gpt-oss:20b''), prd_timestamp = 1000\<rparr>)]"
proof -
  let ?body = "JObj [(''model'', JStr ''ollama/gpt-oss''), (''stream'', JBool True),
                 (''messages'', JArr [JObj [(''role'', JStr ''user''), (''content'', JStr ''hi'')]])]"
  let ?begin = "beginRequest (showNat \<circ> nat \<circ> floor) ''id-1'' ''2025-01-01T00:00:00.000Z'' 1000
          [(''ollama/gpt-oss'',
            \<lparr>mc_baseUrl = Some (JStr ''http://localhost:11434''),
             mc_completionsPath = Some (JStr ''/v1/chat/completions''),
             mc_modelName = Some (JStr ''gpt-oss:20b''), mc_temperature = Some (JNum (1 / 10))\<rparr>)]
          \<lparr>ir_userAgent = None, ir_url = ''/v1/chat/completions'', ir_method = ''POST''\<rparr>
          ?body
          \<lparr>ps_logger = \<lparr>pendingLogs = [], logLines = []\<rparr>,
           ps_requestDataCache = [], ps_responseDataCache = []\<rparr>"
  have p: "processRequestData (showNat \<circ> nat \<circ> floor) 1000 ''id-1'' ?body
             (Some (JStr ''gpt-oss:20b'')) []
      = (Inr \<lparr>prd_requestId = ''id-1'', prd_promptText = ''hi'',
             prd_model = Some (JStr ''gpt-oss:20b''), prd_timestamp = 1000\<rparr>,
         [(''id-1'', \<lparr>prd_requestId = ''id-1'', prd_promptText = ''hi'',
                    prd_model = Some (JStr ''gpt-oss:20b''), prd_timestamp = 1000\<rparr>)])"
    by (simp add: processRequestData_def storeRequestData_def evictFirst_def maxSize_def
        promptTextOf_def extractTextFromMessages_def contentText_def jsGet_def
        objectPrototypeKeys_def Let_def)
  have g: "modelGuard (showNat \<circ> nat \<circ> floor)
          [(''ollama/gpt-oss'',
            \<lparr>mc_baseUrl = Some (JStr ''http://localhost:11434''),
             mc_completionsPath = Some (JStr ''/v1/chat/completions''),
             mc_modelName = Some (JStr ''gpt-oss:20b''), mc_temperature = Some (JNum (1 / 10))\<rparr>)]
          (Some (JStr ''ollama/gpt-oss''))
      = Inr \<lparr>mc_baseUrl = Some (JStr ''http://localhost:11434''),
             mc_completionsPath = Some (JStr ''/v1/chat/completions''),
             mc_modelName = Some (JStr ''gpt-oss:20b''), mc_temperature = Some (JNum (1 / 10))\<rparr>"
    by (simp add: modelGuard_def)
  have b1: "fst ?begin
     = Inr (\<lparr>rc_requestId = ''id-1'', rc_actualModelName = Some (JStr ''gpt-oss:20b''),
             rc_promptTokens = 0, rc_completionTokens = 0\<rparr>,
            \<lparr>prd_requestId = ''id-1'', prd_promptText = ''hi'',
             prd_model = Some (JStr ''gpt-oss:20b''), prd_timestamp = 1000\<rparr>)"
    by (simp add: beginRequest_def jsGet_def g p logRequestBody_fst Let_def)
  have b2: "ps_requestDataCache (snd ?begin)
     = [(''id-1'', \<lparr>prd_requestId = ''id-1'', prd_promptText = ''hi'',
                    prd_model = Some (JStr ''gpt-oss:20b''), prd_timestamp = 1000\<rparr>)]"
    by (simp add: beginRequest_def jsGet_def g p logRequestBody_fst Let_def)
  show ?thesis
    by (simp only: b1 b2 completionTokensResolved_caches upstreamResponded_caches
        promptTokensResolved_caches simp_thms)
qed

theorem streamed_request_keeps_cache_witness:
  "map_of (ps_requestDataCache
     (handlerRun (showNat \<circ> nat \<circ> floor) Map.empty (\<lambda>bytes. bytes)
        [(''aliyun/qwen-max'',
          \<lparr>mc_baseUrl = Some (JStr ''https://dashscope.example.com''),
           mc_completionsPath = Some (JStr ''/v1/chat/completions''),
           mc_modelName = Some (JStr ''qwen-max''), mc_temperature = Some (JNum (7 / 10))\<rparr>)]
        [PromptTokens 6
           \<lparr>rc_requestId = ''id-3'', rc_actualModelName = Some (JStr ''qwen-max''),
            rc_promptTokens = 0, rc_completionTokens = 0\<rparr>,
         Sweep 64000,
         Accepted ''id-4'' ''2025-01-01T00:01:10.000Z'' 74000
           \<lparr>ir_userAgent = Some ''curl/8'', ir_url = ''/v1/chat/completions'', ir_method = ''POST''\<rparr>
           (JObj [(''model'', JStr ''aliyun/qwen-max'')]),
         Relayed ''2025-01-01T00:01:12.000Z''
           \<lparr>rc_requestId = ''id-3'', rc_actualModelName = Some (JStr ''qwen-max''),
            rc_promptTokens = 6, rc_completionTokens = 0\<rparr>
           200 [(''content-type'', ''text/event-stream'')] [''data: hel'', ''lo'']
           \<lparr>cr_headersSent = False, cr_statusCode = None, cr_headers = [], cr_body = [],
            cr_destroyed = False\<rparr>,
         CompletionTokens 3
           \<lparr>rc_requestId = ''id-3'', rc_actualModelName = Some (JStr ''qwen-max''),
            rc_promptTokens = 6, rc_completionTokens = 0\<rparr>]
        (snd (beginRequest (showNat \<circ> nat \<circ> floor) ''id-3'' ''2025-01-01T00:00:04.000Z'' 4000
           [(''aliyun/qwen-max'',
             \<lparr>mc_baseUrl = Some (JStr ''https://dashscope.example.com''),
              mc_completionsPath = Some (JStr ''/v1/chat/completions''),
              mc_modelName = Some (JStr ''qwen-max''), mc_temperature = Some (JNum (7 / 10))\<rparr>)]
           \<lparr>ir_userAgent = Some ''curl/8'', ir_url = ''/v1/chat/completions'', ir_method = ''POST''\<rparr>
           (JObj [(''model'', JStr ''aliyun/qwen-max''), (''stream'', JBool True),
                  (''messages'', JArr [JObj [(''role'', JStr ''system''),
                                             (''content'', JStr ''Be terse.'')],
                                       JObj [(''role'', JStr ''user''),
                                             (''content'', JStr ''hello'')]])])
           \<lparr>ps_logger = \<lparr>pendingLogs = [], logLines = []\<rparr>,
            ps_requestDataCache = [], ps_responseDataCache = []\<rparr>)))) ''id-3''
   = Some \<lparr>prd_requestId = ''id-3'', prd_promptText = ''Be terse.'' @ [CHR 0x0A] @ ''hello'',
            prd_model = Some (JStr ''qwen-max''), prd_timestamp = 4000\<rparr>"
proof -
  let ?N = "showNat \<circ> nat \<circ> floor"
  let ?table = "[(''aliyun/qwen-max'',
          \<lparr>mc_baseUrl = Some (JStr ''https://dashscope.example.com''),
           mc_completionsPath = Some (JStr ''/v1/chat/completions''),
           mc_modelName = Some (JStr ''qwen-max''), mc_temperature = Some (JNum (7 / 10))\<rparr>)]"
  let ?req = "\<lparr>ir_userAgent = Some ''curl/8'', ir_url = ''/v1/chat/completions'',
               ir_method = ''POST''\<rparr>"
  let ?body = "JObj [(''model'', JStr ''aliyun/qwen-max''), (''stream'', JBool True),
                  (''messages'', JArr [JObj [(''role'', JStr ''system''),
                                             (''content'', JStr ''Be terse.'')],
                                       JObj [(''role'', JStr ''user''),
                                             (''content'', JStr ''hello'')]])]"
  let ?start = "\<lparr>ps_logger = \<lparr>pendingLogs = [], logLines = []\<rparr>,
            ps_requestDataCache = [], ps_responseDataCache = []\<rparr>"
  let ?ctx = "\<lparr>rc_requestId = ''id-3'', rc_actualModelName = Some (JStr ''qwen-max''),
            rc_promptTokens = 0, rc_completionTokens = 0\<rparr>"
  let ?ctx6 = "\<lparr>rc_requestId = ''id-3'', rc_actualModelName = Some (JStr ''qwen-max''),
            rc_promptTokens = 6, rc_completionTokens = 0\<rparr>"
  let ?d = "\<lparr>prd_requestId = ''id-3'', prd_promptText = ''Be terse.'' @ [CHR 0x0A] @ ''hello'',
            prd_model = Some (JStr ''qwen-max''), prd_timestamp = 4000\<rparr>"
  let ?resp = "\<lparr>cr_headersSent = False, cr_statusCode = None, cr_headers = [], cr_body = [],
            cr_destroyed = False\<rparr>"
  let ?events = "[PromptTokens 6 ?ctx, Sweep 64000,
         Accepted ''id-4'' ''2025-01-01T00:01:10.000Z'' 74000 ?req
           (JObj [(''model'', JStr ''aliyun/qwen-max'')]),
         Relayed ''2025-01-01T00:01:12.000Z'' ?ctx6 200 [(''content-type'', ''text/event-stream'')]
           [''data: hel'', ''lo''] ?resp,
         CompletionTokens 3 ?ctx6]"
  let ?b = "beginRequest ?N ''id-3'' ''2025-01-01T00:00:04.000Z'' 4000 ?table ?req ?body ?start"
  have pr: "processRequestData ?N 4000 ''id-3'' ?body (Some (JStr ''qwen-max'')) []
      = (Inr ?d, [(''id-3'', ?d)])"
    by (simp add: processRequestData_def storeRequestData_def evictFirst_def maxSize_def
        promptTextOf_def extractTextFromMessages_def contentText_def jsGet_def
        objectPrototypeKeys_def Let_def)
  have g: "modelGuard ?N ?table (Some (JStr ''aliyun/qwen-max''))
      = Inr \<lparr>mc_baseUrl = Some (JStr ''https://dashscope.example.com''),
           mc_completionsPath = Some (JStr ''/v1/chat/completions''),
           mc_modelName = Some (JStr ''qwen-max''), mc_temperature = Some (JNum (7 / 10))\<rparr>"
    by (simp add: modelGuard_def)
  have b1: "fst ?b = Inr (?ctx, ?d)"
    by (simp add: beginRequest_def jsGet_def g pr logRequestBody_fst Let_def)
  have b2: "ps_requestDataCache (snd ?b) = [(''id-3'', ?d)]"
    by (simp add: beginRequest_def jsGet_def g pr logRequestBody_fst Let_def)
  have h1: "?b = (Inr (?ctx, ?d), snd ?b)"
    using b1 by (simp add: prod_eq_iff)
  have h2: "\<forall>event \<in> set ?events. spares ''id-3'' ?d event"
    by (simp add: ttl_def)
  have h3: "length (ps_requestDataCache (snd ?b)) + length (filter isAccepted ?events) \<le> maxSize"
    unfolding b2 by (simp add: maxSize_def)
  from streamed_request_keeps_cache [OF h1 h2 h3, of Map.empty "\<lambda>bytes. bytes" ?table]
  have "map_of (ps_requestDataCache (handlerRun ?N Map.empty (\<lambda>bytes. bytes) ?table ?events
                  (snd ?b))) ''id-3'' = Some ?d"
    by blast
  then show ?thesis .
qed

end
